(* ===== verification/Prelude.thy ===== *)
theory Prelude
  imports Main "HOL-Library.Word"
begin

text \<open>
  What every component of the development shares: names for the machine types of the
  code, the view a C routine has of a \<open>char const*\<close>, and the collections of rewrite rules
  that the component theories fill.

  A pointer to characters is modelled by the memory that starts where it points:
  \<open>None\<close> is the null pointer and \<open>Some bs\<close> a non-null pointer whose readable
  memory is \<open>bs\<close>.  A routine that takes a C string reads \<open>c_str_of bs\<close>, the bytes up to
  the first NUL.
\<close>

unbundle bit_operations_syntax

type_synonym i8 = "8 word"
type_synonym i16 = "16 word"
type_synonym i32 = "32 word"
type_synonym i64 = "64 word"
type_synonym u8 = "8 word"
type_synonym u16 = "16 word"
type_synonym u32 = "32 word"
type_synonym u64 = "64 word"

type_synonym char_ptr = "string option"

abbreviation nul :: char where
  "nul \<equiv> CHR 0x00"

named_theorems heap_simps \<open>facts about the control blocks of shared pointers\<close>
named_theorems frame_simps \<open>which fields an operation leaves alone\<close>
named_theorems step_defs \<open>unfolding equations of the operations of a service\<close>

section \<open>C strings\<close>

text \<open>\<open>std::string::c_str\<close>: the bytes of the string followed by a NUL.\<close>

definition c_str :: "string \<Rightarrow> char_ptr" where
  "c_str s = Some (s @ [nul])"

text \<open>The bytes a C routine sees through a pointer: those before the first NUL.\<close>

definition c_str_of :: "string \<Rightarrow> string" where
  "c_str_of bs = takeWhile (\<lambda>c. c \<noteq> nul) bs"

definition nul_free :: "string \<Rightarrow> bool" where
  "nul_free s \<longleftrightarrow> nul \<notin> set s"

lemma c_str_of_append_nul [simp]: "c_str_of (s @ nul # t) = c_str_of s"
  by (induction s) (auto simp: c_str_of_def)

lemma c_str_of_nul_free [simp]: "nul_free s \<Longrightarrow> c_str_of s = s"
  by (induction s) (auto simp: c_str_of_def nul_free_def)

lemma nul_free_c_str_of [simp]: "nul_free (c_str_of s)"
  by (auto simp: nul_free_def c_str_of_def dest: set_takeWhileD)

lemma c_str_of_idem [simp]: "c_str_of (c_str_of s) = c_str_of s"
  by simp

section \<open>Machine integers\<close>

lemma uint_nonneg_sint:
  fixes w :: "'a::len word"
  assumes "0 \<le> sint w"
  shows "uint w = sint w"
proof -
  have "sint w < 2 ^ LENGTH('a)"
    by (rule less_le_trans [OF sint_lt]) (rule power_increasing, simp_all)
  with assms show ?thesis
    by (simp add: uint_sint take_bit_int_eq_self)
qed

section \<open>Lists and options\<close>

lemma find_Some_unique:
  assumes "distinct (map f xs)" and "x \<in> set xs"
  shows "find (\<lambda>y. f y = f x) xs = Some x"
  using assms by (induction xs) (auto simp: image_iff)

lemma find_None_image: "find (\<lambda>y. f y = v) xs = None \<longleftrightarrow> v \<notin> f ` set xs"
  by (auto simp: find_None_iff)

lemma option_case_Some_iff:
  "(case x of None \<Rightarrow> None | Some y \<Rightarrow> f y) = Some z \<longleftrightarrow> (\<exists>y. x = Some y \<and> f y = Some z)"
  by (cases x) auto

end
