(* ===== verification/Shared_Ptr.thy ===== *)
theory Shared_Ptr
  imports Prelude
begin

text \<open>
  The part of \<open>std::shared_ptr\<close> and \<open>std::weak_ptr\<close> that the services use.
  Every shared pointer made from a raw pointer owns a fresh control block with use count
  one, also when the raw pointer is null: this is what
  \<open>std::shared_ptr<void>(nullptr, noop_deleter())\<close> relies on.  A weak pointer
  remembers the block and is expired once the use count of the block is zero.

  The control blocks live in a record \<open>cpp_heap\<close>; the states of the components extend
  that record, so that the operations here apply to each of them.  Releasing an owner
  returns the raw pointer on which the deleter has to run.
\<close>

record cpp_heap =
  next_block :: nat
  use_count :: "nat \<Rightarrow> nat"

datatype 'a shared_ptr = Empty_ptr | Shared (block_of: nat) (target: "'a option")

datatype 'a weak_ptr = Empty_weak | Weak nat "'a option"

definition sp_make :: "'a option \<Rightarrow> 'z cpp_heap_scheme \<Rightarrow> 'a shared_ptr \<times> 'z cpp_heap_scheme" where
  "sp_make p h =
     (Shared (next_block h) p,
      h\<lparr>next_block := Suc (next_block h), use_count := (use_count h)(next_block h := 1)\<rparr>)"

fun sp_release :: "'a shared_ptr \<Rightarrow> 'z cpp_heap_scheme \<Rightarrow> 'z cpp_heap_scheme \<times> 'a option" where
  "sp_release Empty_ptr h = (h, None)"
| "sp_release (Shared b p) h =
     (h\<lparr>use_count := (use_count h)(b := use_count h b - 1)\<rparr>,
      if use_count h b = 1 then p else None)"

fun sp_get :: "'a shared_ptr \<Rightarrow> 'a option" where
  "sp_get Empty_ptr = None"
| "sp_get (Shared _ p) = p"

fun wp_of :: "'a shared_ptr \<Rightarrow> 'a weak_ptr" where
  "wp_of Empty_ptr = Empty_weak"
| "wp_of (Shared b p) = Weak b p"

fun expired :: "'a weak_ptr \<Rightarrow> 'z cpp_heap_scheme \<Rightarrow> bool" where
  "expired Empty_weak h \<longleftrightarrow> True"
| "expired (Weak b _) h \<longleftrightarrow> use_count h b = 0"

text \<open>
  \<open>weak_ptr::lock().get()\<close>.  The locked pointer is a temporary that is dropped at the
  end of the full expression or of the function, so the use count is unchanged afterwards.
\<close>

fun wp_lock_get :: "'a weak_ptr \<Rightarrow> 'z cpp_heap_scheme \<Rightarrow> 'a option" where
  "wp_lock_get Empty_weak h = None"
| "wp_lock_get (Weak b p) h = (if use_count h b = 0 then None else p)"

definition heap_wf :: "'z cpp_heap_scheme \<Rightarrow> bool" where
  "heap_wf h \<longleftrightarrow> (\<forall>b. next_block h \<le> b \<longrightarrow> use_count h b = 0)"

text \<open>A weak pointer can only name a block that has been allocated.\<close>

fun weak_allocated :: "'a weak_ptr \<Rightarrow> 'z cpp_heap_scheme \<Rightarrow> bool" where
  "weak_allocated Empty_weak h \<longleftrightarrow> True"
| "weak_allocated (Weak b _) h \<longleftrightarrow> b < next_block h"

text \<open>Sole ownership: the only owner of a live block.\<close>

fun sole_owner :: "'a shared_ptr \<Rightarrow> 'z cpp_heap_scheme \<Rightarrow> bool" where
  "sole_owner Empty_ptr h \<longleftrightarrow> True"
| "sole_owner (Shared b _) h \<longleftrightarrow> use_count h b = 1 \<and> b < next_block h"

fun distinct_blocks :: "'a shared_ptr \<Rightarrow> 'b shared_ptr \<Rightarrow> bool" where
  "distinct_blocks (Shared b _) (Shared c _) \<longleftrightarrow> b \<noteq> c"
| "distinct_blocks _ _ \<longleftrightarrow> True"

section \<open>Laws\<close>

lemma heap_wf_fresh: "heap_wf h \<Longrightarrow> use_count h (next_block h) = 0"
  by (simp add: heap_wf_def)

lemma heap_wf_sp_make [heap_simps]: "heap_wf h \<Longrightarrow> heap_wf (snd (sp_make p h))"
  by (simp add: heap_wf_def sp_make_def)

lemma heap_wf_sp_release [heap_simps]: "heap_wf h \<Longrightarrow> heap_wf (fst (sp_release p h))"
  by (cases p) (auto simp: heap_wf_def)

lemma sp_make_not_expired [heap_simps]: "\<not> expired (wp_of (fst (sp_make p h))) (snd (sp_make p h))"
  by (simp add: sp_make_def)

lemma sp_make_sole_owner [heap_simps]: "sole_owner (fst (sp_make p h)) (snd (sp_make p h))"
  by (simp add: sp_make_def)

lemma sp_release_expires: "sole_owner p h \<Longrightarrow> expired (wp_of p) (fst (sp_release p h))"
  by (cases p) auto

lemma sp_release_target: "sole_owner p h \<Longrightarrow> snd (sp_release p h) = sp_get p"
  by (cases p) auto

text \<open>Expiry is for ever: neither making nor releasing a pointer revives an old block.\<close>

lemma sp_make_keeps_expired:
  "weak_allocated w h \<Longrightarrow> expired w (snd (sp_make p h)) \<longleftrightarrow> expired w h"
  by (cases w) (auto simp: sp_make_def)

lemma sp_release_keeps_expired: "expired w h \<Longrightarrow> expired w (fst (sp_release p h))"
  by (cases w; cases p) auto

lemma weak_allocated_sp_make: "weak_allocated w h \<Longrightarrow> weak_allocated w (snd (sp_make p h))"
  by (cases w) (auto simp: sp_make_def)

lemma weak_allocated_sp_release: "weak_allocated w (fst (sp_release p h)) \<longleftrightarrow> weak_allocated w h"
  by (cases w; cases p) auto

lemma wp_lock_get_live: "\<not> expired (wp_of p) h \<Longrightarrow> wp_lock_get (wp_of p) h = sp_get p"
  by (cases p) auto

lemma wp_lock_get_expired: "expired w h \<Longrightarrow> wp_lock_get w h = None"
  by (cases w) auto

section \<open>Evolution of the heap\<close>

text \<open>
  What holds between the heap before and after any sequence of operations: blocks are only
  added, and a block whose use count has reached zero stays at zero.
\<close>

definition evolves :: "'y cpp_heap_scheme \<Rightarrow> 'z cpp_heap_scheme \<Rightarrow> bool" where
  "evolves h h' \<longleftrightarrow>
     next_block h \<le> next_block h' \<and>
     (\<forall>b < next_block h. use_count h b = 0 \<longrightarrow> use_count h' b = 0)"

lemma evolves_refl [simp, intro]: "evolves h h"
  by (simp add: evolves_def)

lemma evolves_trans [trans]: "evolves h h' \<Longrightarrow> evolves h' h'' \<Longrightarrow> evolves h h''"
  unfolding evolves_def by (meson dual_order.trans order_less_le_trans)

lemma evolves_sp_make: "evolves h (snd (sp_make p h))"
  by (simp add: evolves_def sp_make_def)

lemma evolves_sp_release: "evolves h (fst (sp_release p h))"
  by (cases p) (auto simp: evolves_def)

lemma evolves_expired: "evolves h h' \<Longrightarrow> weak_allocated w h \<Longrightarrow> expired w h \<Longrightarrow> expired w h'"
  by (cases w) (auto simp: evolves_def)

lemma evolves_weak_allocated: "evolves h h' \<Longrightarrow> weak_allocated w h \<Longrightarrow> weak_allocated w h'"
  by (cases w) (auto simp: evolves_def)

lemma sole_owner_weak_allocated: "sole_owner p h \<Longrightarrow> weak_allocated (wp_of p) h"
  by (cases p) auto

lemma sole_owner_not_expired: "sole_owner (Shared b p) h \<Longrightarrow> \<not> expired (wp_of (Shared b p)) h"
  by simp

end
