(* ===== verification/Errors.thy ===== *)
theory Errors
  imports Prelude "HOL-Library.Char_ord"
begin

text \<open>
  \<open>include/amy/error.hpp\<close>, \<open>system_error.hpp\<close> and \<open>detail/throw_error.hpp\<close>:
  the two error enumerations, the two error categories with their message tables, error
  codes, and the exception that the throwing forms of the connector raise.

  The numeric values of the macros of the MySQL headers (\<open>CR_*\<close>, \<open>CLIENT_*\<close>, \<open>*_FLAG\<close>,
  \<open>MYSQL_WAIT_*\<close>) are no part of the repository: they are the fields of the record
  \<open>mysql_headers\<close>, which every definition that needs one takes as an argument.
\<close>

section \<open>The enumerations\<close>

datatype (plugins only: size code) client_errors =
    Unknown_error | Socket_create_error | Connection_error
  | Conn_host_error | Ipsock_error | Unknown_host
  | Server_gone_error | Version_error | Out_of_memory
  | Wrong_host_info | Localhost_connection | Tcp_connection
  | Server_handshake_err | Server_lost | Commands_out_of_sync
  | Named_pipe_connection | Named_pipe_wait_error | Named_pipe_open_error
  | Named_pipe_setstate_error | Cant_read_charset | Net_packet_too_large
  | Embedded_connection | Probe_slave_status | Probe_slave_hosts
  | Probe_slave_connect | Probe_master_connect | Ssl_connection_error
  | Malformed_packet | Wrong_license | Null_pointer
  | No_prepare_stmt | Params_not_bound | Data_truncated
  | No_parameters_exists | Invalid_parameter_no | Invalid_buffer_use
  | Unsupported_param_type | Shared_memory_connection | Shared_memory_connect_request_error
  | Shared_memory_connect_answer_error | Shared_memory_connect_file_map_error | Shared_memory_connect_map_error
  | Shared_memory_file_map_error | Shared_memory_map_error | Shared_memory_event_error
  | Shared_memory_connect_abandoned_error | Shared_memory_connect_set_error | Conn_unknow_protocol
  | Invalid_conn_handle | Secure_auth | Fetch_canceled
  | No_data | No_stmt_metadata | No_result_set
  | Not_implemented

datatype misc_errors =
    Initialization_error | Not_initialized | No_more_results | Null_field_value
  | Autocommit_setting_error | Commit_error | Rollback_error | Unknown_misc

definition all_client_errors :: "client_errors list" where
  "all_client_errors =
     [Unknown_error, Socket_create_error, Connection_error, Conn_host_error,
      Ipsock_error, Unknown_host, Server_gone_error, Version_error, Out_of_memory,
      Wrong_host_info, Localhost_connection, Tcp_connection, Server_handshake_err,
      Server_lost, Commands_out_of_sync, Named_pipe_connection, Named_pipe_wait_error,
      Named_pipe_open_error, Named_pipe_setstate_error, Cant_read_charset,
      Net_packet_too_large, Embedded_connection, Probe_slave_status,
      Probe_slave_hosts, Probe_slave_connect, Probe_master_connect,
      Ssl_connection_error, Malformed_packet, Wrong_license, Null_pointer,
      No_prepare_stmt, Params_not_bound, Data_truncated, No_parameters_exists,
      Invalid_parameter_no, Invalid_buffer_use, Unsupported_param_type,
      Shared_memory_connection, Shared_memory_connect_request_error,
      Shared_memory_connect_answer_error, Shared_memory_connect_file_map_error,
      Shared_memory_connect_map_error, Shared_memory_file_map_error,
      Shared_memory_map_error, Shared_memory_event_error,
      Shared_memory_connect_abandoned_error, Shared_memory_connect_set_error,
      Conn_unknow_protocol, Invalid_conn_handle, Secure_auth, Fetch_canceled, No_data,
      No_stmt_metadata, No_result_set, Not_implemented]"

definition all_misc_errors :: "misc_errors list" where
  "all_misc_errors =
     [Initialization_error, Not_initialized, No_more_results, Null_field_value,
      Autocommit_setting_error, Commit_error, Rollback_error, Unknown_misc]"

text \<open>
  The \<open>switch\<close> of \<open>client_category::message\<close>: its case labels with their texts, in the
  order of the source.
\<close>

definition client_switch :: "(client_errors \<times> string) list" where
  "client_switch =
     [(Unknown_error, ''Unknown MySQL error''),
      (Socket_create_error, ''Can't create UNIX socket''),
      (Connection_error, ''Can't connect to local MySQL server through socket''),
      (Conn_host_error, ''Can't connect to MySQL server''),
      (Ipsock_error, ''Can't create TCP/IP socket''),
      (Unknown_host, ''Unknown MySQL server host''),
      (Server_gone_error, ''MySQL server has gone away''),
      (Version_error, ''Protocol mismatch''),
      (Out_of_memory, ''MySQL client ran out of memory''),
      (Wrong_host_info, ''Wrong host info''),
      (Localhost_connection, ''Localhost via UNIX socket''),
      (Tcp_connection, ''TCP/IP connection failed''),
      (Server_handshake_err, ''Error in server handshake''),
      (Server_lost, ''Lost connection to MySQL server during query''),
      (Commands_out_of_sync, ''Commands out of sync; you can't run this command now''),
      (Named_pipe_connection, ''Named pipe connection failed''),
      (Named_pipe_wait_error, ''Can't wait for named pipe to host''),
      (Named_pipe_open_error, ''Can't open named pipe to host''),
      (Named_pipe_setstate_error, ''Can't set state of named pipe to host''),
      (Cant_read_charset, ''Can't initialize character set''),
      (Net_packet_too_large, ''Got packet bigger than 'max_allowed_packet' bytes''),
      (Embedded_connection, ''Embedded server''),
      (Probe_slave_status, ''Error on SHOW SLAVE STATUS''),
      (Probe_slave_hosts, ''Error on SHOW SLAVE HOSTS''),
      (Probe_slave_connect, ''Error connecting to slave''),
      (Probe_master_connect, ''Error connecting to master''),
      (Ssl_connection_error, ''SSL connection error''),
      (Malformed_packet, ''Malformed packet''),
      (Wrong_license, ''This client library has wrong license''),
      (Null_pointer, ''Invalid use of null pointer''),
      (No_prepare_stmt, ''Statement not prepared''),
      (Params_not_bound, ''No data supplied for parameters in prepared statement''),
      (Data_truncated, ''Data truncated''),
      (No_parameters_exists, ''No parameters exist in the statement''),
      (Invalid_parameter_no, ''Invalid parameter number''),
      (Invalid_buffer_use, ''Can't send long data for non-string/non-binary data types''),
      (Unsupported_param_type, ''Using unsupported buffer type''),
      (Shared_memory_connection, ''Shared memory connection failed''),
      (Shared_memory_connect_request_error, ''Can't open shared memory; client could not create request event''),
      (Shared_memory_connect_answer_error, ''Can't open shared memory; no answer event received from server''),
      (Shared_memory_connect_file_map_error, ''Can't open shared memory; server could not allocate file mapping''),
      (Shared_memory_connect_map_error, ''Can't open shared memory; server could not get pointer to file mapping''),
      (Shared_memory_file_map_error, ''Can't open shared memory; client could not allocate file mapping''),
      (Shared_memory_map_error, ''Can't open shared memory; client could not get pointer to file mapping''),
      (Shared_memory_event_error, ''Can't open shared memory; client could not create event''),
      (Shared_memory_connect_abandoned_error, ''Can't open shared memory; no answer from server''),
      (Shared_memory_connect_set_error, ''Can't open shared memory; cannot send request event to server''),
      (Conn_unknow_protocol, ''Wrong or unknown protocol''),
      (Invalid_conn_handle, ''Invalid connection handle''),
      (Secure_auth, ''Connection using old (pre-4.1.1) authentication protocol refused (client option 'secure_auth' enabled)''),
      (Fetch_canceled, ''Row retrieval was canceled by mysql_stmt_close() call''),
      (No_data, ''Attempt to read column without prior row fetch''),
      (No_stmt_metadata, ''Prepared statement contains no metadata''),
      (No_result_set, ''Attempt to read a row while there is no result set associated with the statement''),
      (Not_implemented, ''This feature is not implemented yet'')]"

definition client_text :: "client_errors \<Rightarrow> string" where
  "client_text e = (case map_of client_switch e of Some t \<Rightarrow> t | None \<Rightarrow> ''Unknown error'')"

text \<open>Both enumerations are finite types with the declaration order of the source.\<close>

instantiation client_errors :: enum
begin

definition enum_client_errors :: "client_errors list" where
  "enum_client_errors = all_client_errors"

definition enum_all_client_errors :: "(client_errors \<Rightarrow> bool) \<Rightarrow> bool" where
  "enum_all_client_errors P = list_all P all_client_errors"

definition enum_ex_client_errors :: "(client_errors \<Rightarrow> bool) \<Rightarrow> bool" where
  "enum_ex_client_errors P = list_ex P all_client_errors"

instance
proof
  show univ: "(UNIV :: client_errors set) = set enum_class.enum"
  proof (rule set_eqI)
    fix e :: client_errors
    show "e \<in> UNIV \<longleftrightarrow> e \<in> set enum_class.enum"
      by (cases e) (simp_all add: enum_client_errors_def all_client_errors_def)
  qed
  show "distinct (enum_class.enum :: client_errors list)"
    by (simp add: enum_client_errors_def all_client_errors_def)
  show "enum_class.enum_all P \<longleftrightarrow> Ball UNIV P" for P :: "client_errors \<Rightarrow> bool"
    unfolding univ by (simp add: enum_all_client_errors_def enum_client_errors_def list_all_iff)
  show "enum_class.enum_ex P \<longleftrightarrow> Bex UNIV P" for P :: "client_errors \<Rightarrow> bool"
    unfolding univ by (simp add: enum_ex_client_errors_def enum_client_errors_def list_ex_iff)
qed

end

section \<open>The headers of the client library\<close>

text \<open>
  One field per macro the source uses.  \<open>operation_aborted_value\<close> is the value of
  \<open>asio::error::operation_aborted\<close>, an error of the system category.
\<close>

record mysql_headers =
  CR :: "client_errors \<Rightarrow> i32"
  MYSQL_SECURE_AUTH :: i32
  CLIENT_MULTI_RESULTS :: i32
  CLIENT_MULTI_STATEMENTS :: i32
  NOT_NULL_FLAG :: u32
  PRI_KEY_FLAG :: u32
  UNIQUE_KEY_FLAG :: u32
  MULTIPLE_KEY_FLAG :: u32
  UNSIGNED_FLAG :: u32
  ZEROFILL_FLAG :: u32
  BINARY_FLAG :: u32
  AUTO_INCREMENT_FLAG :: u32
  NO_DEFAULT_VALUE_FLAG :: u32
  MYSQL_WAIT_READ :: i32
  MYSQL_WAIT_WRITE :: i32
  MYSQL_WAIT_EXCEPT :: i32
  MYSQL_WAIT_TIMEOUT :: i32
  MYSQL_OPT_NONBLOCK :: i32
  operation_aborted_value :: i32

section \<open>Values, codes and categories\<close>

text \<open>
  The enumerator \<open>secure_auth\<close> is initialised with \<open>MYSQL_SECURE_AUTH\<close>, a connection
  option, where every other enumerator takes the \<open>CR_\<close> macro of its name.
\<close>

definition client_error_value :: "'h mysql_headers_scheme \<Rightarrow> client_errors \<Rightarrow> i32" where
  "client_error_value H e = (if e = Secure_auth then MYSQL_SECURE_AUTH H else CR H e)"

fun misc_error_value :: "misc_errors \<Rightarrow> i32" where
  "misc_error_value Initialization_error = 1"
| "misc_error_value Not_initialized = 2"
| "misc_error_value No_more_results = 3"
| "misc_error_value Null_field_value = 4"
| "misc_error_value Autocommit_setting_error = 5"
| "misc_error_value Commit_error = 6"
| "misc_error_value Rollback_error = 7"
| "misc_error_value Unknown_misc = 8"

datatype error_category = Client_category | Misc_category | System_category

datatype error_code = Error_code (ec_value: i32) (ec_category: error_category)

text \<open>A default constructed error code, and the conversion to \<open>bool\<close>.\<close>

definition no_error :: error_code where
  "no_error = Error_code 0 System_category"

definition failed :: "error_code \<Rightarrow> bool" where
  "failed ec \<longleftrightarrow> ec_value ec \<noteq> 0"

definition client_error_code :: "'h mysql_headers_scheme \<Rightarrow> client_errors \<Rightarrow> error_code" where
  "client_error_code H e = Error_code (client_error_value H e) Client_category"

definition misc_error_code :: "misc_errors \<Rightarrow> error_code" where
  "misc_error_code e = Error_code (misc_error_value e) Misc_category"

definition operation_aborted :: "'h mysql_headers_scheme \<Rightarrow> error_code" where
  "operation_aborted H = Error_code (operation_aborted_value H) System_category"

section \<open>Messages\<close>

fun category_name :: "error_category \<Rightarrow> string" where
  "category_name Client_category = ''mysql''"
| "category_name Misc_category = ''mysql misc''"
| "category_name System_category = ''system''"

text \<open>
  The \<open>switch\<close> of \<open>client_category::message\<close>: the text of the label that equals the
  value, \<open>Unknown error\<close> otherwise.
\<close>

definition client_message :: "'h mysql_headers_scheme \<Rightarrow> i32 \<Rightarrow> string" where
  "client_message H v =
     (case find (\<lambda>(e, t). client_error_value H e = v) client_switch of
        Some (e, t) \<Rightarrow> t
      | None \<Rightarrow> ''Unknown error'')"

definition misc_messages :: "string list" where
  "misc_messages =
     ['''',
      ''Failed to initialize MySQL handle'',
      ''Connection handle not initialized'',
      ''No more result sets'',
      ''Field value is NULL'',
      ''Failed to set autocommit mode'',
      ''Failed to commit'',
      ''Failed to rollback'',
      ''Unknown error'']"

text \<open>
  \<open>misc_category::message\<close>.  The guard compares with \<open>unknown_error\<close>, the first
  enumerator of \<open>client_errors\<close>, and not with \<open>unknown\<close>; \<open>None\<close> is the read beyond the
  end of the table.
\<close>

definition misc_message :: "'h mysql_headers_scheme \<Rightarrow> i32 \<Rightarrow> string option" where
  "misc_message H v =
     (if sint v < 0 \<or> sint (client_error_value H Unknown_error) \<le> sint v
      then Some (misc_messages ! unat (misc_error_value Unknown_misc))
      else if unat v < length misc_messages then Some (misc_messages ! unat v) else None)"

text \<open>
  \<open>error_code::message\<close>; the texts of the system category belong to the standard library
  and are a parameter.
\<close>

fun ec_message ::
  "'h mysql_headers_scheme \<Rightarrow> (i32 \<Rightarrow> string) \<Rightarrow> error_code \<Rightarrow> string option" where
  "ec_message H sys (Error_code v Client_category) = Some (client_message H v)"
| "ec_message H sys (Error_code v Misc_category) = misc_message H v"
| "ec_message H sys (Error_code v System_category) = Some (sys v)"

section \<open>The exception\<close>

text \<open>\<open>amy::system_error\<close>: the code, and the text that \<open>what\<close> returns.\<close>

datatype system_error = System_error (se_code: error_code) (se_message: string)

definition system_error_of :: "error_code \<Rightarrow> system_error" where
  "system_error_of ec = System_error ec ''''"

definition what :: "system_error \<Rightarrow> char_ptr" where
  "what e = c_str (se_message e)"

text \<open>
  \<open>throw_error\<close>; the last argument is the text \<open>mysql_error\<close> returns for the handle.
\<close>

definition throw_error :: "error_code \<Rightarrow> string \<Rightarrow> system_error + unit" where
  "throw_error ec mysql_error_text =
     (if failed ec
      then if ec_category ec = Client_category
           then Inl (System_error ec mysql_error_text)
           else Inl (system_error_of ec)
      else Inr ())"

section \<open>The tables are complete\<close>

lemma set_all_client_errors [simp]: "set all_client_errors = UNIV"
  using UNIV_enum [where 'a = client_errors] by (simp add: enum_client_errors_def)

lemma distinct_all_client_errors [simp]: "distinct all_client_errors"
  using enum_distinct [where 'a = client_errors] by (simp add: enum_client_errors_def)

lemma client_switch_labels: "map fst client_switch = all_client_errors"
  by (simp add: client_switch_def all_client_errors_def)

text \<open>
  A repeated label of a \<open>switch\<close> does not compile, so the values of the enumerators are
  distinct in every build.
\<close>

definition labels_distinct :: "'h mysql_headers_scheme \<Rightarrow> bool" where
  "labels_distinct H \<longleftrightarrow> distinct (map (client_error_value H) all_client_errors)"

text \<open>The values of the headers of MySQL 5.6 (and of the MariaDB connector for the last two).\<close>

definition client_error_position :: "client_errors \<Rightarrow> nat" where
  "client_error_position e = length (takeWhile (\<lambda>x. x \<noteq> e) all_client_errors)"

definition headers_5_6 :: mysql_headers where
  "headers_5_6 =
     \<lparr>CR = (\<lambda>e. 2000 + of_nat (client_error_position e)),
      MYSQL_SECURE_AUTH = 18,
      CLIENT_MULTI_RESULTS = 131072, CLIENT_MULTI_STATEMENTS = 65536,
      NOT_NULL_FLAG = 1, PRI_KEY_FLAG = 2, UNIQUE_KEY_FLAG = 4, MULTIPLE_KEY_FLAG = 8,
      UNSIGNED_FLAG = 32, ZEROFILL_FLAG = 64, BINARY_FLAG = 128, AUTO_INCREMENT_FLAG = 512,
      NO_DEFAULT_VALUE_FLAG = 4096,
      MYSQL_WAIT_READ = 1, MYSQL_WAIT_WRITE = 2, MYSQL_WAIT_EXCEPT = 4, MYSQL_WAIT_TIMEOUT = 8,
      MYSQL_OPT_NONBLOCK = 6000,
      operation_aborted_value = 125\<rparr>"

lemma labels_distinct_5_6: "labels_distinct headers_5_6"
  by code_simp

section \<open>Message lookup\<close>

lemma find_switch:
  assumes "distinct (map (\<lambda>p. f (fst p)) ps)" and "(e, t) \<in> set ps"
  shows "find (\<lambda>(x, _). f x = f e) ps = Some (e, t)"
proof -
  have "find (\<lambda>p. f (fst p) = f (fst (e, t))) ps = Some (e, t)"
    using assms by (intro find_Some_unique [where f = "\<lambda>p. f (fst p)", simplified]) auto
  then show ?thesis by (simp add: case_prod_unfold)
qed

lemma client_switch_mem: "(e, client_text e) \<in> set client_switch"
proof -
  have "e \<in> fst ` set client_switch"
    by (metis client_switch_labels image_set set_all_client_errors UNIV_I)
  then obtain t where t: "map_of client_switch e = Some t"
    by (metis map_of_eq_None_iff not_None_eq)
  then show ?thesis by (simp add: client_text_def map_of_SomeD)
qed

lemma client_message_label:
  assumes "labels_distinct H"
  shows "client_message H (client_error_value H e) = client_text e"
proof -
  have "map (\<lambda>p. client_error_value H (fst p)) client_switch
      = map (client_error_value H) all_client_errors"
    by (simp flip: client_switch_labels)
  with assms have "distinct (map (\<lambda>p. client_error_value H (fst p)) client_switch)"
    by (simp add: labels_distinct_def)
  from find_switch [OF this client_switch_mem] show ?thesis
    by (simp add: client_message_def)
qed

lemma client_message_default:
  assumes "v \<notin> range (client_error_value H)"
  shows "client_message H v = ''Unknown error''"
proof -
  have "find (\<lambda>(e, t). client_error_value H e = v) client_switch = None"
    using assms by (auto simp: find_None_iff)
  then show ?thesis by (simp add: client_message_def)
qed

lemma failed_misc [simp]: "failed (misc_error_code e)"
  by (cases e) (simp_all add: failed_def misc_error_code_def)

lemma not_failed_no_error [simp]: "\<not> failed no_error"
  by (simp add: failed_def no_error_def)

section \<open>Properties\<close>

text \<open>
  The client category is complete and exact: under the compile-time condition that the
  case labels are distinct, the message of each of the 55 enumerators is the text of its
  own case, and every other value gives \<open>Unknown error\<close>.
\<close>

theorem client_message_exact:
  assumes "labels_distinct H"
  shows "client_message H v = t \<longleftrightarrow>
           (\<exists>e. v = client_error_value H e \<and> t = client_text e) \<or>
           (v \<notin> range (client_error_value H) \<and> t = ''Unknown error'')"
  using client_message_label [OF assms] client_message_default [of v H] by auto

theorem client_message_exact_witness:
  "client_message headers_5_6 2006 = ''MySQL server has gone away''"
proof -
  have "2006 = client_error_value headers_5_6 Server_gone_error
      \<and> ''MySQL server has gone away'' = client_text Server_gone_error"
    by code_simp
  then show ?thesis
    using client_message_exact [OF labels_distinct_5_6] by blast
qed

text \<open>
  C40. The message table of the misc category is read out of bounds exactly for the values
  from 9 up to, but not including, the value of the client error \<open>unknown_error\<close> (2000 in
  the MySQL headers): the guard was meant to compare with \<open>unknown\<close>.
\<close>

theorem misc_message_out_of_bounds:
  "misc_message H v = None \<longleftrightarrow>
     9 \<le> sint v \<and> sint v < sint (client_error_value H Unknown_error)"
proof (cases "sint v < 0")
  case True
  then show ?thesis by (simp add: misc_message_def)
next
  case False
  then have "unat v < length misc_messages \<longleftrightarrow> sint v < 9"
    by (simp add: misc_messages_def unat_eq_nat_uint uint_nonneg_sint nat_less_iff)
  then show ?thesis
    using False by (auto simp: misc_message_def)
qed

text \<open>
  Every enumerator of the misc category has its text, as long as the client error
  values start above them.
\<close>

theorem misc_message_enumerators:
  assumes "8 < sint (client_error_value H Unknown_error)"
  shows "misc_message H (misc_error_value e) =
    Some (case e of
        Initialization_error \<Rightarrow> ''Failed to initialize MySQL handle''
      | Not_initialized \<Rightarrow> ''Connection handle not initialized''
      | No_more_results \<Rightarrow> ''No more result sets''
      | Null_field_value \<Rightarrow> ''Field value is NULL''
      | Autocommit_setting_error \<Rightarrow> ''Failed to set autocommit mode''
      | Commit_error \<Rightarrow> ''Failed to commit''
      | Rollback_error \<Rightarrow> ''Failed to rollback''
      | Unknown_misc \<Rightarrow> ''Unknown error'')"
  using assms by (cases e) (simp_all add: misc_message_def misc_messages_def)

theorem misc_message_enumerators_witness:
  "misc_message headers_5_6 (misc_error_value Commit_error) = Some ''Failed to commit''"
proof -
  have "8 < sint (client_error_value headers_5_6 Unknown_error)"
    by code_simp
  from misc_message_enumerators [OF this, of Commit_error] show ?thesis by simp
qed

end
