(* ===== verification/Client_Lib.thy ===== *)
theory Client_Lib
  imports Errors
begin

text \<open>
  The MySQL C client library as a parameter, and \<open>include/amy/detail/mysql_ops.hpp\<close>, the
  layer of Amy around it.

  The library is not part of the repository.  The record \<open>mysql_api\<close> has one function per
  library routine that Amy calls; the type \<open>'m\<close> stands for the contents of a \<open>MYSQL\<close>
  structure together with everything the library keeps behind it (the socket, the server,
  the result sets handed out).  A routine that may change that state returns it.  A result
  set handle \<open>MYSQL_RES*\<close> is an address, \<open>None\<close> when it is null; a \<open>MYSQL_ROW\<close> is the
  array of its column pointers.  Nothing is assumed of these functions here; a property
  that relies on the documented behaviour of a routine says so in a hypothesis.
\<close>

type_synonym res_ptr = nat

type_synonym mysql_row = "char_ptr list"

record mysql_field =
  fld_name :: string
  fld_name_length :: u32
  fld_length :: u64
  fld_max_length :: u64
  fld_flags :: u32

record 'm mysql_api = mysql_headers +
  c_mysql_errno :: "'m \<Rightarrow> u32"
  c_mysql_error :: "'m \<Rightarrow> string"
  c_mysql_init :: "'m \<Rightarrow> 'm \<times> bool"
  c_mysql_close :: "'m \<Rightarrow> 'm"
  c_mysql_options :: "'m \<Rightarrow> i32 \<Rightarrow> char_ptr \<Rightarrow> 'm \<times> i32"
  c_mysql_real_connect ::
    "'m \<Rightarrow> char_ptr \<Rightarrow> char_ptr \<Rightarrow> char_ptr \<Rightarrow> char_ptr \<Rightarrow> u32 \<Rightarrow> char_ptr \<Rightarrow> u64 \<Rightarrow> 'm \<times> bool"
  c_mysql_real_query :: "'m \<Rightarrow> char_ptr \<Rightarrow> u64 \<Rightarrow> 'm \<times> i32"
  c_mysql_field_count :: "'m \<Rightarrow> u32"
  c_mysql_affected_rows :: "'m \<Rightarrow> u64"
  c_mysql_store_result :: "'m \<Rightarrow> 'm \<times> res_ptr option"
  c_mysql_more_results :: "'m \<Rightarrow> bool"
  c_mysql_next_result :: "'m \<Rightarrow> 'm \<times> i32"
  c_mysql_free_result :: "'m \<Rightarrow> res_ptr \<Rightarrow> 'm"
  c_mysql_num_rows :: "'m \<Rightarrow> res_ptr \<Rightarrow> u64"
  c_mysql_num_fields :: "'m \<Rightarrow> res_ptr \<Rightarrow> u32"
  c_mysql_fetch_field :: "'m \<Rightarrow> res_ptr \<Rightarrow> 'm \<times> mysql_field option"
  c_mysql_fetch_row :: "'m \<Rightarrow> res_ptr \<Rightarrow> 'm \<times> mysql_row option"
  c_mysql_fetch_lengths :: "'m \<Rightarrow> res_ptr \<Rightarrow> u64 list"
  c_mysql_autocommit :: "'m \<Rightarrow> bool \<Rightarrow> 'm \<times> bool"
  c_mysql_commit :: "'m \<Rightarrow> 'm \<times> bool"
  c_mysql_rollback :: "'m \<Rightarrow> 'm \<times> bool"

text \<open>
  The routines that return a \<open>MYSQL*\<close> (\<open>mysql_init\<close>, \<open>mysql_real_connect\<close>) return their
  argument or null: the \<open>bool\<close> says that the result is not null.  The \<open>bool\<close> returned by
  \<open>mysql_autocommit\<close>, \<open>mysql_commit\<close> and \<open>mysql_rollback\<close> is the \<open>my_bool\<close> of the
  library, true on failure.
\<close>

section \<open>Errors of the library\<close>

text \<open>
  \<open>clear_error\<close> also zeroes the C variable \<open>errno\<close>, which nothing in the repository reads.
\<close>

definition clear_error :: "error_code \<Rightarrow> error_code" where
  "clear_error ec = no_error"

definition last_client_error :: "('m, 'a) mysql_api_scheme \<Rightarrow> 'm \<Rightarrow> error_code" where
  "last_client_error A m = Error_code (c_mysql_errno A m) Client_category"

text \<open>The two overloads of \<open>error_wrapper\<close>; both return their first argument unchanged.\<close>

definition error_wrapper_ptr ::
  "('m, 'a) mysql_api_scheme \<Rightarrow> bool \<Rightarrow> 'm \<Rightarrow> error_code \<Rightarrow> error_code" where
  "error_wrapper_ptr A is_null m ec = (if is_null then last_client_error A m else ec)"

definition error_wrapper_int ::
  "('m, 'a) mysql_api_scheme \<Rightarrow> i32 \<Rightarrow> 'm \<Rightarrow> error_code \<Rightarrow> error_code" where
  "error_wrapper_int A return_value m ec =
     (if return_value \<noteq> 0 then last_client_error A m else ec)"

section \<open>The wrapped routines\<close>

definition mysql_init ::
  "('m, 'a) mysql_api_scheme \<Rightarrow> 'm \<Rightarrow> error_code \<Rightarrow> 'm \<times> bool \<times> error_code" where
  "mysql_init A m ec =
     (let ec0 = clear_error ec; (m', ok) = c_mysql_init A m
      in (m', ok, if ok then ec0 else misc_error_code Initialization_error))"

definition mysql_autocommit ::
  "('m, 'a) mysql_api_scheme \<Rightarrow> 'm \<Rightarrow> bool \<Rightarrow> error_code \<Rightarrow> 'm \<times> error_code" where
  "mysql_autocommit A m mode ec =
     (let ec0 = clear_error ec; (m', bad) = c_mysql_autocommit A m mode
      in (m', if bad then misc_error_code Autocommit_setting_error else ec0))"

definition mysql_real_connect ::
  "('m, 'a) mysql_api_scheme \<Rightarrow> 'm \<Rightarrow> char_ptr \<Rightarrow> char_ptr \<Rightarrow> char_ptr \<Rightarrow> char_ptr \<Rightarrow> u32 \<Rightarrow>
     char_ptr \<Rightarrow> u64 \<Rightarrow> error_code \<Rightarrow> 'm \<times> bool \<times> error_code" where
  "mysql_real_connect A m host user password database port unix_socket client_flag ec =
     (let ec0 = clear_error ec;
          (m', ok) = c_mysql_real_connect A m host user password database port unix_socket
                       client_flag
      in (m', ok, error_wrapper_ptr A (\<not> ok) m' ec0))"

definition mysql_real_query ::
  "('m, 'a) mysql_api_scheme \<Rightarrow> 'm \<Rightarrow> char_ptr \<Rightarrow> u64 \<Rightarrow> error_code \<Rightarrow> 'm \<times> i32 \<times> error_code" where
  "mysql_real_query A m stmt_str len ec =
     (let ec0 = clear_error ec; (m', r) = c_mysql_real_query A m stmt_str len
      in (m', r, error_wrapper_int A r m' ec0))"

definition mysql_field_count :: "('m, 'a) mysql_api_scheme \<Rightarrow> 'm \<Rightarrow> u32" where
  "mysql_field_count A m = c_mysql_field_count A m"

definition mysql_store_result ::
  "('m, 'a) mysql_api_scheme \<Rightarrow> 'm \<Rightarrow> error_code \<Rightarrow> 'm \<times> res_ptr option \<times> error_code" where
  "mysql_store_result A m ec =
     (let ec0 = clear_error ec; (m', r) = c_mysql_store_result A m
      in (m', r, error_wrapper_ptr A (r = None) m' ec0))"

definition mysql_more_results :: "('m, 'a) mysql_api_scheme \<Rightarrow> 'm \<Rightarrow> bool" where
  "mysql_more_results A m = c_mysql_more_results A m"

definition mysql_next_result ::
  "('m, 'a) mysql_api_scheme \<Rightarrow> 'm \<Rightarrow> error_code \<Rightarrow> 'm \<times> i32 \<times> error_code" where
  "mysql_next_result A m ec =
     (let ec0 = clear_error ec; (m', r) = c_mysql_next_result A m
      in (m', r, error_wrapper_int A r m' ec0))"

definition mysql_fetch_row ::
  "('m, 'a) mysql_api_scheme \<Rightarrow> 'm \<Rightarrow> res_ptr \<Rightarrow> error_code \<Rightarrow>
     'm \<times> mysql_row option \<times> error_code" where
  "mysql_fetch_row A m r ec =
     (let ec0 = clear_error ec; (m', row) = c_mysql_fetch_row A m r
      in (m', row, error_wrapper_ptr A (row = None) m' ec0))"

definition mysql_commit ::
  "('m, 'a) mysql_api_scheme \<Rightarrow> 'm \<Rightarrow> error_code \<Rightarrow> 'm \<times> error_code" where
  "mysql_commit A m ec =
     (let ec0 = clear_error ec; (m', bad) = c_mysql_commit A m
      in (m', if bad then misc_error_code Commit_error else ec0))"

definition mysql_rollback ::
  "('m, 'a) mysql_api_scheme \<Rightarrow> 'm \<Rightarrow> error_code \<Rightarrow> 'm \<times> error_code" where
  "mysql_rollback A m ec =
     (let ec0 = clear_error ec; (m', bad) = c_mysql_rollback A m
      in (m', if bad then misc_error_code Rollback_error else ec0))"

definition mysql_options ::
  "('m, 'a) mysql_api_scheme \<Rightarrow> 'm \<Rightarrow> i32 \<Rightarrow> char_ptr \<Rightarrow> error_code \<Rightarrow> 'm \<times> error_code" where
  "mysql_options A m option arg ec =
     (let ec0 = clear_error ec; (m', r) = c_mysql_options A m option arg
      in (m', error_wrapper_int A r m' ec0))"

lemmas op_defs =
  mysql_init_def mysql_autocommit_def mysql_real_connect_def mysql_real_query_def
  mysql_store_result_def mysql_next_result_def mysql_fetch_row_def mysql_commit_def
  mysql_rollback_def mysql_options_def clear_error_def

section \<open>When a wrapped routine reports an error\<close>

lemma failed_last_client_error [simp]:
  "failed (last_client_error A m) \<longleftrightarrow> c_mysql_errno A m \<noteq> 0"
  by (simp add: failed_def last_client_error_def)

lemma failed_error_wrapper_ptr:
  "failed (error_wrapper_ptr A n m ec) \<longleftrightarrow> (if n then c_mysql_errno A m \<noteq> 0 else failed ec)"
  by (simp add: error_wrapper_ptr_def)

lemma failed_error_wrapper_int:
  "failed (error_wrapper_int A r m ec) \<longleftrightarrow>
     (if r \<noteq> 0 then c_mysql_errno A m \<noteq> 0 else failed ec)"
  by (simp add: error_wrapper_int_def)

lemmas failed_wrappers = failed_error_wrapper_ptr failed_error_wrapper_int

text \<open>
  The routines forget the error code they are given: each begins with \<open>clear_error\<close>.
\<close>

lemma ops_ignore_ec:
  "mysql_init A m ec = mysql_init A m ec'"
  "mysql_autocommit A m mode ec = mysql_autocommit A m mode ec'"
  "mysql_real_query A m stmt len ec = mysql_real_query A m stmt len ec'"
  "mysql_store_result A m ec = mysql_store_result A m ec'"
  "mysql_next_result A m ec = mysql_next_result A m ec'"
  "mysql_fetch_row A m r ec = mysql_fetch_row A m r ec'"
  "mysql_commit A m ec = mysql_commit A m ec'"
  "mysql_rollback A m ec = mysql_rollback A m ec'"
  "mysql_options A m opt arg ec = mysql_options A m opt arg ec'"
  by (simp_all add: op_defs)

end
