(* ===== verification/Connection_Args.thy ===== *)
theory Connection_Args
  imports Client_Lib
begin

text \<open>
  What a caller passes to a connection: credentials (\<open>auth_info.hpp\<close>), the endpoint
  (\<open>endpoint_traits.hpp\<close>), the client flags (\<open>client_flags.hpp\<close>,
  \<open>detail/mysql_types.hpp\<close>) and the connection options (\<open>detail/mysql_option.hpp\<close>,
  \<open>options.hpp\<close>, \<open>mariadb_options.hpp\<close>).
\<close>

section \<open>Credentials\<close>

text \<open>The password is held by a \<open>unique_ptr\<close>: \<open>None\<close> when it is not set.\<close>

record auth_info =
  auth_user :: string
  auth_password :: "string option"

definition auth_info_default :: auth_info where
  "auth_info_default = \<lparr>auth_user = '''', auth_password = None\<rparr>"

definition auth_info_user :: "string \<Rightarrow> auth_info" where
  "auth_info_user u = \<lparr>auth_user = u, auth_password = None\<rparr>"

definition auth_info_user_password :: "string \<Rightarrow> string \<Rightarrow> auth_info" where
  "auth_info_user_password u p = \<lparr>auth_user = u, auth_password = Some p\<rparr>"

definition user :: "auth_info \<Rightarrow> char_ptr" where
  "user a = c_str (auth_user a)"

definition password :: "auth_info \<Rightarrow> char_ptr" where
  "password a = (case auth_password a of Some p \<Rightarrow> c_str p | None \<Rightarrow> None)"

definition set_user :: "string \<Rightarrow> auth_info \<Rightarrow> auth_info" where
  "set_user u a = a\<lparr>auth_user := u\<rparr>"

definition set_password :: "string \<Rightarrow> auth_info \<Rightarrow> auth_info" where
  "set_password p a = a\<lparr>auth_password := Some p\<rparr>"

definition clear_password :: "auth_info \<Rightarrow> auth_info" where
  "clear_password a = a\<lparr>auth_password := None\<rparr>"

text \<open>
  The copy constructor goes through the \<open>char const*\<close> accessors, so it copies each
  string up to its first NUL.  \<open>user()\<close> is never null.
\<close>

definition auth_info_copy :: "auth_info \<Rightarrow> auth_info" where
  "auth_info_copy that =
     \<lparr>auth_user = (case user that of Some bs \<Rightarrow> c_str_of bs | None \<Rightarrow> ''''),
      auth_password = (case password that of Some bs \<Rightarrow> Some (c_str_of bs) | None \<Rightarrow> None)\<rparr>"

text \<open>What the library reads of the credentials it is given.\<close>

definition credentials_seen :: "auth_info \<Rightarrow> string option \<times> string option" where
  "credentials_seen a = (map_option c_str_of (user a), map_option c_str_of (password a))"

lemmas auth_defs =
  auth_info_default_def auth_info_user_def auth_info_user_password_def user_def password_def
  set_user_def set_password_def clear_password_def auth_info_copy_def c_str_def

lemma auth_info_copy_eq:
  "auth_info_copy a =
     \<lparr>auth_user = c_str_of (auth_user a), auth_password = map_option c_str_of (auth_password a)\<rparr>"
  by (cases "auth_password a") (simp_all add: auth_defs)

text \<open>
  Copying credentials (each asynchronous connect copies them several times) never
  changes what the library is shown, the difference between no password and an empty
  password included, and a second copy is the same as the first.
\<close>

theorem auth_info_copy_seen:
  "credentials_seen (auth_info_copy a) = credentials_seen a \<and>
   (password (auth_info_copy a) = None \<longleftrightarrow> auth_password a = None) \<and>
   auth_info_copy (auth_info_copy a) = auth_info_copy a"
  by (cases "auth_password a")
     (simp_all add: auth_info_copy_eq credentials_seen_def user_def password_def c_str_def)

text \<open>
  A copy is equal to its original exactly when neither string holds a NUL: an
  \<open>std::string\<close> with one is cut at it.
\<close>

lemma c_str_of_eq_self_iff: "c_str_of s = s \<longleftrightarrow> nul_free s"
  by (metis c_str_of_nul_free nul_free_c_str_of)

lemma auth_info_copy_eq_self_iff:
  "auth_info_copy a = a \<longleftrightarrow> nul_free (auth_user a) \<and> pred_option nul_free (auth_password a)"
proof -
  have "auth_info_copy a = a \<longleftrightarrow>
      c_str_of (auth_user a) = auth_user a \<and> map_option c_str_of (auth_password a) = auth_password a"
    by (cases a) (simp add: auth_info_copy_eq)
  then show ?thesis
    by (cases "auth_password a") (simp_all add: c_str_of_eq_self_iff)
qed

section \<open>Endpoints\<close>

text \<open>
  The three endpoint types for which \<open>endpoint_traits\<close> is specialised.  A TCP endpoint
  is given by the text of its address and its port, a local one by its path.
\<close>

datatype endpoint = Null_endpoint | Tcp_endpoint string u16 | Local_endpoint string

fun ep_host :: "endpoint \<Rightarrow> char_ptr" where
  "ep_host Null_endpoint = None"
| "ep_host (Tcp_endpoint address port) = c_str address"
| "ep_host (Local_endpoint path) = None"

fun ep_port :: "endpoint \<Rightarrow> u32" where
  "ep_port Null_endpoint = 0"
| "ep_port (Tcp_endpoint address port) = ucast port"
| "ep_port (Local_endpoint path) = 0"

fun ep_unix_socket :: "endpoint \<Rightarrow> char_ptr" where
  "ep_unix_socket Null_endpoint = None"
| "ep_unix_socket (Tcp_endpoint address port) = None"
| "ep_unix_socket (Local_endpoint path) = c_str path"

section \<open>Client flags\<close>

text \<open>The flags are \<open>const int\<close> in \<open>detail\<close> and \<open>unsigned long\<close> in the interface.\<close>

definition client_multi_results :: "'h mysql_headers_scheme \<Rightarrow> u64" where
  "client_multi_results H = scast (CLIENT_MULTI_RESULTS H)"

definition client_multi_statements :: "'h mysql_headers_scheme \<Rightarrow> u64" where
  "client_multi_statements H = scast (CLIENT_MULTI_STATEMENTS H)"

definition default_flags :: u64 where
  "default_flags = 0"

text \<open>The test at the head of \<open>has_more_results\<close>.\<close>

definition multi_results_enabled :: "'h mysql_headers_scheme \<Rightarrow> u64 \<Rightarrow> bool" where
  "multi_results_enabled H fl \<longleftrightarrow>
     fl AND (client_multi_results H OR client_multi_statements H) \<noteq> 0"

lemma multi_results_enabled_iff:
  "multi_results_enabled H fl \<longleftrightarrow>
     fl AND client_multi_results H \<noteq> 0 \<or> fl AND client_multi_statements H \<noteq> 0"
  by (simp add: multi_results_enabled_def bit.conj_disj_distrib or_eq_0_iff)

lemma not_multi_results_default [simp]: "\<not> multi_results_enabled H default_flags"
  by (simp add: multi_results_enabled_def default_flags_def)

section \<open>Connection options\<close>

text \<open>
  The four option templates; the first field is the template argument \<open>Option\<close>.
  \<open>unsigned_integer\<close> has two instances, over \<open>unsigned int\<close> and over \<open>std::size_t\<close>.
\<close>

datatype mysql_option =
    Unsigned_integer i32 u32
  | Size_integer i32 u64
  | Char_sequence i32 string
  | Boolean i32 u8
  | Switcher i32

text \<open>Both instances of \<open>unsigned_integer\<close> are constructed from an \<open>unsigned int\<close>.\<close>

definition unsigned_integer :: "i32 \<Rightarrow> u32 \<Rightarrow> mysql_option" where
  "unsigned_integer opt v = Unsigned_integer opt v"

definition size_integer :: "i32 \<Rightarrow> u32 \<Rightarrow> mysql_option" where
  "size_integer opt v = Size_integer opt (ucast v)"

definition char_sequence :: "i32 \<Rightarrow> string \<Rightarrow> mysql_option" where
  "char_sequence opt s = Char_sequence opt s"

definition boolean :: "i32 \<Rightarrow> bool \<Rightarrow> mysql_option" where
  "boolean opt b = Boolean opt (if b then 1 else 0)"

definition switcher :: "i32 \<Rightarrow> mysql_option" where
  "switcher opt = Switcher opt"

text \<open>\<open>options::nonblock\<close> and \<open>options::nonblock_default\<close> of \<open>mariadb_options.hpp\<close>.\<close>

definition nonblock :: "'h mysql_headers_scheme \<Rightarrow> u32 \<Rightarrow> mysql_option" where
  "nonblock H v = size_integer (MYSQL_OPT_NONBLOCK H) v"

definition nonblock_default :: "'h mysql_headers_scheme \<Rightarrow> mysql_option" where
  "nonblock_default H = switcher (MYSQL_OPT_NONBLOCK H)"

text \<open>The bytes of an object of \<open>n\<close> bytes in memory, least significant first.\<close>

definition bytes_le :: "nat \<Rightarrow> 'a::len word \<Rightarrow> string" where
  "bytes_le n w = map (\<lambda>i. char_of (unat (drop_bit (8 * i) w) mod 256)) [0..<n]"

fun read_le :: "string \<Rightarrow> nat" where
  "read_le [] = 0"
| "read_le (c # cs) = of_char c + 256 * read_le cs"

fun option_number :: "mysql_option \<Rightarrow> i32" where
  "option_number (Unsigned_integer opt _) = opt"
| "option_number (Size_integer opt _) = opt"
| "option_number (Char_sequence opt _) = opt"
| "option_number (Boolean opt _) = opt"
| "option_number (Switcher opt) = opt"

fun option_data :: "mysql_option \<Rightarrow> char_ptr" where
  "option_data (Unsigned_integer _ v) = Some (bytes_le 4 v)"
| "option_data (Size_integer _ v) = Some (bytes_le 8 v)"
| "option_data (Char_sequence _ s) = c_str s"
| "option_data (Boolean _ v) = Some (bytes_le 1 v)"
| "option_data (Switcher _) = None"

lemma bytes_le_Suc: "bytes_le (Suc n) w = char_of (unat w mod 256) # bytes_le n (drop_bit 8 w)"
proof -
  have "[0..<Suc n] = 0 # map Suc [0..<n]"
    by (simp add: upt_conv_Cons map_Suc_upt)
  then show ?thesis
    by (simp add: bytes_le_def drop_bit_drop_bit add.commute)
qed

lemma read_le_bytes_le: "read_le (bytes_le n w) = unat w mod 256 ^ n"
proof (induction n arbitrary: w)
  case 0
  then show ?case by (simp add: bytes_le_def)
next
  case (Suc n)
  have "unat (drop_bit 8 w) = unat w div 256"
    using unat_drop_bit_eq [of 8 w] by (simp add: drop_bit_eq_div)
  then have "read_le (bytes_le (Suc n) w) = unat w mod 256 + 256 * (unat w div 256 mod 256 ^ n)"
    by (simp add: bytes_le_Suc Suc.IH)
  also have "\<dots> = unat w mod (256 * 256 ^ n)"
    by (simp add: mod_mult2_eq)
  finally show ?case by simp
qed

lemma size_integer_reads:
  "map_option read_le (option_data (size_integer opt v)) = Some (unat v)"
proof -
  have "unat v < 2 ^ 64"
    using unsigned_less [of v, where ?'a = nat] by simp
  then show ?thesis
    by (simp add: size_integer_def read_le_bytes_le unsigned_ucast_eq take_bit_eq_mod)
qed

text \<open>
  The library reads back, from the memory an integer option points to, the value the
  option was built from.
\<close>

theorem integer_option_roundtrip:
  "map_option read_le (option_data (unsigned_integer opt v)) = Some (unat v) \<and>
   map_option read_le (option_data (size_integer opt v)) = Some (unat v) \<and>
   map_option read_le (option_data (boolean opt b)) = Some (if b then 1 else 0)"
proof -
  have "unat v < 2 ^ 32"
    using unsigned_less [of v, where ?'a = nat] by simp
  then show ?thesis
    using size_integer_reads [of opt v]
    by (simp add: unsigned_integer_def boolean_def read_le_bytes_le)
qed

text \<open>
  A stack size of \<open>2 ^ 32\<close> bytes or more is cut to its low 32 bits on the way into
  \<open>options::nonblock\<close>, although the option itself holds a \<open>std::size_t\<close>.
\<close>

lemma nonblock_truncates:
  "map_option read_le (option_data (nonblock H (ucast (n :: u64)))) = Some (unat n mod 2 ^ 32)"
  unfolding nonblock_def size_integer_reads
  by (simp add: unsigned_ucast_eq take_bit_eq_mod)

end
