(* ===== verification/Connection_Options.thy ===== *)
theory Connection_Options
  imports Connection_Args
begin

text \<open>
  The table of connection options and client flags: the names of \<open>options.hpp\<close> and
  \<open>client_flags.hpp\<close>, and the constants of \<open>detail/mysql_types.hpp\<close> they stand for.  The numbers
  behind the constants of the client library come from its headers and are parameters.
\<close>

section \<open>Connection options\<close>

text \<open>The enumerators of the library that \<open>mysql_types.hpp\<close> uses.\<close>

datatype library_option =
    INIT_COMMAND | OPT_COMPRESS | OPT_CONNECT_TIMEOUT | OPT_GUESS_CONNECTION | OPT_LOCAL_INFILE
  | OPT_NAMED_PIPE | OPT_PROTOCOL | OPT_READ_TIMEOUT | OPT_RECONNECT | SET_CLIENT_IP
  | OPT_SSL_VERIFY_SERVER_CERT | OPT_USE_EMBEDDED_CONNECTION | OPT_USE_REMOTE_CONNECTION
  | OPT_USE_RESULT | OPT_WRITE_TIMEOUT | READ_DEFAULT_FILE | READ_DEFAULT_GROUP
  | REPORT_DATA_TRUNCATION | SECURE_AUTH | SET_CHARSET_DIR | SET_CHARSET_NAME
  | SHARED_MEMORY_BASE_NAME

text \<open>The names of Amy, in the order of \<open>options.hpp\<close>.\<close>

datatype option_name =
    Init_command | Compress | Connect_timeout | Guess_connection | Local_infile | Named_pipe
  | Protocol | Read_timeout | Reconnect | Set_client_ip | Ssl_verify_server_cert
  | Use_embedded_connection | Use_remote_connection | Use_result | Write_timeout
  | Read_default_file | Read_default_group | Report_data_truncation | Secure_auth
  | Set_charset_dir | Set_charset_name | Shared_memory_base_name

text \<open>\<open>detail::init_command\<close> and so on.\<close>

fun option_constant :: "option_name \<Rightarrow> library_option" where
  "option_constant Init_command = INIT_COMMAND"
| "option_constant Compress = OPT_COMPRESS"
| "option_constant Connect_timeout = OPT_CONNECT_TIMEOUT"
| "option_constant Guess_connection = OPT_GUESS_CONNECTION"
| "option_constant Local_infile = OPT_LOCAL_INFILE"
| "option_constant Named_pipe = OPT_NAMED_PIPE"
| "option_constant Protocol = OPT_PROTOCOL"
| "option_constant Read_timeout = OPT_READ_TIMEOUT"
| "option_constant Reconnect = OPT_RECONNECT"
| "option_constant Set_client_ip = SET_CLIENT_IP"
| "option_constant Ssl_verify_server_cert = OPT_SSL_VERIFY_SERVER_CERT"
| "option_constant Use_embedded_connection = OPT_USE_EMBEDDED_CONNECTION"
| "option_constant Use_remote_connection = OPT_USE_REMOTE_CONNECTION"
| "option_constant Use_result = OPT_USE_RESULT"
| "option_constant Write_timeout = OPT_WRITE_TIMEOUT"
| "option_constant Read_default_file = READ_DEFAULT_FILE"
| "option_constant Read_default_group = READ_DEFAULT_GROUP"
| "option_constant Report_data_truncation = REPORT_DATA_TRUNCATION"
| "option_constant Secure_auth = SECURE_AUTH"
| "option_constant Set_charset_dir = SET_CHARSET_DIR"
| "option_constant Set_charset_name = SET_CHARSET_NAME"
| "option_constant Shared_memory_base_name = SHARED_MEMORY_BASE_NAME"

text \<open>Which of the four class templates a name is an instance of.\<close>

datatype option_class = Unsigned_class | Text_class | Boolean_class | Switcher_class

fun class_of_option :: "option_name \<Rightarrow> option_class" where
  "class_of_option Init_command = Text_class"
| "class_of_option Compress = Switcher_class"
| "class_of_option Connect_timeout = Unsigned_class"
| "class_of_option Guess_connection = Switcher_class"
| "class_of_option Local_infile = Unsigned_class"
| "class_of_option Named_pipe = Switcher_class"
| "class_of_option Protocol = Unsigned_class"
| "class_of_option Read_timeout = Unsigned_class"
| "class_of_option Reconnect = Boolean_class"
| "class_of_option Set_client_ip = Text_class"
| "class_of_option Ssl_verify_server_cert = Boolean_class"
| "class_of_option Use_embedded_connection = Switcher_class"
| "class_of_option Use_remote_connection = Switcher_class"
| "class_of_option Use_result = Switcher_class"
| "class_of_option Write_timeout = Unsigned_class"
| "class_of_option Read_default_file = Text_class"
| "class_of_option Read_default_group = Text_class"
| "class_of_option Report_data_truncation = Boolean_class"
| "class_of_option Secure_auth = Boolean_class"
| "class_of_option Set_charset_dir = Text_class"
| "class_of_option Set_charset_name = Text_class"
| "class_of_option Shared_memory_base_name = Text_class"

text \<open>
  The argument of a constructor, \<open>No_value\<close> for the one without; a combination that the class
  does not have does not compile and is \<open>None\<close>.
\<close>

datatype option_value = No_value | Unsigned_value u32 | Text_value string | Boolean_value bool

fun construct_option :: "option_class \<Rightarrow> i32 \<Rightarrow> option_value \<Rightarrow> mysql_option option" where
  "construct_option Unsigned_class n No_value = Some (unsigned_integer n 0)"
| "construct_option Unsigned_class n (Unsigned_value v) = Some (unsigned_integer n v)"
| "construct_option Text_class n No_value = Some (char_sequence n [])"
| "construct_option Text_class n (Text_value s) = Some (char_sequence n s)"
| "construct_option Boolean_class n No_value = Some (boolean n False)"
| "construct_option Boolean_class n (Boolean_value b) = Some (boolean n b)"
| "construct_option Switcher_class n No_value = Some (switcher n)"
| "construct_option _ _ _ = None"

definition make_option ::
  "(library_option \<Rightarrow> i32) \<Rightarrow> option_name \<Rightarrow> option_value \<Rightarrow> mysql_option option" where
  "make_option number name v =
     construct_option (class_of_option name) (number (option_constant name)) v"

text \<open>
  What \<open>mysql_options\<close> makes of its data argument, which the manual of the library documents per
  option: an \<open>unsigned int\<close>, a C string, a \<open>my_bool\<close>, or nothing.
\<close>

fun library_reads :: "option_class \<Rightarrow> char_ptr \<Rightarrow> option_value option" where
  "library_reads Unsigned_class (Some bs) =
     (if 4 \<le> length bs then Some (Unsigned_value (of_nat (read_le (take 4 bs)))) else None)"
| "library_reads Text_class (Some bs) = Some (Text_value (c_str_of bs))"
| "library_reads Boolean_class (Some bs) =
     (case bs of [] \<Rightarrow> None | c # _ \<Rightarrow> Some (Boolean_value (c \<noteq> nul)))"
| "library_reads Switcher_class _ = Some No_value"
| "library_reads _ None = None"

text \<open>What a value means to the library; the constructors without argument have defaults.\<close>

fun option_meaning :: "option_class \<Rightarrow> option_value \<Rightarrow> option_value" where
  "option_meaning Unsigned_class No_value = Unsigned_value 0"
| "option_meaning Text_class No_value = Text_value []"
| "option_meaning Boolean_class No_value = Boolean_value False"
| "option_meaning Text_class (Text_value s) = Text_value (c_str_of s)"
| "option_meaning _ v = v"

lemma read_u32: "read_le (bytes_le 4 (v :: u32)) = unat v"
proof -
  have "unat v < 2 ^ 32" using unsigned_less [of v, where ?'a = nat] by simp
  then show ?thesis by (simp add: read_le_bytes_le)
qed

lemma c_str_of_nul [simp]: "c_str_of [nul] = []"
  using c_str_of_append_nul [of "[]" "[]"] by (simp add: c_str_of_def)

lemma boolean_byte: "bytes_le 1 (if b then 1 else 0 :: u8) = [if b then CHR 0x01 else nul]"
  by (cases b; simp only: if_True if_False; code_simp)

lemma boolean_data: "option_data (boolean n b) = Some [if b then CHR 0x01 else nul]"
  using boolean_byte [of b] by (simp add: boolean_def)

lemma bytes_le_4: "length (bytes_le 4 v) = 4"
  by (simp add: bytes_le_def)

lemma construct_option_number:
  "construct_option c n v = Some opt \<Longrightarrow> option_number opt = n"
  by (induction c n v rule: construct_option.induct)
     (auto simp: unsigned_integer_def char_sequence_def boolean_def switcher_def)

lemma construct_option_reads:
  "construct_option c n v = Some opt \<Longrightarrow>
   library_reads c (option_data opt) = Some (option_meaning c v)"
  by (induction c n v rule: construct_option.induct)
     (auto simp: unsigned_integer_def char_sequence_def switcher_def boolean_data c_str_def
       read_u32 bytes_le_4)

text \<open>
  Every option of \<open>options.hpp\<close> is handed to the library as it was built: with the number of
  its own constant, and with data from which the library reads the value the option was
  constructed from, a text up to its first NUL, or the default of its class.
\<close>

theorem options_roundtrip:
  assumes "make_option number name v = Some opt"
  shows "option_number opt = number (option_constant name) \<and>
         library_reads (class_of_option name) (option_data opt) =
           Some (option_meaning (class_of_option name) v)"
  using assms construct_option_number construct_option_reads by (simp add: make_option_def)

theorem options_roundtrip_witness:
  "map_option (library_reads Unsigned_class \<circ> option_data)
     (make_option (\<lambda>_. 0) Read_timeout (Unsigned_value 70000)) =
     Some (Some (Unsigned_value 70000))"
proof -
  have "make_option (\<lambda>_. 0) Read_timeout (Unsigned_value 70000) = Some (unsigned_integer 0 70000)"
    by (simp add: make_option_def)
  from options_roundtrip [OF this] show ?thesis by (simp add: make_option_def)
qed

section \<open>Client flags\<close>

datatype library_flag =
    CLIENT_COMPRESS_FLAG | CLIENT_FOUND_ROWS_FLAG | CLIENT_IGNORE_SIGPIPE_FLAG
  | CLIENT_IGNORE_SPACE_FLAG | CLIENT_INTERACTIVE_FLAG | CLIENT_LOCAL_FILES_FLAG
  | CLIENT_MULTI_RESULTS_FLAG | CLIENT_MULTI_STATEMENTS_FLAG | CLIENT_NO_SCHEMA_FLAG
  | CLIENT_ODBC_FLAG | CLIENT_SSL_FLAG

datatype client_flag =
    Client_compress | Client_found_rows | Client_ignore_sigpipe | Client_ignore_space
  | Client_interactive | Client_local_files | Client_multi_results | Client_multi_statements
  | Client_no_schema | Client_odbc | Client_ssl

text \<open>The constants of \<open>detail\<close>, of type \<open>int\<close>.\<close>

fun flag_constant :: "client_flag \<Rightarrow> library_flag" where
  "flag_constant Client_compress = CLIENT_COMPRESS_FLAG"
| "flag_constant Client_found_rows = CLIENT_FOUND_ROWS_FLAG"
| "flag_constant Client_ignore_sigpipe = CLIENT_IGNORE_SIGPIPE_FLAG"
| "flag_constant Client_ignore_space = CLIENT_IGNORE_SPACE_FLAG"
| "flag_constant Client_interactive = CLIENT_INTERACTIVE_FLAG"
| "flag_constant Client_local_files = CLIENT_LOCAL_FILES_FLAG"
| "flag_constant Client_multi_results = CLIENT_MULTI_RESULTS_FLAG"
| "flag_constant Client_multi_statements = CLIENT_MULTI_STATEMENTS_FLAG"
| "flag_constant Client_no_schema = CLIENT_NO_SCHEMA_FLAG"
| "flag_constant Client_odbc = CLIENT_ODBC_FLAG"
| "flag_constant Client_ssl = CLIENT_SSL_FLAG"

text \<open>The constants of the interface: the same as \<open>unsigned long\<close>.\<close>

definition client_flag_value :: "(library_flag \<Rightarrow> i32) \<Rightarrow> client_flag \<Rightarrow> u64" where
  "client_flag_value number f = scast (number (flag_constant f))"

text \<open>
  The detour over \<open>int\<close> keeps a constant that fits; one with the highest bit would gain the
  upper 32 bits of \<open>unsigned long\<close>.
\<close>

lemma client_flag_value_exact:
  assumes "0 \<le> sint (number (flag_constant f))"
  shows "uint (client_flag_value number f) = uint (number (flag_constant f))"
proof -
  let ?k = "sint (number (flag_constant f))"
  have "?k < 2 ^ 31" using sint_lt [of "number (flag_constant f)"] by simp
  then have "take_bit 64 ?k = ?k" using assms by (intro take_bit_int_eq_self) simp_all
  then have "uint (client_flag_value number f) = ?k"
    by (simp only: client_flag_value_def scast_eq uint_word_of_int_eq) simp
  then show ?thesis using uint_nonneg_sint [OF assms] by simp
qed

lemma multi_flags:
  "number CLIENT_MULTI_RESULTS_FLAG = CLIENT_MULTI_RESULTS H \<Longrightarrow>
   client_flag_value number Client_multi_results = client_multi_results H"
  "number CLIENT_MULTI_STATEMENTS_FLAG = CLIENT_MULTI_STATEMENTS H \<Longrightarrow>
   client_flag_value number Client_multi_statements = client_multi_statements H"
  by (simp_all add: client_flag_value_def client_multi_results_def client_multi_statements_def)

end
