(* ===== verification/Value_Cast.thy ===== *)
theory Value_Cast
  imports Prelude "HOL-Library.Char_ord"
begin

text \<open>
  \<open>include/amy/detail/value_cast.hpp\<close>: the conversion of the text of a column to an SQL
  type (\<open>sql_types.hpp\<close>).  The integer conversions go through \<open>strtol\<close> and \<open>strtoul\<close>,
  which are modelled after the C standard for base 10 with 64-bit \<open>long\<close>; they read from
  the pointer on and ignore the length of the field.  The result \<open>None\<close> stands for a read
  beyond the end of the memory the pointer leads to.

  Floating point and \<open>boost::posix_time\<close> parsing is done by libraries, which are parameters of
  the conversions that call them; the sign of the time of day Amy handles itself.
\<close>

section \<open>The C library\<close>

definition is_space :: "char \<Rightarrow> bool" where
  "is_space c \<longleftrightarrow> c = CHR '' '' \<or> (9 \<le> (of_char c :: nat) \<and> (of_char c :: nat) \<le> 13)"

definition is_digit :: "char \<Rightarrow> bool" where
  "is_digit c \<longleftrightarrow> 48 \<le> (of_char c :: nat) \<and> (of_char c :: nat) \<le> 57"

definition digit_value :: "char \<Rightarrow> nat" where
  "digit_value c = of_char c - 48"

fun read_digits :: "string \<Rightarrow> nat \<Rightarrow> nat option" where
  "read_digits [] acc = None"
| "read_digits (c # cs) acc =
     (if is_digit c then read_digits cs (10 * acc + digit_value c) else Some acc)"

definition read_decimal :: "string \<Rightarrow> (bool \<times> nat) option" where
  "read_decimal bs =
     (case dropWhile is_space bs of
        [] \<Rightarrow> None
      | c # cs \<Rightarrow>
          if c = CHR ''-'' then map_option (Pair True) (read_digits cs 0)
          else if c = CHR ''+'' then map_option (Pair False) (read_digits cs 0)
          else map_option (Pair False) (read_digits (c # cs) 0))"

definition clamp_long :: "int \<Rightarrow> int" where
  "clamp_long k = max (- (2 ^ 63)) (min (2 ^ 63 - 1) k)"

definition strtol :: "string \<Rightarrow> i64 option" where
  "strtol bs =
     map_option (\<lambda>(neg, n). word_of_int (clamp_long (if neg then - int n else int n)))
       (read_decimal bs)"

definition strtoul :: "string \<Rightarrow> u64 option" where
  "strtoul bs =
     map_option (\<lambda>(neg, n). if 2 ^ 64 \<le> n then - 1 else if neg then - of_nat n else of_nat n)
       (read_decimal bs)"

section \<open>The conversions\<close>

definition value_cast_string :: "string \<Rightarrow> u64 \<Rightarrow> string option" where
  "value_cast_string s l = (if unat l \<le> length s then Some (take (unat l) s) else None)"

definition value_cast_int64 :: "string \<Rightarrow> u64 \<Rightarrow> i64 option" where
  "value_cast_int64 s l = strtol s"

definition value_cast_int32 :: "string \<Rightarrow> u64 \<Rightarrow> i32 option" where
  "value_cast_int32 s l = map_option ucast (strtol s)"

definition value_cast_int16 :: "string \<Rightarrow> u64 \<Rightarrow> i16 option" where
  "value_cast_int16 s l = map_option ucast (strtol s)"

definition value_cast_int8 :: "string \<Rightarrow> u64 \<Rightarrow> i8 option" where
  "value_cast_int8 s l = map_option ucast (strtol s)"

definition value_cast_bool :: "string \<Rightarrow> u64 \<Rightarrow> bool option" where
  "value_cast_bool s l = map_option (\<lambda>v. v \<noteq> 0) (strtol s)"

definition value_cast_uint64 :: "string \<Rightarrow> u64 \<Rightarrow> u64 option" where
  "value_cast_uint64 s l = strtoul s"

definition value_cast_uint32 :: "string \<Rightarrow> u64 \<Rightarrow> u32 option" where
  "value_cast_uint32 s l = map_option ucast (strtoul s)"

text \<open>The 16-bit unsigned conversion casts to \<open>int16_t\<close> and converts the result.\<close>

definition value_cast_uint16 :: "string \<Rightarrow> u64 \<Rightarrow> u16 option" where
  "value_cast_uint16 s l = map_option (\<lambda>v. scast (ucast v :: i16)) (strtoul s)"

definition value_cast_uint8 :: "string \<Rightarrow> u64 \<Rightarrow> u8 option" where
  "value_cast_uint8 s l = map_option ucast (strtoul s)"

text \<open>
  The time of day, as a number of ticks: the parameter is what Boost parses from the
  text without its sign.  \<open>None\<close> is the failed assertion on an empty text.
\<close>

definition value_cast_time :: "(string \<Rightarrow> int) \<Rightarrow> string \<Rightarrow> u64 \<Rightarrow> int option" where
  "value_cast_time parse_duration s l =
     (if l = 0 \<or> s = [] then None
      else let negative = (hd s = CHR ''-'');
               (s', l') = (if negative then (tl s, l - 1) else (s, l))
           in if unat l' \<le> length s'
              then let v = parse_duration (take (unat l') s')
                   in Some (if negative then 0 - v else v)
              else None)"

text \<open>
  The primary template, for the types without a conversion of their own, and the conversion to
  a date go through \<open>std::istringstream\<close>: the text is bounded by the length, and the operator
  \<open>>>\<close> of the type, the parameter, changes a value that starts as \<open>ValueType{}\<close> (for a date, as
  the default of \<open>ptime\<close>) or leaves it.
\<close>

definition value_cast_stream ::
  "(string \<Rightarrow> 'v \<Rightarrow> 'v) \<Rightarrow> 'v \<Rightarrow> string \<Rightarrow> u64 \<Rightarrow> 'v option" where
  "value_cast_stream extract zero s l =
     map_option (\<lambda>text. extract text zero) (value_cast_string s l)"

definition value_cast_datetime ::
  "(string \<Rightarrow> 'p \<Rightarrow> 'p) \<Rightarrow> 'p \<Rightarrow> string \<Rightarrow> u64 \<Rightarrow> 'p option" where
  "value_cast_datetime read_ptime not_a_date_time s l =
     (if unat l \<le> length s then Some (read_ptime (take (unat l) s) not_a_date_time) else None)"

text \<open>
  The floating-point conversions are calls of \<open>strtod\<close> and \<open>strtof\<close>, whose result types HOL
  does not have; they are parameters, with \<open>None\<close> for a read beyond the memory.
\<close>

definition value_cast_double :: "(string \<Rightarrow> 'd option) \<Rightarrow> string \<Rightarrow> u64 \<Rightarrow> 'd option" where
  "value_cast_double strtod s l = strtod s"

definition value_cast_float :: "(string \<Rightarrow> 'f option) \<Rightarrow> string \<Rightarrow> u64 \<Rightarrow> 'f option" where
  "value_cast_float strtof s l = strtof s"

text \<open>
  The conversions through a stream see the text of the column and nothing behind it, whatever
  the text holds; the one to \<open>std::string\<close> too.
\<close>

lemma value_cast_stream_exact:
  assumes "length text < 2 ^ 64"
  shows "value_cast_string (text @ rest) (of_nat (length text)) = Some text"
    and "value_cast_stream extract zero (text @ rest) (of_nat (length text)) =
           Some (extract text zero)"
    and "value_cast_datetime extract zero (text @ rest) (of_nat (length text)) =
           Some (extract text zero)"
proof -
  have "unat (of_nat (length text) :: u64) = length text"
    using assms by (simp add: unat_of_nat)
  then show "value_cast_string (text @ rest) (of_nat (length text)) = Some text"
    and "value_cast_stream extract zero (text @ rest) (of_nat (length text)) =
           Some (extract text zero)"
    and "value_cast_datetime extract zero (text @ rest) (of_nat (length text)) =
           Some (extract text zero)"
    by (simp_all add: value_cast_string_def value_cast_stream_def value_cast_datetime_def)
qed

section \<open>Decimal text\<close>

text \<open>The text of a number, as the server sends it.\<close>

definition digit_char :: "nat \<Rightarrow> char" where
  "digit_char d = char_of (48 + d)"

fun nat_text :: "nat \<Rightarrow> string" where
  "nat_text n = (if n < 10 then [digit_char n] else nat_text (n div 10) @ [digit_char (n mod 10)])"

declare nat_text.simps [simp del]

definition int_text :: "int \<Rightarrow> string" where
  "int_text k = (if k < 0 then CHR ''-'' # nat_text (nat (- k)) else nat_text (nat k))"

lemma digit_char_props:
  assumes "d < 10"
  shows "is_digit (digit_char d)" and "digit_value (digit_char d) = d"
    and "\<not> is_space (digit_char d)" and "digit_char d \<noteq> CHR ''-''" and "digit_char d \<noteq> CHR ''+''"
proof -
  have v: "(of_char (digit_char d) :: nat) = 48 + d"
    using assms by (simp add: digit_char_def of_char_of)
  then show "is_digit (digit_char d)" "digit_value (digit_char d) = d"
    using assms by (simp_all add: is_digit_def digit_value_def)
  have "digit_char d \<noteq> CHR '' ''"
    using v by auto
  then show "\<not> is_space (digit_char d)"
    using v by (simp add: is_space_def)
  show "digit_char d \<noteq> CHR ''-''" "digit_char d \<noteq> CHR ''+''"
    using v by auto
qed

lemma read_digits_append:
  assumes "\<forall>c \<in> set ds. is_digit c"
  shows "read_digits (ds @ cs) acc =
           read_digits cs (foldl (\<lambda>a c. 10 * a + digit_value c) acc ds)"
  using assms by (induction ds arbitrary: acc) auto

lemma nat_text_digits: "\<forall>c \<in> set (nat_text n). is_digit c"
proof (induction n rule: nat_text.induct)
  case (1 n)
  then show ?case
    by (subst nat_text.simps) (auto simp: digit_char_props)
qed

lemma nat_text_value: "foldl (\<lambda>a c. 10 * a + digit_value c) 0 (nat_text n) = n"
proof (induction n rule: nat_text.induct)
  case (1 n)
  then show ?case
    by (subst nat_text.simps) (simp add: digit_char_props)
qed

lemma nat_text_first:
  obtains d ds where "nat_text n = digit_char d # ds" and "d < 10"
proof (induction n arbitrary: thesis rule: nat_text.induct)
  case (1 n)
  show ?case
  proof (cases "n < 10")
    case True
    then show ?thesis by (intro "1.prems") (subst nat_text.simps, auto)
  next
    case False
    from "1.IH" [OF False] obtain d ds where "nat_text (n div 10) = digit_char d # ds" "d < 10"
      by blast
    then show ?thesis using False by (intro "1.prems") (subst nat_text.simps, auto)
  qed
qed

lemma not_digit_nul [simp]: "\<not> is_digit nul"
  by (simp add: is_digit_def)

lemma read_nat_text: "read_digits (nat_text n @ nul # rest) 0 = Some n"
  by (simp add: read_digits_append [OF nat_text_digits] nat_text_value)

lemma read_decimal_nat_text: "read_decimal (nat_text n @ nul # rest) = Some (False, n)"
proof -
  obtain d ds where t: "nat_text n = digit_char d # ds" and "d < 10"
    by (rule nat_text_first)
  then have "read_decimal (nat_text n @ nul # rest) =
      map_option (Pair False) (read_digits (nat_text n @ nul # rest) 0)"
    by (simp add: read_decimal_def digit_char_props)
  then show ?thesis by (simp add: read_nat_text)
qed

lemma read_decimal_int_text:
  "read_decimal (int_text k @ nul # rest) = Some (k < 0, nat \<bar>k\<bar>)"
proof (cases "k < 0")
  case True
  then show ?thesis
    by (simp add: int_text_def read_decimal_def is_space_def read_nat_text)
next
  case False
  then show ?thesis by (simp add: int_text_def read_decimal_nat_text)
qed

section \<open>Properties\<close>

lemma strtol_int_text:
  assumes "- (2 ^ 63) \<le> k" and "k < 2 ^ 63"
  shows "strtol (int_text k @ nul # rest) = Some (word_of_int k)"
  using assms by (simp add: strtol_def read_decimal_int_text clamp_long_def)

lemma strtoul_nat_text:
  assumes "n < 2 ^ 64"
  shows "strtoul (nat_text n @ nul # rest) = Some (of_nat n)"
  using assms by (simp add: strtoul_def read_decimal_nat_text)

lemma ucast_word_of_int:
  assumes "LENGTH('b) \<le> LENGTH('a)"
  shows "(ucast (word_of_int k :: 'a::len word) :: 'b::len word) = word_of_int k"
  using assms by (auto simp: bit_eq_iff bit_simps)

lemma ucast_of_nat_word:
  assumes "LENGTH('b) \<le> LENGTH('a)"
  shows "(ucast (of_nat n :: 'a::len word) :: 'b::len word) = of_nat n"
  using ucast_word_of_int [OF assms, of "int n"] by simp

text \<open>
  C39. Round trip of the signed conversions.  The text of any number in the range of a
  64-bit integer, with whatever memory follows its terminator and whatever the length of
  the field, is read back exactly by the 64-bit conversion; the narrower ones deliver the
  number modulo their width, so they are exact on their own range and wrap silently
  outside it; the conversion to \<open>bool\<close> tests for a number other than zero.
\<close>

theorem signed_casts_roundtrip:
  fixes rest :: string
  assumes "- (2 ^ 63) \<le> k" and "k < 2 ^ 63"
  defines "s \<equiv> int_text k @ nul # rest"
  shows "value_cast_int64 s l = Some (word_of_int k) \<and>
         value_cast_int32 s l = Some (word_of_int k) \<and>
         value_cast_int16 s l = Some (word_of_int k) \<and>
         value_cast_int8 s l = Some (word_of_int k) \<and>
         value_cast_bool s l = Some (k \<noteq> 0)"
proof -
  have r: "strtol s = Some (word_of_int k)"
    using assms strtol_int_text by simp
  have "(word_of_int k :: i64) = 0 \<longleftrightarrow> k = 0"
  proof
    assume "(word_of_int k :: i64) = 0"
    then have "sint (word_of_int k :: i64) = 0" by simp
    then show "k = 0"
      using assms by (simp add: sint_sbintrunc' signed_take_bit_int_eq_self)
  qed simp
  with r show ?thesis
    by (simp add: value_cast_int64_def value_cast_int32_def value_cast_int16_def
        value_cast_int8_def value_cast_bool_def ucast_word_of_int)
qed

theorem signed_casts_roundtrip_witness:
  "value_cast_int64 (int_text (-42) @ nul # []) 3 = Some (- 42) \<and>
   value_cast_int8 (int_text (-42) @ nul # []) 3 = Some (- 42)"
  using signed_casts_roundtrip [of "-42" "[]" 3] by simp

text \<open>
  Round trip of the unsigned conversions; the 16-bit one, which casts to the signed
  type first, delivers the same value as a direct cast would.
\<close>

theorem unsigned_casts_roundtrip:
  fixes rest :: string
  assumes "n < 2 ^ 64"
  defines "s \<equiv> nat_text n @ nul # rest"
  shows "value_cast_uint64 s l = Some (of_nat n) \<and>
         value_cast_uint32 s l = Some (of_nat n) \<and>
         value_cast_uint16 s l = Some (of_nat n) \<and>
         value_cast_uint8 s l = Some (of_nat n)"
proof -
  have "strtoul s = Some (of_nat n)"
    using assms strtoul_nat_text by simp
  then show ?thesis
    by (simp add: value_cast_uint64_def value_cast_uint32_def value_cast_uint16_def
        value_cast_uint8_def ucast_of_nat_word scast_id)
qed

theorem unsigned_casts_roundtrip_witness:
  "value_cast_uint16 (nat_text 65535 @ nul # ''x'') 5 = Some 65535 \<and>
   value_cast_uint8 (nat_text 65535 @ nul # ''x'') 5 = Some 255"
  using unsigned_casts_roundtrip [of 65535 "''x''" 5] by simp

text \<open>
  Negative durations: the sign is taken off before the text reaches the parser and put
  back on its result.
\<close>

lemma value_cast_time_sign:
  assumes "0 < l" and "unat l \<le> length s" and "hd s \<noteq> CHR ''-''"
  shows "value_cast_time p s l = Some (p (take (unat l) s)) \<and>
         (l \<noteq> - 1 \<longrightarrow> value_cast_time p (CHR ''-'' # s) (l + 1) = Some (- p (take (unat l) s)))"
proof -
  have "l \<noteq> 0" "s \<noteq> []"
    using assms by (auto simp: word_greater_zero_iff unat_0_iff)
  moreover have "l \<noteq> - 1 \<longrightarrow> l + 1 \<noteq> 0"
    by (metis add_eq_0_iff2)
  ultimately show ?thesis
    using assms by (simp add: value_cast_time_def)
qed

end
