(* ===== verification/Sample_Library.thy ===== *)
theory Sample_Library
  imports Client_Lib
begin

text \<open>
  A small scripted client library.  It is no model of MySQL: it is one instance of the
  parameter \<open>mysql_api\<close> on which the hypotheses of the properties can be evaluated, so that
  their witnesses show that the hypotheses can hold together.

  Each statement takes the next entry of a script: the list of the results that the server
  sends back for it.  \<open>sv_current\<close> is the result that has arrived and is not yet stored.
\<close>

datatype sample_result =
    Rows "mysql_field list" "(mysql_row \<times> u64 list) list"
  | Done u64
  | Fail u32

record sample_cursor =
  cur_id :: res_ptr
  cur_fields :: "mysql_field list"
  cur_rows :: "(mysql_row \<times> u64 list) list"
  cur_lengths :: "u64 list"
  cur_num_rows :: nat
  cur_num_fields :: nat

record sample_server =
  sv_errno :: u32
  sv_script :: "sample_result list list"
  sv_current :: "sample_result option"
  sv_more :: "sample_result list"
  sv_cursors :: "sample_cursor list"
  sv_next_id :: res_ptr
  sv_freed :: "res_ptr list"
  sv_in_transaction :: bool
  sv_log :: "string list"

definition sample_start :: "sample_result list list \<Rightarrow> sample_server" where
  "sample_start script =
     \<lparr>sv_errno = 0, sv_script = script, sv_current = None, sv_more = [], sv_cursors = [],
      sv_next_id = 1, sv_freed = [], sv_in_transaction = False, sv_log = []\<rparr>"

definition sample_call :: "string \<Rightarrow> sample_server \<Rightarrow> sample_server" where
  "sample_call name s = s\<lparr>sv_errno := 0, sv_log := sv_log s @ [name]\<rparr>"

text \<open>The next result of a statement arrives.\<close>

fun sample_arrive :: "sample_result list \<Rightarrow> sample_server \<Rightarrow> sample_server \<times> i32" where
  "sample_arrive [] s = (s\<lparr>sv_current := None, sv_more := []\<rparr>, - 1)"
| "sample_arrive (Fail e # rs) s = (s\<lparr>sv_errno := e, sv_current := None, sv_more := []\<rparr>, 1)"
| "sample_arrive (r # rs) s = (s\<lparr>sv_current := Some r, sv_more := rs\<rparr>, 0)"

definition sample_query :: "sample_server \<Rightarrow> sample_server \<times> i32" where
  "sample_query s =
     (let s1 = sample_call ''query'' s
      in case sv_script s1 of
           [] \<Rightarrow> sample_arrive [Done 0] s1
         | rs # script \<Rightarrow> sample_arrive rs (s1\<lparr>sv_script := script\<rparr>))"

definition sample_store :: "sample_server \<Rightarrow> sample_server \<times> res_ptr option" where
  "sample_store s =
     (let s1 = sample_call ''store'' s
      in case sv_current s1 of
           Some (Rows fs rows) \<Rightarrow>
             (s1\<lparr>sv_current := None, sv_next_id := Suc (sv_next_id s1),
                 sv_cursors := \<lparr>cur_id = sv_next_id s1, cur_fields = fs, cur_rows = rows,
                                cur_lengths = [], cur_num_rows = length rows,
                                cur_num_fields = length fs\<rparr> # sv_cursors s1\<rparr>,
              Some (sv_next_id s1))
         | _ \<Rightarrow> (s1, None))"

definition sample_cursor_of :: "sample_server \<Rightarrow> res_ptr \<Rightarrow> sample_cursor option" where
  "sample_cursor_of s r = find (\<lambda>c. cur_id c = r) (sv_cursors s)"

definition sample_put :: "sample_cursor \<Rightarrow> sample_server \<Rightarrow> sample_server" where
  "sample_put c s =
     s\<lparr>sv_cursors := map (\<lambda>d. if cur_id d = cur_id c then c else d) (sv_cursors s)\<rparr>"

definition sample_fetch_field ::
  "sample_server \<Rightarrow> res_ptr \<Rightarrow> sample_server \<times> mysql_field option" where
  "sample_fetch_field s r =
     (case sample_cursor_of s r of
        None \<Rightarrow> (s, None)
      | Some c \<Rightarrow>
          (case cur_fields c of
             [] \<Rightarrow> (s, None)
           | f # fs \<Rightarrow> (sample_put (c\<lparr>cur_fields := fs\<rparr>) s, Some f)))"

definition sample_fetch_row ::
  "sample_server \<Rightarrow> res_ptr \<Rightarrow> sample_server \<times> mysql_row option" where
  "sample_fetch_row s r =
     (case sample_cursor_of s r of
        None \<Rightarrow> (s, None)
      | Some c \<Rightarrow>
          (case cur_rows c of
             [] \<Rightarrow> (s, None)
           | (x, ls) # rows \<Rightarrow> (sample_put (c\<lparr>cur_rows := rows, cur_lengths := ls\<rparr>) s, Some x)))"

definition sample_field_count :: "sample_server \<Rightarrow> u32" where
  "sample_field_count s =
     (case sv_current s of Some (Rows fs _) \<Rightarrow> of_nat (length fs) | _ \<Rightarrow> 0)"

definition sample_affected :: "sample_server \<Rightarrow> u64" where
  "sample_affected s = (case sv_current s of Some (Done n) \<Rightarrow> n | _ \<Rightarrow> 0)"

definition sample_api :: "sample_server mysql_api" where
  "sample_api =
     \<lparr>CR = CR headers_5_6,
      MYSQL_SECURE_AUTH = MYSQL_SECURE_AUTH headers_5_6,
      CLIENT_MULTI_RESULTS = CLIENT_MULTI_RESULTS headers_5_6,
      CLIENT_MULTI_STATEMENTS = CLIENT_MULTI_STATEMENTS headers_5_6,
      NOT_NULL_FLAG = 1, PRI_KEY_FLAG = 2, UNIQUE_KEY_FLAG = 4, MULTIPLE_KEY_FLAG = 8,
      UNSIGNED_FLAG = 32, ZEROFILL_FLAG = 64, BINARY_FLAG = 128, AUTO_INCREMENT_FLAG = 512,
      NO_DEFAULT_VALUE_FLAG = 4096,
      MYSQL_WAIT_READ = 1, MYSQL_WAIT_WRITE = 2, MYSQL_WAIT_EXCEPT = 4, MYSQL_WAIT_TIMEOUT = 8,
      MYSQL_OPT_NONBLOCK = 6000,
      operation_aborted_value = operation_aborted_value headers_5_6,
      c_mysql_errno = sv_errno,
      c_mysql_error = (\<lambda>s. if sv_errno s = 0 then '''' else ''sample error''),
      c_mysql_init = (\<lambda>s. (sample_call ''init'' s, True)),
      c_mysql_close = sample_call ''close'',
      c_mysql_options = (\<lambda>s opt arg. (sample_call ''options'' s, 0)),
      c_mysql_real_connect =
        (\<lambda>s host user password database port unix_socket fl. (sample_call ''connect'' s, True)),
      c_mysql_real_query = (\<lambda>s stmt len. sample_query s),
      c_mysql_field_count = sample_field_count,
      c_mysql_affected_rows = sample_affected,
      c_mysql_store_result = sample_store,
      c_mysql_more_results = (\<lambda>s. sv_more s \<noteq> []),
      c_mysql_next_result = (\<lambda>s. sample_arrive (sv_more s) (sample_call ''next'' s)),
      c_mysql_free_result = (\<lambda>s r. s\<lparr>sv_freed := r # sv_freed s\<rparr>),
      c_mysql_num_rows =
        (\<lambda>s r. case sample_cursor_of s r of Some c \<Rightarrow> of_nat (cur_num_rows c) | None \<Rightarrow> 0),
      c_mysql_num_fields =
        (\<lambda>s r. case sample_cursor_of s r of Some c \<Rightarrow> of_nat (cur_num_fields c) | None \<Rightarrow> 0),
      c_mysql_fetch_field = sample_fetch_field,
      c_mysql_fetch_row = sample_fetch_row,
      c_mysql_fetch_lengths =
        (\<lambda>s r. case sample_cursor_of s r of Some c \<Rightarrow> cur_lengths c | None \<Rightarrow> []),
      c_mysql_autocommit =
        (\<lambda>s mode. ((sample_call ''autocommit'' s)\<lparr>sv_in_transaction := \<not> mode\<rparr>, False)),
      c_mysql_commit = (\<lambda>s. (sample_call ''commit'' s, False)),
      c_mysql_rollback = (\<lambda>s. (sample_call ''rollback'' s, False))\<rparr>"

text \<open>A result of one column and two rows, the second one null.\<close>

definition sample_column :: mysql_field where
  "sample_column =
     \<lparr>fld_name = ''maxlen'' @ [nul], fld_name_length = 6, fld_length = 3, fld_max_length = 1,
      fld_flags = 1\<rparr>"

definition sample_table :: sample_result where
  "sample_table = Rows [sample_column] [([c_str ''17''], [2]), ([None], [0])]"

text \<open>The server after a statement whose result is that table has been stored.\<close>

definition sample_stored :: sample_server where
  "sample_stored = fst (sample_store (fst (sample_query (sample_start [[sample_table]]))))"

end
