(* ===== verification/Result_Set.thy ===== *)
theory Result_Set
  imports Shared_Ptr Client_Lib Value_Cast Sample_Library
begin

text \<open>
  Result sets: \<open>field.hpp\<close>, \<open>field_info.hpp\<close>, \<open>row.hpp\<close> and \<open>result_set.hpp\<close>.

  A result set only observes the \<open>MYSQL_RES\<close> it was filled from, through a weak pointer;
  the connection owns it.  Its rows are copies of the column pointers.  An operation that
  the source leaves undefined (a null pointer dereferenced, a read beyond an array) or that
  does not return has the result \<open>None\<close>.
\<close>

section \<open>Fields\<close>

record field =
  value_str :: char_ptr
  field_length :: u64

definition make_field :: "char_ptr \<Rightarrow> u64 \<Rightarrow> field" where
  "make_field v l = \<lparr>value_str = v, field_length = l\<rparr>"

text \<open>The constructor from a C string measures it with \<open>strlen\<close>.\<close>

definition field_of_c_str :: "char_ptr \<Rightarrow> field" where
  "field_of_c_str v =
     \<lparr>value_str = v,
      field_length = (case v of Some bs \<Rightarrow> of_nat (length (c_str_of bs)) | None \<Rightarrow> 0)\<rparr>"

definition is_null :: "field \<Rightarrow> bool" where
  "is_null f \<longleftrightarrow> value_str f = None"

text \<open>\<open>as<SQLType>\<close>, for a given conversion; \<open>None\<close> is the failed assertion.\<close>

definition field_as :: "(string \<Rightarrow> u64 \<Rightarrow> 't option) \<Rightarrow> field \<Rightarrow> 't option" where
  "field_as value_cast f =
     (case value_str f of None \<Rightarrow> None | Some bs \<Rightarrow> value_cast bs (field_length f))"

definition print_field :: "field \<Rightarrow> string" where
  "print_field f = (case value_str f of None \<Rightarrow> ''null'' | Some bs \<Rightarrow> c_str_of bs)"

section \<open>Field descriptions\<close>

text \<open>
  \<open>field_info\<close> is the pointer to the description; its constructor asserts that it is not null,
  and then copies of it never are.
\<close>

definition field_info_of :: "mysql_field option \<Rightarrow> mysql_field option" where
  "field_info_of p = (case p of None \<Rightarrow> None | Some f \<Rightarrow> Some f)"

definition fi_length :: "mysql_field \<Rightarrow> u64" where
  "fi_length f = fld_length f"

definition fi_max_length :: "mysql_field \<Rightarrow> u64" where
  "fi_max_length f = fld_max_length f"

text \<open>\<open>name\<close> builds a string from the pointer and the length of the description.\<close>

definition fi_name :: "mysql_field \<Rightarrow> string option" where
  "fi_name f =
     (if unat (fld_name_length f) \<le> length (fld_name f)
      then Some (take (unat (fld_name_length f)) (fld_name f)) else None)"

definition is_nullable :: "'h mysql_headers_scheme \<Rightarrow> mysql_field \<Rightarrow> bool" where
  "is_nullable H f \<longleftrightarrow> \<not> fld_flags f AND NOT_NULL_FLAG H \<noteq> 0"

definition is_primary_key :: "'h mysql_headers_scheme \<Rightarrow> mysql_field \<Rightarrow> bool" where
  "is_primary_key H f \<longleftrightarrow> fld_flags f AND PRI_KEY_FLAG H \<noteq> 0"

definition is_unique_key :: "'h mysql_headers_scheme \<Rightarrow> mysql_field \<Rightarrow> bool" where
  "is_unique_key H f \<longleftrightarrow> fld_flags f AND UNIQUE_KEY_FLAG H \<noteq> 0"

definition is_multiple_key :: "'h mysql_headers_scheme \<Rightarrow> mysql_field \<Rightarrow> bool" where
  "is_multiple_key H f \<longleftrightarrow> fld_flags f AND MULTIPLE_KEY_FLAG H \<noteq> 0"

definition is_unsigned :: "'h mysql_headers_scheme \<Rightarrow> mysql_field \<Rightarrow> bool" where
  "is_unsigned H f \<longleftrightarrow> fld_flags f AND UNSIGNED_FLAG H \<noteq> 0"

definition is_zerofill :: "'h mysql_headers_scheme \<Rightarrow> mysql_field \<Rightarrow> bool" where
  "is_zerofill H f \<longleftrightarrow> fld_flags f AND ZEROFILL_FLAG H \<noteq> 0"

definition is_binary :: "'h mysql_headers_scheme \<Rightarrow> mysql_field \<Rightarrow> bool" where
  "is_binary H f \<longleftrightarrow> fld_flags f AND BINARY_FLAG H \<noteq> 0"

definition is_auto_increment :: "'h mysql_headers_scheme \<Rightarrow> mysql_field \<Rightarrow> bool" where
  "is_auto_increment H f \<longleftrightarrow> fld_flags f AND AUTO_INCREMENT_FLAG H \<noteq> 0"

definition has_default_value :: "'h mysql_headers_scheme \<Rightarrow> mysql_field \<Rightarrow> bool" where
  "has_default_value H f \<longleftrightarrow>
     is_nullable H f \<or> is_auto_increment H f \<or> \<not> fld_flags f AND NO_DEFAULT_VALUE_FLAG H \<noteq> 0"

section \<open>Rows\<close>

text \<open>
  The member \<open>lengths_\<close> points into an array of the library that the next fetch
  overwrites; only the constructor reads it, so it is an argument of \<open>make_row\<close>.
\<close>

record row =
  row_result :: res_ptr
  row_native :: mysql_row
  row_fields :: "field list"
  row_fields_info :: "mysql_field list"

text \<open>The loop of \<open>build_fields\<close>; \<open>i\<close> is the loop variable.\<close>

function build_fields :: "mysql_row \<Rightarrow> u64 list \<Rightarrow> nat \<Rightarrow> nat \<Rightarrow> field list option" where
  "build_fields r lengths field_count i =
     (if i < field_count
      then if i < length r \<and> i < length lengths
           then map_option ((#) (make_field (r ! i) (lengths ! i)))
                  (build_fields r lengths field_count (Suc i))
           else None
      else Some [])"
  by pat_completeness auto
termination
  by (relation "measure (\<lambda>(_, _, n, i). n - i)") auto

declare build_fields.simps [simp del]

definition row_size :: "('m, 'a) mysql_api_scheme \<Rightarrow> 'm \<Rightarrow> row \<Rightarrow> u32" where
  "row_size A m rw = c_mysql_num_fields A m (row_result rw)"

definition make_row ::
  "('m, 'a) mysql_api_scheme \<Rightarrow> 'm \<Rightarrow> res_ptr \<Rightarrow> mysql_row \<Rightarrow> u64 list \<Rightarrow> mysql_field list \<Rightarrow>
     row option" where
  "make_row A m rs r lengths infos =
     map_option
       (\<lambda>fs. \<lparr>row_result = rs, row_native = r, row_fields = fs, row_fields_info = infos\<rparr>)
       (build_fields r lengths (unat (c_mysql_num_fields A m rs)) 0)"

text \<open>
  Access by index.  \<open>at\<close> and \<open>operator[]\<close> of \<open>row\<close> call \<open>std::vector::at\<close>, which throws
  when the index, converted to an unsigned size, is out of range; those of \<open>result_set\<close>
  assert first that the result set is not expired.
\<close>

datatype access_error = Assertion_failed | Out_of_range | Null_dereference

definition vector_at :: "'e list \<Rightarrow> int \<Rightarrow> access_error + 'e" where
  "vector_at xs i =
     (if 0 \<le> i \<and> nat i < length xs then Inr (xs ! nat i) else Inl Out_of_range)"

definition row_at :: "row \<Rightarrow> int \<Rightarrow> access_error + field" where
  "row_at rw i = vector_at (row_fields rw) i"

text \<open>The output operator: every field followed by a space; \<open>n\<close> is the size of the row.\<close>

fun print_fields :: "row \<Rightarrow> nat \<Rightarrow> nat \<Rightarrow> access_error + string" where
  "print_fields rw i 0 = Inr ''''"
| "print_fields rw i (Suc n) =
     (case row_at rw (int i) of
        Inl e \<Rightarrow> Inl e
      | Inr f \<Rightarrow>
          (case print_fields rw (Suc i) n of
             Inl e \<Rightarrow> Inl e
           | Inr s \<Rightarrow> Inr (print_field f @ '' '' @ s)))"

definition print_row :: "('m, 'a) mysql_api_scheme \<Rightarrow> 'm \<Rightarrow> row \<Rightarrow> access_error + string" where
  "print_row A m rw = print_fields rw 0 (unat (row_size A m rw))"

section \<open>Result sets\<close>

text \<open>
  \<open>rs_mysql\<close> says whether \<open>mysql_\<close> points to the connection or is null; \<open>None\<close> in the
  last two fields is a null \<open>shared_ptr\<close>.
\<close>

record result_set =
  rs_mysql :: bool
  rs_weak :: "res_ptr weak_ptr"
  rs_values :: "row list option"
  rs_fields_info :: "mysql_field list option"

definition result_set_default :: result_set where
  "result_set_default =
     \<lparr>rs_mysql = False, rs_weak = Empty_weak, rs_values = Some [], rs_fields_info = Some []\<rparr>"

definition empty_set :: result_set where
  "empty_set =
     \<lparr>rs_mysql = True, rs_weak = Empty_weak, rs_values = Some [], rs_fields_info = Some []\<rparr>"

text \<open>The two loops of \<open>assign\<close>.\<close>

partial_function (option) fetch_fields ::
  "('m, 'a) mysql_api_scheme \<Rightarrow> 'm \<Rightarrow> res_ptr \<Rightarrow> mysql_field list \<Rightarrow>
     ('m \<times> mysql_field list) option" where
  "fetch_fields A m r infos =
     (case c_mysql_fetch_field A m r of
        (m', fo) \<Rightarrow>
          (case fo of
             None \<Rightarrow> Some (m', infos)
           | Some f \<Rightarrow> fetch_fields A m' r (infos @ [f])))"

partial_function (option) fetch_rows ::
  "('m, 'a) mysql_api_scheme \<Rightarrow> 'm \<Rightarrow> res_ptr \<Rightarrow> mysql_field list \<Rightarrow> error_code \<Rightarrow> row list \<Rightarrow>
     ('m \<times> row list \<times> error_code) option" where
  "fetch_rows A m r infos ec vs =
     (case mysql_fetch_row A m r ec of
        (m', ro, ec') \<Rightarrow>
          (case ro of
             None \<Rightarrow> Some (m', vs, ec')
           | Some x \<Rightarrow>
               (case make_row A m' r x (c_mysql_fetch_lengths A m' r) infos of
                  None \<Rightarrow> None
                | Some rw \<Rightarrow> fetch_rows A m' r infos ec' (vs @ [rw]))))"

definition result_set_assign ::
  "('m, 'a) mysql_api_scheme \<Rightarrow> 'm \<Rightarrow> result_set \<Rightarrow> res_ptr shared_ptr \<Rightarrow> error_code \<Rightarrow>
     ('m \<times> result_set \<times> error_code) option" where
  "result_set_assign A m rs sp ec =
     (let rs1 = rs\<lparr>rs_mysql := True\<rparr>
      in case sp_get sp of
           None \<Rightarrow> Some (m, rs1, ec)
         | Some r \<Rightarrow>
             (let rs2 = rs1\<lparr>rs_weak := wp_of sp\<rparr>
              in if c_mysql_num_rows A m r = 0 then Some (m, rs2, ec)
                 else case fetch_fields A m r [] of
                   None \<Rightarrow> None
                 | Some (m1, infos) \<Rightarrow>
                     (case rs_values rs2 of
                        None \<Rightarrow> None
                      | Some vs \<Rightarrow>
                          (case fetch_rows A m1 r infos ec vs of
                             None \<Rightarrow> None
                           | Some (m2, vs', ec') \<Rightarrow>
                               if failed ec'
                               then Some (m2, rs2\<lparr>rs_values := None, rs_fields_info := None,
                                                  rs_weak := Empty_weak\<rparr>, ec')
                               else Some (m2, rs2\<lparr>rs_values := Some vs',
                                                  rs_fields_info := Some infos\<rparr>, ec')))))"

definition rs_expired :: "result_set \<Rightarrow> 'z cpp_heap_scheme \<Rightarrow> bool" where
  "rs_expired rs h \<longleftrightarrow> expired (rs_weak rs) h"

definition rs_native :: "result_set \<Rightarrow> 'z cpp_heap_scheme \<Rightarrow> res_ptr option" where
  "rs_native rs h = wp_lock_get (rs_weak rs) h"

definition rs_size ::
  "('m, 'a) mysql_api_scheme \<Rightarrow> 'm \<Rightarrow> result_set \<Rightarrow> 'z cpp_heap_scheme \<Rightarrow> u64" where
  "rs_size A m rs h =
     (case wp_lock_get (rs_weak rs) h of Some r \<Rightarrow> c_mysql_num_rows A m r | None \<Rightarrow> 0)"

definition rs_empty ::
  "('m, 'a) mysql_api_scheme \<Rightarrow> 'm \<Rightarrow> result_set \<Rightarrow> 'z cpp_heap_scheme \<Rightarrow> bool" where
  "rs_empty A m rs h \<longleftrightarrow> wp_lock_get (rs_weak rs) h = None \<or> rs_size A m rs h = 0"

definition rs_at :: "result_set \<Rightarrow> 'z cpp_heap_scheme \<Rightarrow> int \<Rightarrow> access_error + row" where
  "rs_at rs h i =
     (if rs_expired rs h then Inl Assertion_failed
      else case rs_values rs of None \<Rightarrow> Inl Null_dereference | Some vs \<Rightarrow> vector_at vs i)"

definition rs_get_fields_info ::
  "result_set \<Rightarrow> 'z cpp_heap_scheme \<Rightarrow> access_error + mysql_field list" where
  "rs_get_fields_info rs h =
     (if rs_expired rs h then Inl Assertion_failed
      else case rs_fields_info rs of None \<Rightarrow> Inl Null_dereference | Some fs \<Rightarrow> Inr fs)"

text \<open>The rows between \<open>begin()\<close> and \<open>end()\<close>, and in the order of \<open>rbegin()\<close>.\<close>

definition rs_rows :: "result_set \<Rightarrow> access_error + row list" where
  "rs_rows rs = (case rs_values rs of None \<Rightarrow> Inl Null_dereference | Some vs \<Rightarrow> Inr vs)"

definition rs_rows_reversed :: "result_set \<Rightarrow> access_error + row list" where
  "rs_rows_reversed rs =
     (case rs_values rs of None \<Rightarrow> Inl Null_dereference | Some vs \<Rightarrow> Inr (rev vs))"

definition rs_field_count ::
  "('m, 'a) mysql_api_scheme \<Rightarrow> 'm \<Rightarrow> result_set \<Rightarrow> access_error + u32" where
  "rs_field_count A m rs =
     (if rs_mysql rs then Inr (mysql_field_count A m) else Inl Null_dereference)"

definition rs_affected_rows ::
  "('m, 'a) mysql_api_scheme \<Rightarrow> 'm \<Rightarrow> result_set \<Rightarrow> access_error + u64" where
  "rs_affected_rows A m rs =
     (if rs_mysql rs then Inr (c_mysql_affected_rows A m) else Inl Null_dereference)"

section \<open>What the library delivers\<close>

text \<open>
  \<open>field_sequence A m r fs m'\<close>: from the state \<open>m\<close>, repeated calls of \<open>mysql_fetch_field\<close>
  return the descriptions \<open>fs\<close> and then null, in the state \<open>m'\<close>.  \<open>row_sequence\<close> says the
  same of \<open>mysql_fetch_row\<close>, each row with the array that \<open>mysql_fetch_lengths\<close> returns
  for it; both have \<open>mysql_num_fields\<close> entries, as the manual of the library promises.
\<close>

fun field_sequence ::
  "('m, 'a) mysql_api_scheme \<Rightarrow> 'm \<Rightarrow> res_ptr \<Rightarrow> mysql_field list \<Rightarrow> 'm \<Rightarrow> bool" where
  "field_sequence A m r [] m' \<longleftrightarrow> c_mysql_fetch_field A m r = (m', None)"
| "field_sequence A m r (f # fs) m' \<longleftrightarrow>
     (case c_mysql_fetch_field A m r of
        (m1, Some g) \<Rightarrow> g = f \<and> field_sequence A m1 r fs m'
      | (m1, None) \<Rightarrow> False)"

fun row_sequence ::
  "('m, 'a) mysql_api_scheme \<Rightarrow> 'm \<Rightarrow> res_ptr \<Rightarrow> (mysql_row \<times> u64 list) list \<Rightarrow> 'm \<Rightarrow> bool" where
  "row_sequence A m r [] m' \<longleftrightarrow> c_mysql_fetch_row A m r = (m', None)"
| "row_sequence A m r ((x, ls) # xs) m' \<longleftrightarrow>
     (case c_mysql_fetch_row A m r of
        (m1, Some y) \<Rightarrow>
          y = x \<and> c_mysql_fetch_lengths A m1 r = ls \<and>
          length x = unat (c_mysql_num_fields A m1 r) \<and> length ls = length x \<and>
          row_sequence A m1 r xs m'
      | (m1, None) \<Rightarrow> False)"

text \<open>The row that Amy builds from the columns and their lengths.\<close>

definition row_of :: "res_ptr \<Rightarrow> mysql_field list \<Rightarrow> mysql_row \<times> u64 list \<Rightarrow> row" where
  "row_of r infos = (\<lambda>(x, ls).
     \<lparr>row_result = r, row_native = x, row_fields = map2 make_field x ls,
      row_fields_info = infos\<rparr>)"

lemma build_fields_eq:
  assumes "i \<le> n"
  shows "build_fields r ls n i =
           (if i = n \<or> (n \<le> length r \<and> n \<le> length ls)
            then Some (map (\<lambda>j. make_field (r ! j) (ls ! j)) [i..<n]) else None)"
  using assms
proof (induction r ls n i rule: build_fields.induct)
  case (1 r ls n i)
  show ?case
  proof (cases "i < n \<and> i < length r \<and> i < length ls")
    case True
    then have "build_fields r ls n i =
        map_option ((#) (make_field (r ! i) (ls ! i))) (build_fields r ls n (Suc i))"
      by (simp add: build_fields.simps [of r ls n i])
    with True "1.IH" show ?thesis
      by (auto simp: upt_conv_Cons)
  next
    case False
    with "1.prems" show ?thesis by (auto simp: build_fields.simps [of r ls n i])
  qed
qed

lemma make_row_ok:
  assumes "length x = unat (c_mysql_num_fields A m r)" and "length ls = length x"
  shows "make_row A m r x ls infos = Some (row_of r infos (x, ls))"
proof -
  have "map (\<lambda>j. make_field (x ! j) (ls ! j)) [0..<length x] = map2 make_field x ls"
    using assms(2) by (intro nth_equalityI) simp_all
  with assms show ?thesis
    by (simp add: make_row_def build_fields_eq row_of_def)
qed

lemma fetch_fields_sequence:
  "field_sequence A m r fs m' \<Longrightarrow> fetch_fields A m r infos = Some (m', infos @ fs)"
proof (induction fs arbitrary: m infos)
  case Nil
  then show ?case by (simp add: fetch_fields.simps [of A m])
next
  case (Cons f fs)
  then show ?case by (auto simp: fetch_fields.simps [of A m] split: prod.splits option.splits)
qed

lemma fetch_rows_sequence:
  "row_sequence A m r xs m' \<Longrightarrow>
   fetch_rows A m r infos ec vs =
     Some (m', vs @ map (row_of r infos) xs, last_client_error A m')"
proof (induction xs arbitrary: m vs ec)
  case Nil
  then show ?case
    by (simp add: fetch_rows.simps [of A m] mysql_fetch_row_def error_wrapper_ptr_def)
next
  case (Cons a xs)
  obtain x ls where a: "a = (x, ls)" by (cases a)
  with Cons.prems obtain m1 where m1: "c_mysql_fetch_row A m r = (m1, Some x)"
    and ls: "c_mysql_fetch_lengths A m1 r = ls"
    and len: "length x = unat (c_mysql_num_fields A m1 r)" "length ls = length x"
    and rest: "row_sequence A m1 r xs m'"
    by (auto split: prod.splits option.splits)
  show ?case
    by (simp add: fetch_rows.simps [of A m] mysql_fetch_row_def m1 ls make_row_ok [OF len]
        Cons.IH [OF rest] a)
qed

section \<open>Properties\<close>

text \<open>
  C31. A fresh result set takes over a non-empty result completely: if the library delivers
  the descriptions \<open>infos\<close> and the rows \<open>xs\<close> and reports no error at the end, then
  \<open>assign\<close> returns, and the result set holds all rows in their order, each with all its
  columns and lengths, and all descriptions, and observes the result of the connection.
\<close>

theorem assign_complete:
  assumes "c_mysql_num_rows A m r \<noteq> 0"
    and "field_sequence A m r infos m1"
    and "row_sequence A m1 r xs m2"
    and "c_mysql_errno A m2 = 0"
  shows "\<exists>ec'. result_set_assign A m result_set_default (Shared b (Some r)) ec =
           Some (m2, \<lparr>rs_mysql = True, rs_weak = Weak b (Some r),
                      rs_values = Some (map (row_of r infos) xs),
                      rs_fields_info = Some infos\<rparr>, ec') \<and> \<not> failed ec'"
  using assms
  by (simp add: result_set_assign_def fetch_fields_sequence fetch_rows_sequence
      result_set_default_def)

definition sample_rows_read :: sample_server where
  "sample_rows_read =
     fst (sample_fetch_row (fst (sample_fetch_row (fst (sample_fetch_field sample_stored 1)) 1)) 1)"

theorem assign_complete_witness:
  "\<exists>ec'. map_option (\<lambda>(m, rs, ec). (rs, ec))
     (result_set_assign sample_api sample_stored result_set_default (Shared 0 (Some 1)) no_error) =
     Some (\<lparr>rs_mysql = True, rs_weak = Weak 0 (Some 1),
            rs_values = Some [\<lparr>row_result = 1, row_native = [c_str ''17''],
                               row_fields = [make_field (c_str ''17'') 2],
                               row_fields_info = [sample_column]\<rparr>,
                              \<lparr>row_result = 1, row_native = [None],
                               row_fields = [make_field None 0],
                               row_fields_info = [sample_column]\<rparr>],
            rs_fields_info = Some [sample_column]\<rparr>, ec')"
proof -
  have 1: "c_mysql_num_rows sample_api sample_stored 1 \<noteq> 0"
    by code_simp
  have 2: "field_sequence sample_api sample_stored 1 [sample_column]
             (fst (sample_fetch_field sample_stored 1))"
    by code_simp
  have 3: "row_sequence sample_api (fst (sample_fetch_field sample_stored 1)) 1
             [([c_str ''17''], [2]), ([None], [0])] sample_rows_read"
    by code_simp
  have 4: "c_mysql_errno sample_api sample_rows_read = 0"
    by code_simp
  show ?thesis
    using assign_complete [OF 1 2 3 4, of 0 no_error] by (auto simp: row_of_def)
qed

text \<open>
  C32. If the library reports an error when the rows run out, \<open>assign\<close> returns that error
  and leaves a result set that is expired and empty, and on which even \<open>begin()\<close> and
  \<open>end()\<close> dereference a null pointer.
\<close>

theorem assign_failure:
  assumes "c_mysql_num_rows A m r \<noteq> 0"
    and "field_sequence A m r infos m1"
    and "row_sequence A m1 r xs m2"
    and "c_mysql_errno A m2 \<noteq> 0"
  shows "\<exists>rs'. result_set_assign A m result_set_default (Shared b (Some r)) ec =
           Some (m2, rs', Error_code (c_mysql_errno A m2) Client_category) \<and>
         rs_expired rs' h \<and> rs_empty A m2 rs' h \<and> rs_rows rs' = Inl Null_dereference"
  using assms
  by (simp add: result_set_assign_def fetch_fields_sequence fetch_rows_sequence
      result_set_default_def rs_expired_def rs_empty_def rs_rows_def last_client_error_def
      failed_def Let_def)

theorem assign_failure_witness:
  "\<exists>rs'. map_option snd
     (result_set_assign sample_api (sample_stored\<lparr>sv_errno := 2013\<rparr>) result_set_default
        (Shared 0 (Some 1)) no_error) =
     Some (rs', Error_code 2013 Client_category) \<and> rs_rows rs' = Inl Null_dereference"
proof -
  let ?m = "sample_stored\<lparr>sv_errno := 2013\<rparr>"
  have 1: "c_mysql_num_rows sample_api ?m 1 \<noteq> 0"
    by code_simp
  have 2: "field_sequence sample_api ?m 1 [sample_column] (fst (sample_fetch_field ?m 1))"
    by code_simp
  have 3: "row_sequence sample_api (fst (sample_fetch_field ?m 1)) 1
             [([c_str ''17''], [2]), ([None], [0])] (sample_rows_read\<lparr>sv_errno := 2013\<rparr>)"
    by code_simp
  have 4: "c_mysql_errno sample_api (sample_rows_read\<lparr>sv_errno := 2013\<rparr>) \<noteq> 0"
    by code_simp
  have e: "c_mysql_errno sample_api (sample_rows_read\<lparr>sv_errno := 2013\<rparr>) = 2013"
    by code_simp
  show ?thesis
    using assign_failure [OF 1 2 3 4, of 0 no_error "\<lparr>next_block = 1, use_count = (\<lambda>_. 0)\<rparr>"]
    by (auto simp: e)
qed

lemma assign_null: "result_set_assign A m rs Empty_ptr ec = Some (m, rs\<lparr>rs_mysql := True\<rparr>, ec)"
  by (simp add: result_set_assign_def)

lemma assign_null_target:
  "sp_get sp = None \<Longrightarrow> result_set_assign A m rs sp ec = Some (m, rs\<lparr>rs_mysql := True\<rparr>, ec)"
  by (simp add: result_set_assign_def)

text \<open>
  Once the connection has dropped its result, every guarded access to a result set is
  refused: it is empty, has size zero and no native handle, and indexing it or asking for
  its field descriptions fails the assertion instead of reading freed memory.
\<close>

theorem expired_result_set:
  assumes "rs_expired rs h"
  shows "rs_size A m rs h = 0 \<and> rs_empty A m rs h \<and> rs_native rs h = None \<and>
         rs_at rs h i = Inl Assertion_failed \<and> rs_get_fields_info rs h = Inl Assertion_failed"
  using assms wp_lock_get_expired [of "rs_weak rs" h]
  by (simp add: rs_expired_def rs_size_def rs_empty_def rs_native_def rs_at_def
      rs_get_fields_info_def)

theorem expired_result_set_witness:
  "rs_at \<lparr>rs_mysql = True, rs_weak = Weak 0 (Some 1), rs_values = Some [],
          rs_fields_info = Some []\<rparr> \<lparr>next_block = 1, use_count = (\<lambda>_. 0)\<rparr> 0 =
   Inl Assertion_failed"
proof -
  have "rs_expired \<lparr>rs_mysql = True, rs_weak = Weak 0 (Some 1), rs_values = Some [],
          rs_fields_info = Some []\<rparr> \<lparr>next_block = 1, use_count = (\<lambda>_. 0)\<rparr>"
    by (simp add: rs_expired_def)
  from expired_result_set [OF this, of sample_api sample_stored 0] show ?thesis by simp
qed

lemma print_fields_eq:
  "n + i = length (row_fields rw) \<Longrightarrow>
   print_fields rw i n =
     Inr (concat (map (\<lambda>f. print_field f @ '' '') (drop i (row_fields rw))))"
proof (induction n arbitrary: i)
  case 0
  then show ?case by simp
next
  case (Suc n)
  then have "i < length (row_fields rw)" and "print_fields rw (Suc i) n =
      Inr (concat (map (\<lambda>f. print_field f @ '' '') (drop (Suc i) (row_fields rw))))"
    by simp_all
  then show ?case
    by (simp add: row_at_def vector_at_def flip: Cons_nth_drop_Suc)
qed

text \<open>
  Printing a row that was built by \<open>assign\<close> never throws: it prints every column in
  order, each up to its first NUL and followed by a space, and \<open>null\<close> for a null column.
\<close>

theorem print_row_complete:
  assumes "length x = unat (c_mysql_num_fields A m r)" and "length ls = length x"
  shows "print_row A m (row_of r infos (x, ls)) =
           Inr (concat (map (\<lambda>v. case v of None \<Rightarrow> ''null '' | Some bs \<Rightarrow> c_str_of bs @ '' '') x))"
proof -
  let ?rw = "row_of r infos (x, ls)"
  have n: "unat (row_size A m ?rw) = length (row_fields ?rw)"
    using assms by (simp add: row_size_def row_of_def)
  have "map (\<lambda>f. print_field f @ '' '') (row_fields ?rw) =
      map (\<lambda>v. case v of None \<Rightarrow> ''null '' | Some bs \<Rightarrow> c_str_of bs @ '' '') x"
    using assms(2)
    by (auto simp: row_of_def print_field_def make_field_def intro!: nth_equalityI
        split: option.splits)
  then show ?thesis
    by (simp add: print_row_def n print_fields_eq [of _ 0])
qed

theorem print_row_complete_witness:
  "print_row sample_api sample_stored (row_of 1 [sample_column] ([None], [0])) = Inr ''null ''"
proof -
  have "length [None] = unat (c_mysql_num_fields sample_api sample_stored 1)"
    by code_simp
  then show ?thesis
    using print_row_complete [of "[None]" sample_api sample_stored 1 "[0]" "[sample_column]"]
    by simp
qed

text \<open>
  Column flags: a column counts as having a default value unless it is \<open>NOT NULL\<close>,
  not \<open>AUTO_INCREMENT\<close>, and marked as having none.
\<close>

theorem has_default_value_iff:
  "\<not> has_default_value H f \<longleftrightarrow>
     fld_flags f AND NOT_NULL_FLAG H \<noteq> 0 \<and> fld_flags f AND AUTO_INCREMENT_FLAG H = 0 \<and>
     fld_flags f AND NO_DEFAULT_VALUE_FLAG H \<noteq> 0"
  by (auto simp: has_default_value_def is_nullable_def is_auto_increment_def)

end
