(* ===== verification/Result_Sharing.thy ===== *)
theory Result_Sharing
  imports Result_Set
begin

text \<open>
  Result sets as objects.  A \<open>result_set\<close> holds its rows through a \<open>shared_ptr\<close> to a vector, so
  that its copies share the vector, and \<open>assign\<close> appends to the vector in place.  The theory
  \<open>Result_Set\<close> gives the value of one result set; here the vectors live in a store, result sets
  have names, and a program copies, assigns and fills them in any order.

  The descriptions of the columns need no store: \<open>assign\<close> makes a new vector of them, fills it
  before anything else can refer to it, and nothing changes it afterwards.
\<close>

section \<open>Objects and the store\<close>

text \<open>
  \<open>obj_values\<close> is the address of the vector, \<open>None\<close> after a failed \<open>assign\<close>.  A vector that no
  object refers to any longer is left in the store; nothing can see it.
\<close>

record rs_object =
  obj_mysql :: bool
  obj_weak :: "res_ptr weak_ptr"
  obj_values :: "nat option"
  obj_info :: "mysql_field list option"

record row_store =
  next_vector :: nat
  vector_rows :: "nat \<Rightarrow> row list"

definition obj_view :: "row_store \<Rightarrow> rs_object \<Rightarrow> result_set" where
  "obj_view st ob =
     \<lparr>rs_mysql = obj_mysql ob, rs_weak = obj_weak ob,
      rs_values = map_option (vector_rows st) (obj_values ob), rs_fields_info = obj_info ob\<rparr>"

definition new_vector :: "row_store \<Rightarrow> nat \<times> row_store" where
  "new_vector st =
     (next_vector st,
      \<lparr>next_vector = Suc (next_vector st),
       vector_rows = (vector_rows st)(next_vector st := [])\<rparr>)"

text \<open>The two constructors that make a vector: without and with a handle of the library.\<close>

definition result_set_construct :: "bool \<Rightarrow> row_store \<Rightarrow> rs_object \<times> row_store" where
  "result_set_construct handle st =
     (case new_vector st of
        (a, st') \<Rightarrow>
          (\<lparr>obj_mysql = handle, obj_weak = Empty_weak, obj_values = Some a, obj_info = Some []\<rparr>,
           st'))"

definition result_set_copy :: "rs_object \<Rightarrow> rs_object" where
  "result_set_copy other =
     \<lparr>obj_mysql = obj_mysql other, obj_weak = obj_weak other, obj_values = obj_values other,
      obj_info = obj_info other\<rparr>"

definition result_set_copy_assign :: "rs_object \<Rightarrow> rs_object \<Rightarrow> rs_object" where
  "result_set_copy_assign this other =
     this\<lparr>obj_mysql := obj_mysql other, obj_weak := obj_weak other,
          obj_values := obj_values other, obj_info := obj_info other\<rparr>"

text \<open>
  \<open>assign\<close> with the vector in the store: \<open>push_back\<close> extends the vector at the address; when
  the rows end with an error the object lets go of its vector, which keeps the rows.
\<close>

definition object_assign ::
  "('m, 'a) mysql_api_scheme \<Rightarrow> 'm \<Rightarrow> row_store \<Rightarrow> rs_object \<Rightarrow> res_ptr shared_ptr \<Rightarrow>
     error_code \<Rightarrow> ('m \<times> row_store \<times> rs_object \<times> error_code) option" where
  "object_assign A m st ob sp ec =
     (let ob1 = ob\<lparr>obj_mysql := True\<rparr>
      in case sp_get sp of
           None \<Rightarrow> Some (m, st, ob1, ec)
         | Some r \<Rightarrow>
             (let ob2 = ob1\<lparr>obj_weak := wp_of sp\<rparr>
              in if c_mysql_num_rows A m r = 0 then Some (m, st, ob2, ec)
                 else case fetch_fields A m r [] of
                   None \<Rightarrow> None
                 | Some (m1, infos) \<Rightarrow>
                     (case obj_values ob2 of
                        None \<Rightarrow> None
                      | Some a \<Rightarrow>
                          (case fetch_rows A m1 r infos ec (vector_rows st a) of
                             None \<Rightarrow> None
                           | Some (m2, vs', ec') \<Rightarrow>
                               (let st' = st\<lparr>vector_rows := (vector_rows st)(a := vs')\<rparr>
                                in if failed ec'
                                   then Some (m2, st', ob2\<lparr>obj_values := None, obj_info := None,
                                                           obj_weak := Empty_weak\<rparr>, ec')
                                   else Some (m2, st', ob2\<lparr>obj_info := Some infos\<rparr>, ec'))))))"

text \<open>The form of \<open>assign\<close> without an error code throws what the other one reports.\<close>

definition object_assign_throwing ::
  "('m, 'a) mysql_api_scheme \<Rightarrow> 'm \<Rightarrow> row_store \<Rightarrow> rs_object \<Rightarrow> res_ptr shared_ptr \<Rightarrow>
     ('m \<times> row_store \<times> rs_object \<times> (system_error + unit)) option" where
  "object_assign_throwing A m st ob sp =
     map_option (\<lambda>(m', st', ob', ec). (m', st', ob', throw_error ec (c_mysql_error A m')))
       (object_assign A m st ob sp no_error)"

lemma obj_view_copy [simp]:
  "obj_view st (result_set_copy other) = obj_view st other"
  "obj_view st (result_set_copy_assign this other) = obj_view st other"
  by (simp_all add: obj_view_def result_set_copy_def result_set_copy_assign_def)

lemma obj_view_construct:
  "obj_view (snd (result_set_construct False st)) (fst (result_set_construct False st)) =
     result_set_default"
  "obj_view (snd (result_set_construct True st)) (fst (result_set_construct True st)) = empty_set"
  by (simp_all add: obj_view_def result_set_construct_def new_vector_def result_set_default_def
      empty_set_def)

section \<open>Rows are well formed\<close>

text \<open>
  The type invariant of a row, for any library: its native row was fetched from its result, and it
  has as many fields as the library then said that the result has columns, each made of the column
  of the native row at the same position and the length that came with it.
\<close>

definition row_ok :: "('m, 'a) mysql_api_scheme \<Rightarrow> row \<Rightarrow> bool" where
  "row_ok A rw \<longleftrightarrow>
     (\<exists>m m'. c_mysql_fetch_row A m (row_result rw) = (m', Some (row_native rw)) \<and>
        (let n = unat (c_mysql_num_fields A m' (row_result rw));
             ls = c_mysql_fetch_lengths A m' (row_result rw)
         in n \<le> length (row_native rw) \<and> n \<le> length ls \<and>
            row_fields rw = map (\<lambda>j. make_field (row_native rw ! j) (ls ! j)) [0..<n]))"

lemma make_row_row_ok:
  assumes "make_row A m' r x (c_mysql_fetch_lengths A m' r) infos = Some rw"
    and "c_mysql_fetch_row A m r = (m', Some x)"
  shows "row_ok A rw \<and> row_result rw = r"
proof -
  let ?n = "unat (c_mysql_num_fields A m' r)" and ?ls = "c_mysql_fetch_lengths A m' r"
  obtain fs where fs: "build_fields x ?ls ?n 0 = Some fs"
    and rw: "rw = \<lparr>row_result = r, row_native = x, row_fields = fs, row_fields_info = infos\<rparr>"
    using assms(1) by (auto simp: make_row_def)
  from fs have "fs = map (\<lambda>j. make_field (x ! j) (?ls ! j)) [0..<?n]" "?n \<le> length x" "?n \<le> length ?ls"
    by (auto simp: build_fields_eq split: if_splits)
  then show ?thesis
    using assms(2) by (simp add: rw row_ok_def Let_def) blast
qed

text \<open>\<open>fetch_rows\<close> only appends, and what it appends is well formed.\<close>

definition appended ::
  "('m, 'a) mysql_api_scheme \<Rightarrow> res_ptr \<Rightarrow> row list \<Rightarrow> row list \<Rightarrow> bool" where
  "appended A r vs vs' \<longleftrightarrow> (\<exists>ws. vs' = vs @ ws \<and> (\<forall>rw \<in> set ws. row_ok A rw \<and> row_result rw = r))"

lemma appended_refl [simp]: "appended A r vs vs"
  by (simp add: appended_def)

lemma appended_snoc: "appended A r (vs @ [rw]) vs' \<Longrightarrow> row_ok A rw \<Longrightarrow> row_result rw = r \<Longrightarrow> appended A r vs vs'"
  by (auto simp: appended_def)

lemma fetch_rows_appends:
  fixes A :: "('m, 'a) mysql_api_scheme"
  assumes "fetch_rows A m r infos ec vs = Some y"
  shows "appended A r vs (fst (snd y))"
proof (rule fetch_rows.raw_induct [OF _ assms])
  fix f and A :: "('m, 'a) mysql_api_scheme" and m r infos ec vs y
  assume IH: "\<And>A m r infos ec vs y. f A m r infos ec vs = Some y \<Longrightarrow> appended A r vs (fst (snd y))"
    and body: "(case mysql_fetch_row A m r ec of
        (m', None, ec') \<Rightarrow> Some (m', vs, ec')
      | (m', Some x, ec') \<Rightarrow>
          (case make_row A m' r x (c_mysql_fetch_lengths A m' r) infos of
             None \<Rightarrow> None
           | Some rw \<Rightarrow> f A m' r infos ec' (vs @ [rw]))) = Some y"
  obtain m' ro ec' where step: "mysql_fetch_row A m r ec = (m', ro, ec')"
    by (cases "mysql_fetch_row A m r ec")
  show "appended A r vs (fst (snd y))"
  proof (cases ro)
    case None
    then show ?thesis using body step by auto
  next
    case (Some x)
    show ?thesis
    proof (cases "make_row A m' r x (c_mysql_fetch_lengths A m' r) infos")
      case None
      then show ?thesis using body step Some by simp
    next
      case (Some rw)
      then have "f A m' r infos ec' (vs @ [rw]) = Some y"
        using body step \<open>ro = Some x\<close> by simp
      moreover have "c_mysql_fetch_row A m r = (m', Some x)"
        using step \<open>ro = Some x\<close> by (auto simp: mysql_fetch_row_def split: prod.splits)
      ultimately show ?thesis using IH make_row_row_ok [OF Some] appended_snoc by blast
    qed
  qed
qed

text \<open>
  The value of \<open>assign\<close> and \<open>assign\<close> in the store agree: on the object itself the store makes no
  difference.
\<close>

definition object_result :: "'m \<times> row_store \<times> rs_object \<times> error_code \<Rightarrow> 'm \<times> result_set \<times> error_code"
where
  "object_result = (\<lambda>(m, st, ob, ec). (m, obj_view st ob, ec))"

lemma object_assign_value:
  "map_option object_result (object_assign A m st ob sp ec) =
     result_set_assign A m (obj_view st ob) sp ec"
  by (cases "obj_values ob")
     (auto simp: object_assign_def result_set_assign_def object_result_def obj_view_def Let_def
       split: option.splits prod.splits)

text \<open>What \<open>assign\<close> does to the store: it appends rows to the vector of the object.\<close>

lemma object_assign_store:
  assumes "object_assign A m st ob sp ec = Some (m', st', ob', ec')"
  shows "next_vector st' = next_vector st \<and>
         (\<forall>a. obj_values ob \<noteq> Some a \<longrightarrow> vector_rows st' a = vector_rows st a) \<and>
         (\<forall>a. obj_values ob = Some a \<longrightarrow>
            (\<exists>r. appended A r (vector_rows st a) (vector_rows st' a))) \<and>
         (obj_values ob' = obj_values ob \<or> obj_values ob' = None)"
proof (cases "\<exists>r m1 infos a m2 vs'. sp_get sp = Some r \<and> c_mysql_num_rows A m r \<noteq> 0 \<and>
    fetch_fields A m r [] = Some (m1, infos) \<and> obj_values ob = Some a \<and>
    fetch_rows A m1 r infos ec (vector_rows st a) = Some (m2, vs', ec')")
  case True
  then obtain r m1 infos a m2 vs' where f: "sp_get sp = Some r" "c_mysql_num_rows A m r \<noteq> 0"
    "fetch_fields A m r [] = Some (m1, infos)" "obj_values ob = Some a"
    "fetch_rows A m1 r infos ec (vector_rows st a) = Some (m2, vs', ec')"
    by blast
  from fetch_rows_appends [OF f(5)] have "appended A r (vector_rows st a) vs'" by simp
  moreover have "st' = st\<lparr>vector_rows := (vector_rows st)(a := vs')\<rparr>"
    and "obj_values ob' = (if failed ec' then None else Some a)"
    using assms f by (auto simp: object_assign_def Let_def split: if_splits)
  ultimately show ?thesis using f(4) by auto
next
  case False
  then have "st' = st" "obj_values ob' = obj_values ob"
    using assms by (auto simp: object_assign_def Let_def split: option.splits if_splits)
  then show ?thesis by (auto intro: exI [of _ 0])
qed

section \<open>Programs with result sets\<close>

record rs_program =
  objects :: "nat \<Rightarrow> rs_object option"
  rows_store :: row_store

definition empty_program :: rs_program where
  "empty_program =
     \<lparr>objects = (\<lambda>_. None), rows_store = \<lparr>next_vector = 0, vector_rows = (\<lambda>_. [])\<rparr>\<rparr>"

text \<open>
  The objects are named; a constructor makes a new name, and between two calls of \<open>assign\<close> the
  library may have come into any state.
\<close>

inductive share_step :: "('m, 'a) mysql_api_scheme \<Rightarrow> rs_program \<Rightarrow> rs_program \<Rightarrow> bool" for A where
  share_construct:
    "result_set_construct handle (rows_store P) = (ob, st') \<Longrightarrow>
     share_step A P \<lparr>objects = (objects P)(n := Some ob), rows_store = st'\<rparr>"
| share_copy:
    "objects P k = Some ob \<Longrightarrow>
     share_step A P (P\<lparr>objects := (objects P)(n := Some (result_set_copy ob))\<rparr>)"
| share_copy_assign:
    "objects P n = Some this \<Longrightarrow> objects P k = Some other \<Longrightarrow>
     share_step A P (P\<lparr>objects := (objects P)(n := Some (result_set_copy_assign this other))\<rparr>)"
| share_assign:
    "objects P n = Some ob \<Longrightarrow>
     object_assign A m (rows_store P) ob sp ec = Some (m', st', ob', ec') \<Longrightarrow>
     share_step A P \<lparr>objects = (objects P)(n := Some ob'), rows_store = st'\<rparr>"
| share_destroy: "share_step A P (P\<lparr>objects := (objects P)(n := None)\<rparr>)"

inductive share_run :: "('m, 'a) mysql_api_scheme \<Rightarrow> rs_program \<Rightarrow> bool" for A where
  share_run_empty: "share_run A empty_program"
| share_run_step: "share_run A P \<Longrightarrow> share_step A P P' \<Longrightarrow> share_run A P'"

text \<open>
  The typing of a program: addresses are allocated, the two pointers of an object are null
  together, and the vectors hold well-formed rows.
\<close>

definition object_typed :: "row_store \<Rightarrow> rs_object \<Rightarrow> bool" where
  "object_typed st ob \<longleftrightarrow>
     (obj_values ob = None \<longleftrightarrow> obj_info ob = None) \<and>
     (\<forall>a. obj_values ob = Some a \<longrightarrow> a < next_vector st)"

definition store_typed :: "('m, 'a) mysql_api_scheme \<Rightarrow> row_store \<Rightarrow> bool" where
  "store_typed A st \<longleftrightarrow> (\<forall>a < next_vector st. \<forall>rw \<in> set (vector_rows st a). row_ok A rw)"

definition program_typed :: "('m, 'a) mysql_api_scheme \<Rightarrow> rs_program \<Rightarrow> bool" where
  "program_typed A P \<longleftrightarrow>
     store_typed A (rows_store P) \<and>
     (\<forall>n ob. objects P n = Some ob \<longrightarrow> object_typed (rows_store P) ob)"

lemma object_typed_mono:
  "object_typed st ob \<Longrightarrow> next_vector st \<le> next_vector st' \<Longrightarrow> object_typed st' ob"
  by (auto simp: object_typed_def)

lemma program_typed_update:
  assumes "program_typed A P" and "store_typed A st'" and "next_vector (rows_store P) \<le> next_vector st'"
    and "object_typed st' ob"
  shows "program_typed A \<lparr>objects = (objects P)(n := Some ob), rows_store = st'\<rparr>"
  using assms by (auto simp: program_typed_def intro: object_typed_mono)

lemma result_set_construct_typed:
  assumes "result_set_construct handle st = (ob, st')" and "store_typed A st"
  shows "store_typed A st' \<and> next_vector st \<le> next_vector st' \<and> object_typed st' ob"
  using assms
  by (auto simp: result_set_construct_def new_vector_def store_typed_def object_typed_def
      less_Suc_eq)

lemma object_assign_null_together:
  assumes "object_assign A m st ob sp ec = Some (m', st', ob', ec')"
    and "obj_values ob = None \<longleftrightarrow> obj_info ob = None"
  shows "obj_values ob' = None \<longleftrightarrow> obj_info ob' = None"
  using assms by (auto simp: object_assign_def Let_def split: option.splits if_splits)

lemma object_assign_typed:
  assumes "object_assign A m st ob sp ec = Some (m', st', ob', ec')"
    and "store_typed A st" and "object_typed st ob"
  shows "store_typed A st' \<and> next_vector st' = next_vector st \<and> object_typed st' ob'"
proof -
  note st = object_assign_store [OF assms(1)]
  have "row_ok A rw" if "a < next_vector st'" "rw \<in> set (vector_rows st' a)" for a rw
  proof (cases "obj_values ob = Some a")
    case True
    then obtain r where "appended A r (vector_rows st a) (vector_rows st' a)" using st by blast
    then show ?thesis using that assms(2) st by (auto simp: appended_def store_typed_def)
  next
    case False
    then show ?thesis using that assms(2) st by (auto simp: store_typed_def)
  qed
  moreover have "object_typed st' ob'"
    using st assms(3) object_assign_null_together [OF assms(1)] by (auto simp: object_typed_def)
  ultimately show ?thesis using st by (auto simp: store_typed_def)
qed

lemma share_step_typed: "share_step A P P' \<Longrightarrow> program_typed A P \<Longrightarrow> program_typed A P'"
proof (induction rule: share_step.induct)
  case (share_construct handle P ob st' n)
  then show ?case
    using result_set_construct_typed program_typed_update by (metis program_typed_def)
next
  case (share_copy P k ob n)
  then show ?case
    by (auto simp: program_typed_def object_typed_def result_set_copy_def)
next
  case (share_copy_assign P n this k other)
  then show ?case
    by (auto simp: program_typed_def object_typed_def result_set_copy_assign_def)
next
  case (share_assign P n ob m sp ec m' st' ob' ec')
  then have "store_typed A (rows_store P)" "object_typed (rows_store P) ob"
    by (auto simp: program_typed_def)
  from object_assign_typed [OF share_assign.hyps(2) this] show ?case
    using program_typed_update [OF share_assign.prems] by simp
next
  case (share_destroy P n)
  then show ?case by (auto simp: program_typed_def)
qed

lemma share_run_typed: "share_run A P \<Longrightarrow> program_typed A P"
proof (induction rule: share_run.induct)
  case share_run_empty
  then show ?case by (simp add: program_typed_def store_typed_def empty_program_def)
qed (rule share_step_typed)

lemma object_assign_frame:
  assumes "object_assign A m st ob sp ec = Some (m', st', ob', ec')"
    and "obj_values other \<noteq> obj_values ob"
  shows "obj_view st' other = obj_view st other"
  using object_assign_store [OF assms(1)] assms(2)
  by (cases "obj_values other") (auto simp: obj_view_def)

lemma object_assign_complete:
  assumes "c_mysql_num_rows A m r \<noteq> 0"
    and "field_sequence A m r infos m1"
    and "row_sequence A m1 r xs m2"
    and "c_mysql_errno A m2 = 0"
    and "obj_values ob = Some a"
  shows "\<exists>ec'. object_assign A m st ob (Shared b (Some r)) ec =
           Some (m2,
             st\<lparr>vector_rows := (vector_rows st)(a := vector_rows st a @ map (row_of r infos) xs)\<rparr>,
             ob\<lparr>obj_mysql := True, obj_weak := Weak b (Some r), obj_info := Some infos\<rparr>, ec')"
  using assms by (simp add: object_assign_def fetch_fields_sequence fetch_rows_sequence)

section \<open>Properties\<close>

text \<open>
  C25. The rows of a result set are well typed: whatever a program does with result sets and
  whatever the library answers, every row that is reached through one of them was fetched from its
  result and holds all the columns that the library said the result has: access by index yields
  the column of the native row with its length, for each of them, and is refused for every other
  index.  The two pointers of the result set are null together.
\<close>

theorem result_sets_well_typed:
  assumes "share_run A P" and "objects P n = Some ob"
    and "rs_rows (obj_view (rows_store P) ob) = Inr rows" and "rw \<in> set rows"
  shows "obj_info ob \<noteq> None \<and>
         (\<exists>m m'. c_mysql_fetch_row A m (row_result rw) = (m', Some (row_native rw)) \<and>
            (let k = unat (c_mysql_num_fields A m' (row_result rw));
                 ls = c_mysql_fetch_lengths A m' (row_result rw)
             in length (row_fields rw) = k \<and> k \<le> length (row_native rw) \<and>
                (\<forall>i. row_at rw i =
                   (if 0 \<le> i \<and> nat i < k then Inr (make_field (row_native rw ! nat i) (ls ! nat i))
                    else Inl Out_of_range)) \<and>
                (length (row_native rw) = k \<longrightarrow> map value_str (row_fields rw) = row_native rw)))"
proof -
  obtain a where a: "obj_values ob = Some a" "rows = vector_rows (rows_store P) a"
    using assms(3) by (auto simp: rs_rows_def obj_view_def split: option.splits)
  have "object_typed (rows_store P) ob" "store_typed A (rows_store P)"
    using share_run_typed [OF assms(1)] assms(2) by (auto simp: program_typed_def)
  then have info: "obj_info ob \<noteq> None" and ok: "row_ok A rw"
    using a assms(4) by (auto simp: object_typed_def store_typed_def)
  from ok obtain m m' where f: "c_mysql_fetch_row A m (row_result rw) = (m', Some (row_native rw))"
    and n: "unat (c_mysql_num_fields A m' (row_result rw)) \<le> length (row_native rw)"
    and fields: "row_fields rw =
      map (\<lambda>j. make_field (row_native rw ! j) (c_mysql_fetch_lengths A m' (row_result rw) ! j))
        [0..<unat (c_mysql_num_fields A m' (row_result rw))]"
    unfolding row_ok_def Let_def by blast
  have "length (row_native rw) = unat (c_mysql_num_fields A m' (row_result rw)) \<longrightarrow>
      map value_str (row_fields rw) = row_native rw"
    by (auto simp: fields make_field_def intro!: nth_equalityI)
  then show ?thesis
    using info f n by (auto simp: fields row_at_def vector_at_def Let_def)
qed

text \<open>
  C33. \<open>assign\<close> does not start with an empty vector and shares it with the copies: the rows of the
  new result are appended to those the object had, whose result may be gone, and every copy of
  the object shows them too, although it still observes the old result and its descriptions.
\<close>

theorem assign_extends_copies:
  assumes "c_mysql_num_rows A m r \<noteq> 0"
    and "field_sequence A m r infos m1"
    and "row_sequence A m1 r xs m2"
    and "c_mysql_errno A m2 = 0"
    and "obj_values ob = Some a" and "obj_values other = Some a"
  shows "\<exists>st' ob' ec'. object_assign A m st ob (Shared b (Some r)) ec = Some (m2, st', ob', ec') \<and>
           rs_rows (obj_view st' ob') = Inr (vector_rows st a @ map (row_of r infos) xs) \<and>
           rs_rows (obj_view st' other) = Inr (vector_rows st a @ map (row_of r infos) xs) \<and>
           rs_native (obj_view st' other) h = rs_native (obj_view st other) h \<and>
           rs_fields_info (obj_view st' other) = rs_fields_info (obj_view st other)"
  using object_assign_complete [OF assms(1-5), of st b ec] assms(5,6)
  by (auto simp: rs_rows_def obj_view_def rs_native_def)

subsection \<open>A program that uses a result set twice\<close>

definition sample_object :: rs_object where
  "sample_object = fst (result_set_construct True (rows_store empty_program))"

definition sample_first_store :: row_store where
  "sample_first_store = snd (result_set_construct True (rows_store empty_program))"

definition sample_rows :: "(mysql_row \<times> u64 list) list" where
  "sample_rows = [([c_str ''17''], [2]), ([None], [0])]"

lemma sample_delivers:
  "c_mysql_num_rows sample_api sample_stored 1 \<noteq> 0"
  "field_sequence sample_api sample_stored 1 [sample_column] (fst (sample_fetch_field sample_stored 1))"
  "row_sequence sample_api (fst (sample_fetch_field sample_stored 1)) 1 sample_rows sample_rows_read"
  "c_mysql_errno sample_api sample_rows_read = 0"
  by code_simp+

lemma sample_object_values: "obj_values sample_object = Some 0" "vector_rows sample_first_store 0 = []"
  by (simp_all add: sample_object_def sample_first_store_def result_set_construct_def new_vector_def
      empty_program_def)

theorem result_sets_well_typed_witness:
  "\<exists>P ob rw f. share_run sample_api P \<and> objects P 0 = Some ob \<and>
     rs_rows (obj_view (rows_store P) ob) = Inr (map (row_of 1 [sample_column]) sample_rows) \<and>
     rw = row_of 1 [sample_column] ([c_str ''17''], [2]) \<and>
     row_at rw 0 = Inr f \<and> value_str f = c_str ''17'' \<and> row_at rw 1 = Inl Out_of_range"
proof -
  let ?P = "\<lparr>objects = (\<lambda>_. None)(0 := Some sample_object), rows_store = sample_first_store\<rparr>"
  let ?rw = "row_of 1 [sample_column] ([c_str ''17''], [2])"
  have "share_step sample_api empty_program
      \<lparr>objects = (objects empty_program)(0 := Some sample_object), rows_store = sample_first_store\<rparr>"
    by (rule share_construct [where handle = True])
       (simp add: sample_object_def sample_first_store_def)
  then have 1: "share_run sample_api ?P"
    using share_run_step [OF share_run_empty] by (simp add: empty_program_def)
  obtain st' ob' ec' where fill:
    "object_assign sample_api sample_stored sample_first_store sample_object (Shared 0 (Some 1))
       no_error = Some (sample_rows_read, st', ob', ec')"
    and rows: "rs_rows (obj_view st' ob') = Inr (map (row_of 1 [sample_column]) sample_rows)"
    using object_assign_complete [OF sample_delivers sample_object_values(1),
        of sample_first_store 0 no_error] sample_object_values
    by (auto simp: rs_rows_def obj_view_def)
  let ?Q = "\<lparr>objects = (objects ?P)(0 := Some ob'), rows_store = st'\<rparr>"
  have 2: "share_run sample_api ?Q"
    using share_run_step [OF 1 share_assign [OF _ , of ?P 0 sample_object]] fill by simp
  have "?rw \<in> set (map (row_of 1 [sample_column]) sample_rows)" by (simp add: sample_rows_def)
  then obtain m' where k: "length (row_fields ?rw) = unat (c_mysql_num_fields sample_api m' 1)"
    and at: "\<And>i. row_at ?rw i =
        (if 0 \<le> i \<and> nat i < unat (c_mysql_num_fields sample_api m' 1)
         then Inr (make_field (row_native ?rw ! nat i) (c_mysql_fetch_lengths sample_api m' 1 ! nat i))
         else Inl Out_of_range)"
    using result_sets_well_typed [OF 2, of 0 ob' "map (row_of 1 [sample_column]) sample_rows" ?rw] rows
    by (auto simp: Let_def row_of_def)
  have "unat (c_mysql_num_fields sample_api m' 1) = 1" using k by (simp add: row_of_def)
  then have "row_at ?rw 1 = Inl Out_of_range"
    and "row_at ?rw 0 = Inr (make_field (row_native ?rw ! 0) (c_mysql_fetch_lengths sample_api m' 1 ! 0))"
    using at [of 0] at [of 1] by simp_all
  moreover have "row_native ?rw ! 0 = c_str ''17''" by (simp add: row_of_def)
  ultimately show ?thesis
    using rows 2 by (intro exI [of _ ?Q] exI [of _ ob'] exI [of _ ?rw] exI) (auto simp: make_field_def)
qed

theorem assign_extends_copies_witness:
  "\<exists>st' ob' ec'. object_assign sample_api sample_stored sample_first_store sample_object
       (Shared 0 (Some 1)) no_error = Some (sample_rows_read, st', ob', ec') \<and>
     rs_rows (obj_view st' (result_set_copy sample_object)) =
       Inr (map (row_of 1 [sample_column]) sample_rows) \<and>
     rs_native (obj_view st' (result_set_copy sample_object)) \<lparr>next_block = 0, use_count = (\<lambda>_. 0)\<rparr> = None"
proof -
  have copy: "obj_values (result_set_copy sample_object) = Some 0"
    by (simp add: result_set_copy_def sample_object_values)
  have "rs_native (obj_view sample_first_store (result_set_copy sample_object)) \<lparr>next_block = 0, use_count = (\<lambda>_. 0)\<rparr> = None"
    by (simp add: rs_native_def obj_view_def result_set_copy_def sample_object_def
        result_set_construct_def new_vector_def)
  then show ?thesis
    using assign_extends_copies [OF sample_delivers sample_object_values(1) copy,
        of sample_first_store 0 no_error "\<lparr>next_block = 0, use_count = (\<lambda>_. 0)\<rparr>"]
    by (auto simp: sample_object_values)
qed

end
