(* ===== verification/Mysql_Service.thy ===== *)
theory Mysql_Service
  imports Connection_Args Result_Set
begin

text \<open>
  The connection state and the blocking operations of \<open>mysql_service\<close>
  (\<open>mysql_service.hpp\<close>, \<open>impl/mysql_service.ipp\<close>).

  The record \<open>implementation\<close> is the struct of the same name; it extends the control blocks
  of \<open>Shared_Ptr\<close>, which stand for the part of the C++ heap its shared pointers live in.
  The definitions are stated for every extension of the record, so that the asynchronous
  service and the MariaDB connection, which add fields, use them unchanged.
\<close>

record 'm implementation = cpp_heap +
  mysql :: 'm
  flags :: u64
  initialized :: bool
  first_result_stored :: bool
  last_result :: "res_ptr shared_ptr"
  cancelation_token :: "unit shared_ptr"

section \<open>Members of the struct\<close>

text \<open>
  \<open>free_result\<close> resets \<open>last_result\<close>; the deleter \<open>result_set_deleter\<close> frees the result of
  the library when the last owner goes and the pointer is not null.
\<close>

definition result_set_deleter ::
  "('m, 'a) mysql_api_scheme \<Rightarrow> res_ptr option \<Rightarrow> ('m, 'z) implementation_scheme \<Rightarrow>
     ('m, 'z) implementation_scheme" where
  "result_set_deleter A p s =
     (case p of None \<Rightarrow> s | Some r \<Rightarrow> s\<lparr>mysql := c_mysql_free_result A (mysql s) r\<rparr>)"

definition free_result ::
  "('m, 'a) mysql_api_scheme \<Rightarrow> ('m, 'z) implementation_scheme \<Rightarrow>
     ('m, 'z) implementation_scheme" where
  "free_result A s =
     (let (s1, dropped) = sp_release (last_result s) s
      in result_set_deleter A dropped (s1\<lparr>last_result := Empty_ptr\<rparr>))"

text \<open>
  \<open>last_result.reset(r, result_set_deleter())\<close>: the new control block is made first, then
  the old owner goes.
\<close>

definition reset_last_result ::
  "('m, 'a) mysql_api_scheme \<Rightarrow> res_ptr option \<Rightarrow> ('m, 'z) implementation_scheme \<Rightarrow>
     ('m, 'z) implementation_scheme" where
  "reset_last_result A r s =
     (let (lr, s1) = sp_make r s;
          (s2, dropped) = sp_release (last_result s1) s1
      in result_set_deleter A dropped (s2\<lparr>last_result := lr\<rparr>))"

text \<open>
  \<open>cancel\<close> replaces the token by a new one; the deleter of the old one does nothing.
\<close>

definition cancel :: "('m, 'z) implementation_scheme \<Rightarrow> ('m, 'z) implementation_scheme" where
  "cancel s =
     (let (ct, s1) = sp_make None s;
          (s2, dropped) = sp_release (cancelation_token s1) s1
      in s2\<lparr>cancelation_token := ct\<rparr>)"

definition new_implementation :: "'m \<Rightarrow> cpp_heap \<Rightarrow> 'm implementation" where
  "new_implementation m h =
     (let (lr, h1) = sp_make None h; (ct, h2) = sp_make None h1
      in \<lparr>next_block = next_block h2, use_count = use_count h2,
          mysql = m, flags = default_flags, initialized = False, first_result_stored = False,
          last_result = lr, cancelation_token = ct\<rparr>)"

definition close_implementation ::
  "('m, 'a) mysql_api_scheme \<Rightarrow> ('m, 'z) implementation_scheme \<Rightarrow>
     ('m, 'z) implementation_scheme" where
  "close_implementation A s =
     (let s1 = (if initialized s
                then s\<lparr>mysql := c_mysql_close A (mysql s), initialized := False\<rparr> else s)
      in cancel (free_result A (s1\<lparr>first_result_stored := False\<rparr>)))"

section \<open>The operations of the service\<close>

definition ms_is_open :: "('m, 'z) implementation_scheme \<Rightarrow> bool" where
  "ms_is_open s \<longleftrightarrow> initialized s"

definition ms_error_message ::
  "('m, 'a) mysql_api_scheme \<Rightarrow> (i32 \<Rightarrow> string) \<Rightarrow> ('m, 'z) implementation_scheme \<Rightarrow>
     error_code \<Rightarrow> string option" where
  "ms_error_message A sys s ec =
     (if c_mysql_errno A (mysql s) = ec_value ec then Some (c_mysql_error A (mysql s))
      else ec_message A sys ec)"

definition ms_open ::
  "('m, 'a) mysql_api_scheme \<Rightarrow> ('m, 'z) implementation_scheme \<Rightarrow> error_code \<Rightarrow>
     ('m, 'z) implementation_scheme \<times> error_code" where
  "ms_open A s ec =
     (let ec0 = clear_error ec
      in if \<not> ms_is_open s
         then let (m, ok, ec1) = mysql_init A (mysql s) ec0
              in (s\<lparr>mysql := m, initialized := ok\<rparr>, ec1)
         else (s, ec0))"

definition ms_close ::
  "('m, 'a) mysql_api_scheme \<Rightarrow> ('m, 'z) implementation_scheme \<Rightarrow>
     ('m, 'z) implementation_scheme" where
  "ms_close A s = (if ms_is_open s then close_implementation A s else s)"

definition ms_destroy ::
  "('m, 'a) mysql_api_scheme \<Rightarrow> ('m, 'z) implementation_scheme \<Rightarrow>
     ('m, 'z) implementation_scheme" where
  "ms_destroy A s = ms_close A s"

definition ms_cancel :: "('m, 'z) implementation_scheme \<Rightarrow> ('m, 'z) implementation_scheme" where
  "ms_cancel s = cancel s"

text \<open>
  \<open>set_option\<close> notes that the connection is not open and goes on all the same: there is no
  \<open>return\<close> after the assignment.
\<close>

definition ms_set_option ::
  "('m, 'a) mysql_api_scheme \<Rightarrow> ('m, 'z) implementation_scheme \<Rightarrow> mysql_option \<Rightarrow> error_code \<Rightarrow>
     ('m, 'z) implementation_scheme \<times> error_code" where
  "ms_set_option A s opt ec =
     (let ec1 = (if \<not> ms_is_open s then misc_error_code Not_initialized else ec);
          (m, ec2) = mysql_options A (mysql s) (option_number opt) (option_data opt) ec1
      in (s\<lparr>mysql := m\<rparr>, ec2))"

definition ms_connect ::
  "('m, 'a) mysql_api_scheme \<Rightarrow> ('m, 'z) implementation_scheme \<Rightarrow> endpoint \<Rightarrow> auth_info \<Rightarrow>
     string \<Rightarrow> u64 \<Rightarrow> error_code \<Rightarrow> ('m, 'z) implementation_scheme \<times> error_code" where
  "ms_connect A s ep auth database client_flag ec =
     (let (s1, ec1, stop) =
            (if \<not> ms_is_open s then let (s', ec') = ms_open A s ec in (s', ec', failed ec')
             else (s, ec, False))
      in if stop then (s1, ec1)
         else let (m, _, ec2) =
                mysql_real_connect A (mysql s1) (ep_host ep) (user auth) (password auth)
                  (c_str database) (ep_port ep) (ep_unix_socket ep) client_flag ec1
              in (s1\<lparr>mysql := m, flags := client_flag\<rparr>, ec2))"

definition ms_query ::
  "('m, 'a) mysql_api_scheme \<Rightarrow> ('m, 'z) implementation_scheme \<Rightarrow> string \<Rightarrow> error_code \<Rightarrow>
     ('m, 'z) implementation_scheme \<times> error_code" where
  "ms_query A s stmt ec =
     (if \<not> ms_is_open s then (s, misc_error_code Not_initialized)
      else let s1 = (free_result A s)\<lparr>first_result_stored := False\<rparr>;
               (m, _, ec1) =
                 mysql_real_query A (mysql s1) (c_str stmt) (of_nat (length stmt)) ec
           in (s1\<lparr>mysql := m\<rparr>, ec1))"

definition ms_has_more_results ::
  "('m, 'a) mysql_api_scheme \<Rightarrow> ('m, 'z) implementation_scheme \<Rightarrow> bool" where
  "ms_has_more_results A s \<longleftrightarrow>
     (if \<not> ms_is_open s then False
      else if multi_results_enabled A (flags s)
           then \<not> first_result_stored s \<or> mysql_more_results A (mysql s)
           else \<not> first_result_stored s \<and> mysql_field_count A (mysql s) \<noteq> 0)"

text \<open>
  \<open>store_result\<close>, cut where the source fetches the result: \<open>next_result\<close> makes the next
  result the current one, \<open>take_result\<close> stores it.
\<close>

definition ms_next_result ::
  "('m, 'a) mysql_api_scheme \<Rightarrow> ('m, 'z) implementation_scheme \<Rightarrow> error_code \<Rightarrow>
     ('m, 'z) implementation_scheme \<times> error_code" where
  "ms_next_result A s ec =
     (if first_result_stored s
      then let s1 = free_result A s
           in if \<not> ms_has_more_results A s1 then (s1, misc_error_code No_more_results)
              else let (m, _, ec1) = mysql_next_result A (mysql s1) ec
                   in (s1\<lparr>mysql := m\<rparr>, ec1)
      else (s\<lparr>first_result_stored := True\<rparr>, ec))"

definition ms_take_result ::
  "('m, 'a) mysql_api_scheme \<Rightarrow> ('m, 'z) implementation_scheme \<Rightarrow> error_code \<Rightarrow>
     (('m, 'z) implementation_scheme \<times> result_set \<times> error_code) option" where
  "ms_take_result A s ec =
     (let (m, r, ec1) = mysql_store_result A (mysql s) ec;
          s1 = reset_last_result A r (s\<lparr>mysql := m\<rparr>)
      in case result_set_assign A (mysql s1) result_set_default (last_result s1) ec1 of
           None \<Rightarrow> None
         | Some (m', rs, ec2) \<Rightarrow> Some (s1\<lparr>mysql := m'\<rparr>, rs, ec2))"

definition ms_store_result ::
  "('m, 'a) mysql_api_scheme \<Rightarrow> ('m, 'z) implementation_scheme \<Rightarrow> error_code \<Rightarrow>
     (('m, 'z) implementation_scheme \<times> result_set \<times> error_code) option" where
  "ms_store_result A s ec =
     (let (s1, ec1) = ms_next_result A s ec
      in if failed ec1 then Some (s1, empty_set, ec1) else ms_take_result A s1 ec1)"

text \<open>\<open>autocommit\<close>, unlike \<open>commit\<close> and \<open>rollback\<close>, does not ask whether the connection is open.\<close>

definition ms_autocommit ::
  "('m, 'a) mysql_api_scheme \<Rightarrow> ('m, 'z) implementation_scheme \<Rightarrow> bool \<Rightarrow> error_code \<Rightarrow>
     ('m, 'z) implementation_scheme \<times> error_code" where
  "ms_autocommit A s mode ec =
     (let (m, ec1) = mysql_autocommit A (mysql s) mode ec in (s\<lparr>mysql := m\<rparr>, ec1))"

definition ms_commit ::
  "('m, 'a) mysql_api_scheme \<Rightarrow> ('m, 'z) implementation_scheme \<Rightarrow> error_code \<Rightarrow>
     ('m, 'z) implementation_scheme \<times> error_code" where
  "ms_commit A s ec =
     (if \<not> ms_is_open s then (s, misc_error_code Not_initialized)
      else let (m, ec1) = mysql_commit A (mysql s) ec in (s\<lparr>mysql := m\<rparr>, ec1))"

definition ms_rollback ::
  "('m, 'a) mysql_api_scheme \<Rightarrow> ('m, 'z) implementation_scheme \<Rightarrow> error_code \<Rightarrow>
     ('m, 'z) implementation_scheme \<times> error_code" where
  "ms_rollback A s ec =
     (if \<not> ms_is_open s then (s, misc_error_code Not_initialized)
      else let (m, ec1) = mysql_rollback A (mysql s) ec in (s\<lparr>mysql := m\<rparr>, ec1))"

definition ms_affected_rows ::
  "('m, 'a) mysql_api_scheme \<Rightarrow> ('m, 'z) implementation_scheme \<Rightarrow> u64" where
  "ms_affected_rows A s = c_mysql_affected_rows A (mysql s)"

section \<open>The invariant of the connection\<close>

text \<open>
  The connection is the only owner of its last result and of its cancelation token; the two
  control blocks are distinct, and the token is never without a block.
\<close>

fun is_token :: "unit shared_ptr \<Rightarrow> bool" where
  "is_token Empty_ptr \<longleftrightarrow> False"
| "is_token (Shared _ _) \<longleftrightarrow> True"

definition impl_inv :: "('m, 'z) implementation_scheme \<Rightarrow> bool" where
  "impl_inv s \<longleftrightarrow>
     heap_wf s \<and> sole_owner (last_result s) s \<and> sole_owner (cancelation_token s) s \<and>
     is_token (cancelation_token s) \<and> distinct_blocks (last_result s) (cancelation_token s)"

text \<open>The invariant and the heap do not see the other members.\<close>

lemma sole_owner_frame [frame_simps]:
  "sole_owner p (s\<lparr>mysql := m\<rparr>) = sole_owner p s"
  "sole_owner p (s\<lparr>flags := fl\<rparr>) = sole_owner p s"
  "sole_owner p (s\<lparr>initialized := b\<rparr>) = sole_owner p s"
  "sole_owner p (s\<lparr>first_result_stored := b\<rparr>) = sole_owner p s"
  "sole_owner p (s\<lparr>last_result := lr\<rparr>) = sole_owner p s"
  "sole_owner p (s\<lparr>cancelation_token := ct\<rparr>) = sole_owner p s"
  by (cases p; simp)+

lemma expired_frame [frame_simps]:
  "expired w (s\<lparr>mysql := m\<rparr>) = expired w s"
  "expired w (s\<lparr>flags := fl\<rparr>) = expired w s"
  "expired w (s\<lparr>initialized := b\<rparr>) = expired w s"
  "expired w (s\<lparr>first_result_stored := b\<rparr>) = expired w s"
  "expired w (s\<lparr>last_result := lr\<rparr>) = expired w s"
  "expired w (s\<lparr>cancelation_token := ct\<rparr>) = expired w s"
  by (cases w; simp)+

lemma evolves_frame [frame_simps]:
  "evolves h (s\<lparr>mysql := m\<rparr>) = evolves h s"
  "evolves h (s\<lparr>flags := fl\<rparr>) = evolves h s"
  "evolves h (s\<lparr>initialized := b\<rparr>) = evolves h s"
  "evolves h (s\<lparr>first_result_stored := b\<rparr>) = evolves h s"
  "evolves h (s\<lparr>last_result := lr\<rparr>) = evolves h s"
  "evolves h (s\<lparr>cancelation_token := ct\<rparr>) = evolves h s"
  by (simp_all add: evolves_def)

lemma impl_inv_frame [frame_simps]:
  "impl_inv (s\<lparr>mysql := m\<rparr>) = impl_inv s"
  "impl_inv (s\<lparr>flags := fl\<rparr>) = impl_inv s"
  "impl_inv (s\<lparr>initialized := b\<rparr>) = impl_inv s"
  "impl_inv (s\<lparr>first_result_stored := b\<rparr>) = impl_inv s"
  by (simp_all add: impl_inv_def heap_wf_def frame_simps)

lemma result_set_deleter_frame [frame_simps]:
  "next_block (result_set_deleter A p s) = next_block s"
  "use_count (result_set_deleter A p s) = use_count s"
  "flags (result_set_deleter A p s) = flags s"
  "initialized (result_set_deleter A p s) = initialized s"
  "first_result_stored (result_set_deleter A p s) = first_result_stored s"
  "last_result (result_set_deleter A p s) = last_result s"
  "cancelation_token (result_set_deleter A p s) = cancelation_token s"
  "expired w (result_set_deleter A p s) = expired w s"
  "evolves h (result_set_deleter A p s) = evolves h s"
  "impl_inv (result_set_deleter A p s) = impl_inv s"
  by (cases p; simp add: result_set_deleter_def frame_simps)+

lemma free_result_frame [frame_simps]:
  "flags (free_result A s) = flags s"
  "initialized (free_result A s) = initialized s"
  "first_result_stored (free_result A s) = first_result_stored s"
  "last_result (free_result A s) = Empty_ptr"
  "cancelation_token (free_result A s) = cancelation_token s"
  by (cases "last_result s"; simp add: free_result_def frame_simps)+

lemma reset_last_result_frame [frame_simps]:
  "flags (reset_last_result A r s) = flags s"
  "initialized (reset_last_result A r s) = initialized s"
  "first_result_stored (reset_last_result A r s) = first_result_stored s"
  "last_result (reset_last_result A r s) = Shared (next_block s) r"
  "cancelation_token (reset_last_result A r s) = cancelation_token s"
  by (cases "last_result s"; simp add: reset_last_result_def sp_make_def frame_simps)+

lemma cancel_frame [frame_simps]:
  "mysql (cancel s) = mysql s"
  "flags (cancel s) = flags s"
  "initialized (cancel s) = initialized s"
  "first_result_stored (cancel s) = first_result_stored s"
  "last_result (cancel s) = last_result s"
  by (cases "cancelation_token s"; simp add: cancel_def sp_make_def)+

text \<open>Each of the three members keeps the invariant and lets the heap evolve.\<close>

lemma free_result_inv: "impl_inv s \<Longrightarrow> impl_inv (free_result A s)"
  by (cases "last_result s"; cases "cancelation_token s")
     (auto simp: impl_inv_def free_result_def result_set_deleter_def heap_wf_def
       split: option.splits)

lemma reset_last_result_inv: "impl_inv s \<Longrightarrow> impl_inv (reset_last_result A r s)"
  by (cases "last_result s"; cases "cancelation_token s")
     (auto simp: impl_inv_def reset_last_result_def sp_make_def result_set_deleter_def heap_wf_def
       split: option.splits)

lemma cancel_inv: "impl_inv s \<Longrightarrow> impl_inv (cancel s)"
  by (cases "last_result s"; cases "cancelation_token s")
     (auto simp: impl_inv_def cancel_def sp_make_def heap_wf_def)

lemma free_result_evolves: "evolves s (free_result A s)"
  by (cases "last_result s")
     (auto simp: free_result_def frame_simps evolves_def)

lemma reset_last_result_evolves: "evolves s (reset_last_result A r s)"
  by (cases "last_result s")
     (auto simp: reset_last_result_def sp_make_def frame_simps evolves_def)

lemma cancel_evolves: "evolves s (cancel s)"
  by (cases "cancelation_token s") (auto simp: cancel_def sp_make_def evolves_def)

lemma free_result_expires: "impl_inv s \<Longrightarrow> expired (wp_of (last_result s)) (free_result A s)"
  by (cases "last_result s") (auto simp: impl_inv_def free_result_def frame_simps)

lemma cancel_expires: "impl_inv s \<Longrightarrow> expired (wp_of (cancelation_token s)) (cancel s)"
  by (cases "cancelation_token s") (auto simp: impl_inv_def cancel_def sp_make_def)

lemma token_live: "impl_inv s \<Longrightarrow> \<not> expired (wp_of (cancelation_token s)) s"
  by (cases "cancelation_token s") (auto simp: impl_inv_def)

lemma token_allocated: "impl_inv s \<Longrightarrow> weak_allocated (wp_of (cancelation_token s)) s"
  by (cases "cancelation_token s") (auto simp: impl_inv_def)

lemma result_allocated: "impl_inv s \<Longrightarrow> weak_allocated (wp_of (last_result s)) s"
  by (cases "last_result s") (auto simp: impl_inv_def)

lemma new_implementation_inv: "heap_wf h \<Longrightarrow> impl_inv (new_implementation m h)"
  by (auto simp: new_implementation_def sp_make_def impl_inv_def heap_wf_def)

section \<open>What the operations keep\<close>

text \<open>
  The contract of every operation but \<open>close\<close> and \<open>cancel\<close>: it keeps the invariant, lets
  the heap evolve and does not touch the cancelation token.
\<close>

definition keeps ::
  "('m, 'z) implementation_scheme \<Rightarrow> ('m, 'z) implementation_scheme \<Rightarrow> bool" where
  "keeps s s' \<longleftrightarrow>
     (impl_inv s \<longrightarrow> impl_inv s') \<and> evolves s s' \<and> cancelation_token s' = cancelation_token s"

lemma keepsD:
  assumes "keeps s s'"
  shows "impl_inv s \<Longrightarrow> impl_inv s'" and "evolves s s'"
    and "cancelation_token s' = cancelation_token s"
  using assms by (simp_all add: keeps_def)

lemma keeps_refl [simp, intro]: "keeps s s"
  by (simp add: keeps_def)

lemma keeps_trans [trans]: "keeps s s' \<Longrightarrow> keeps s' s'' \<Longrightarrow> keeps s s''"
  by (auto simp: keeps_def intro: evolves_trans)

lemma keeps_update [simp]:
  "keeps s (s'\<lparr>mysql := m\<rparr>) = keeps s s'"
  "keeps s (s'\<lparr>flags := fl\<rparr>) = keeps s s'"
  "keeps s (s'\<lparr>initialized := b\<rparr>) = keeps s s'"
  "keeps s (s'\<lparr>first_result_stored := b\<rparr>) = keeps s s'"
  by (simp_all add: keeps_def frame_simps)

lemma keeps_free_result [intro, simp]: "keeps s (free_result A s)"
  by (simp add: keeps_def frame_simps free_result_inv free_result_evolves)

lemma keeps_reset_last_result [intro]: "keeps s (reset_last_result A r s)"
  by (simp add: keeps_def frame_simps reset_last_result_inv reset_last_result_evolves)

lemma keeps_open: "keeps s (fst (ms_open A s ec))"
  by (simp add: ms_open_def Let_def split: prod.splits)

lemma keeps_set_option: "keeps s (fst (ms_set_option A s opt ec))"
  by (simp add: ms_set_option_def Let_def split: prod.splits)

lemma keeps_connect: "keeps s (fst (ms_connect A s ep au db fl ec))"
  using keeps_open [of s A ec]
  by (auto simp: ms_connect_def Let_def split: prod.splits if_splits)

lemma keeps_query: "keeps s (fst (ms_query A s stmt ec))"
  by (simp add: ms_query_def Let_def split: prod.splits)

lemma keeps_next_result: "keeps s (fst (ms_next_result A s ec))"
  by (simp add: ms_next_result_def Let_def split: prod.splits)

lemma keeps_reset_after [simp]: "keeps s t \<Longrightarrow> keeps s (reset_last_result A r t)"
  by (rule keeps_trans [OF _ keeps_reset_last_result])

lemma keeps_take_result:
  assumes "ms_take_result A s ec = Some (s', rs, ec')"
  shows "keeps s s'"
  using assms by (auto simp: ms_take_result_def Let_def split: prod.splits option.splits)

lemma keeps_store_result:
  assumes "ms_store_result A s ec = Some (s', rs, ec')"
  shows "keeps s s'"
  using assms keeps_next_result [of s A ec] keeps_take_result keeps_trans
  by (fastforce simp: ms_store_result_def split: prod.splits if_splits)

lemma keeps_autocommit: "keeps s (fst (ms_autocommit A s mode ec))"
  by (simp add: ms_autocommit_def split: prod.splits)

lemma keeps_commit: "keeps s (fst (ms_commit A s ec))"
  by (simp add: ms_commit_def split: prod.splits)

lemma keeps_rollback: "keeps s (fst (ms_rollback A s ec))"
  by (simp add: ms_rollback_def split: prod.splits)

lemmas keeps_operations =
  keeps_open keeps_set_option keeps_connect keeps_query keeps_autocommit keeps_commit
  keeps_rollback

lemma close_implementation_frame [frame_simps]:
  "initialized (close_implementation A s) = False"
  "first_result_stored (close_implementation A s) = False"
  "last_result (close_implementation A s) = Empty_ptr"
  "flags (close_implementation A s) = flags s"
  by (simp_all add: close_implementation_def Let_def frame_simps)

lemma close_implementation_inv: "impl_inv s \<Longrightarrow> impl_inv (close_implementation A s)"
  by (simp add: close_implementation_def Let_def cancel_inv free_result_inv frame_simps)

lemma cancel_free_evolves: "evolves s t \<Longrightarrow> evolves s (cancel (free_result A t))"
  using free_result_evolves cancel_evolves by (blast intro: evolves_trans)

lemma close_implementation_evolves: "evolves s (close_implementation A s)"
  by (simp add: close_implementation_def Let_def frame_simps cancel_free_evolves)

lemma cancel_after_free_expires:
  assumes "impl_inv t"
  shows "expired (wp_of (cancelation_token t)) (cancel (free_result A t))"
  using cancel_expires [OF free_result_inv [OF assms]] by (simp add: frame_simps)

lemma close_implementation_expires:
  assumes "impl_inv s"
  shows "expired (wp_of (cancelation_token s)) (close_implementation A s)"
    and "expired (wp_of (last_result s)) (close_implementation A s)"
proof -
  define t where
    "t = (if initialized s then s\<lparr>mysql := c_mysql_close A (mysql s), initialized := False\<rparr> else s)
           \<lparr>first_result_stored := False\<rparr>"
  have t: "impl_inv t" "cancelation_token t = cancelation_token s" "last_result t = last_result s"
    using assms by (simp_all add: t_def frame_simps)
  have c: "close_implementation A s = cancel (free_result A t)"
    by (simp add: close_implementation_def t_def Let_def)
  show "expired (wp_of (cancelation_token s)) (close_implementation A s)"
    using cancel_after_free_expires [OF t(1)] by (simp add: c t)
  have "weak_allocated (wp_of (last_result t)) (free_result A t)"
    using result_allocated [OF t(1)] free_result_evolves evolves_weak_allocated by blast
  then show "expired (wp_of (last_result s)) (close_implementation A s)"
    using free_result_expires [OF t(1)] cancel_evolves evolves_expired unfolding c t(3) [symmetric]
    by blast
qed

section \<open>Properties\<close>

text \<open>
  Every blocking operation keeps the invariant of the connection: it stays the only
  owner of its result and of its token, so a result is freed exactly when the connection
  lets go of it.
\<close>

theorem operations_keep_invariant:
  assumes "impl_inv s"
  shows "impl_inv (fst (ms_open A s ec)) \<and> impl_inv (ms_close A s) \<and> impl_inv (ms_cancel s) \<and>
         impl_inv (fst (ms_set_option A s opt ec)) \<and>
         impl_inv (fst (ms_connect A s ep au db fl ec)) \<and>
         impl_inv (fst (ms_query A s stmt ec)) \<and>
         pred_option (\<lambda>(s', rs, ec'). impl_inv s') (ms_store_result A s ec) \<and>
         impl_inv (fst (ms_autocommit A s mode ec)) \<and>
         impl_inv (fst (ms_commit A s ec)) \<and> impl_inv (fst (ms_rollback A s ec))"
proof -
  have "pred_option (\<lambda>(s', rs, ec'). impl_inv s') (ms_store_result A s ec)"
    using assms keeps_store_result [THEN keepsD(1)]
    by (cases "ms_store_result A s ec") auto
  then show ?thesis
    using assms
    by (simp add: keeps_operations [THEN keepsD(1)] ms_close_def ms_cancel_def
        close_implementation_inv cancel_inv)
qed

definition fresh_heap :: cpp_heap where
  "fresh_heap = \<lparr>next_block = 0, use_count = (\<lambda>_. 0)\<rparr>"

lemma fresh_heap_wf: "heap_wf fresh_heap"
  by (simp add: fresh_heap_def heap_wf_def)

definition sample_connection :: "sample_result list list \<Rightarrow> sample_server implementation" where
  "sample_connection script =
     fst (ms_open sample_api (new_implementation (sample_start script) fresh_heap) no_error)"

lemma sample_connection_inv: "impl_inv (sample_connection script)"
  unfolding sample_connection_def
  using keeps_open new_implementation_inv [OF fresh_heap_wf] by (rule keepsD(1))

theorem operations_keep_invariant_witness:
  "impl_inv (ms_close sample_api (sample_connection [[sample_table]]))"
  using operations_keep_invariant
    [OF sample_connection_inv [of "[[sample_table]]"], where A = sample_api]
  by blast

text \<open>
  A query on a connection that is not open changes nothing and reports
  \<open>not_initialized\<close>.  On an open one it invalidates every result set of the statement
  before, and the statement reaches the library with its length and its terminator.
\<close>

theorem query_behaviour:
  assumes "impl_inv s"
  shows "(if ms_is_open s
          then expired (wp_of (last_result s)) (fst (ms_query A s stmt ec)) \<and>
               \<not> first_result_stored (fst (ms_query A s stmt ec)) \<and>
               mysql (fst (ms_query A s stmt ec)) =
                 fst (c_mysql_real_query A (mysql (free_result A s)) (Some (stmt @ [nul]))
                        (of_nat (length stmt)))
          else ms_query A s stmt ec = (s, misc_error_code Not_initialized))"
  using free_result_expires [OF assms, of A]
  by (simp add: ms_query_def Let_def frame_simps mysql_real_query_def c_str_def
      split: prod.splits)

theorem query_behaviour_witness:
  "\<not> first_result_stored (fst (ms_query sample_api (sample_connection []) ''SELECT 1'' no_error))"
proof -
  have "ms_is_open (sample_connection [])" by code_simp
  with query_behaviour [OF sample_connection_inv [of "[]"], where A = sample_api
      and stmt = "''SELECT 1''" and ec = no_error]
  show ?thesis by simp
qed

text \<open>
  After \<open>close\<close> the connection is not open, holds no result and counts no result as
  stored; every result set it handed out and every asynchronous operation that was started
  before is expired, and the new token is live.  Closing again changes nothing.
\<close>

theorem close_behaviour:
  assumes "impl_inv s" and "ms_is_open s"
  shows "\<not> ms_is_open (ms_close A s) \<and> last_result (ms_close A s) = Empty_ptr \<and>
         \<not> first_result_stored (ms_close A s) \<and>
         expired (wp_of (last_result s)) (ms_close A s) \<and>
         expired (wp_of (cancelation_token s)) (ms_close A s) \<and>
         \<not> expired (wp_of (cancelation_token (ms_close A s))) (ms_close A s) \<and>
         ms_close A (ms_close A s) = ms_close A s"
  using assms close_implementation_expires [OF assms(1), of A]
    token_live [OF close_implementation_inv [OF assms(1), of A]]
  by (simp add: ms_close_def ms_is_open_def frame_simps)

theorem close_behaviour_witness:
  "\<not> ms_is_open (ms_close sample_api (sample_connection []))"
proof -
  have "ms_is_open (sample_connection [])" by code_simp
  from close_behaviour [OF sample_connection_inv this, of sample_api] show ?thesis by blast
qed

text \<open>
  The error code of \<open>set_option\<close> is never \<open>not_initialized\<close>, and the library is called
  with the uninitialised handle when the connection is not open: the early return that the
  other operations and the MariaDB service have is missing.
\<close>

theorem set_option_unguarded:
  "snd (ms_set_option A s opt ec) \<noteq> misc_error_code Not_initialized \<and>
   mysql (fst (ms_set_option A s opt ec)) =
     fst (c_mysql_options A (mysql s) (option_number opt) (option_data opt))"
  by (simp add: ms_set_option_def Let_def mysql_options_def clear_error_def error_wrapper_int_def
      last_client_error_def misc_error_code_def no_error_def split: prod.splits)

text \<open>
  \<open>store_result\<close> does not clear the error code it is given.  With a code left over from
  an earlier failure, the first call after a query reports that failure again, without a
  call to the library, but marks the first result as stored, so that it is lost.
\<close>

theorem store_result_stale_error:
  assumes "failed ec" and "\<not> first_result_stored s"
  shows "ms_store_result A s ec = Some (s\<lparr>first_result_stored := True\<rparr>, empty_set, ec)"
  using assms by (simp add: ms_store_result_def ms_next_result_def)

theorem store_result_stale_error_witness:
  "map_option (\<lambda>(s, rs, ec). (first_result_stored s, rs, ec))
     (ms_store_result sample_api (sample_connection [[sample_table]])
        (misc_error_code Commit_error)) =
   Some (True, empty_set, misc_error_code Commit_error)"
proof -
  have "\<not> first_result_stored (sample_connection [[sample_table]])" by code_simp
  from store_result_stale_error [OF failed_misc this, of sample_api Commit_error]
  show ?thesis by simp
qed

end
