(* ===== verification/Embedding.thy ===== *)
theory Embedding
  imports Mysql_Service
begin

text \<open>
  A connection inside a larger state.  The services extend the record \<open>implementation\<close> by
  members of their own; \<open>conn\<close> is the connection in such a state, and \<open>with_conn\<close> puts another
  one in its place.  What works on the connection alone commutes with both.
\<close>

abbreviation conn :: "('m, 'z) implementation_scheme \<Rightarrow> 'm implementation" where
  "conn s \<equiv> implementation.truncate s"

definition with_conn ::
  "'m implementation \<Rightarrow> ('m, 'z) implementation_scheme \<Rightarrow> ('m, 'z) implementation_scheme" where
  "with_conn i s = implementation.extend i (implementation.more s)"

section \<open>Reading\<close>

lemma conn_select [simp]:
  "mysql (conn s) = mysql s" "flags (conn s) = flags s" "initialized (conn s) = initialized s"
  "first_result_stored (conn s) = first_result_stored s" "last_result (conn s) = last_result s"
  "cancelation_token (conn s) = cancelation_token s" "use_count (conn s) = use_count s"
  "next_block (conn s) = next_block s"
  by (simp_all add: implementation.truncate_def)

lemma conn_weak [simp]:
  "expired w (conn s) = expired w s" "weak_allocated w (conn s) = weak_allocated w s"
  "wp_lock_get v (conn s) = wp_lock_get v s"
  by (cases w; simp; fail)+ (cases v; simp)

lemma with_conn_conn [simp]: "with_conn (conn s) s = s"
  by (simp add: with_conn_def implementation.truncate_def implementation.extend_def)

lemma conn_with_conn [simp]: "conn (with_conn i s) = i"
  by (simp add: with_conn_def implementation.truncate_def implementation.extend_def)

lemma with_conn_again [simp]: "with_conn i (with_conn j s) = with_conn i s"
  by (simp add: with_conn_def implementation.extend_def)

lemma with_conn_select [simp]:
  "mysql (with_conn i s) = mysql i" "flags (with_conn i s) = flags i"
  "initialized (with_conn i s) = initialized i"
  "first_result_stored (with_conn i s) = first_result_stored i"
  "last_result (with_conn i s) = last_result i"
  "cancelation_token (with_conn i s) = cancelation_token i"
  "use_count (with_conn i s) = use_count i" "next_block (with_conn i s) = next_block i"
  by (simp_all add: with_conn_def implementation.extend_def)

lemma with_conn_weak [simp]:
  "expired w (with_conn i s) = expired w i" "weak_allocated w (with_conn i s) = weak_allocated w i"
  by (cases w; simp)+

section \<open>Updating\<close>

lemma conn_update [simp]:
  "conn (s\<lparr>mysql := m\<rparr>) = (conn s)\<lparr>mysql := m\<rparr>" "conn (s\<lparr>flags := fl\<rparr>) = (conn s)\<lparr>flags := fl\<rparr>"
  "conn (s\<lparr>initialized := b\<rparr>) = (conn s)\<lparr>initialized := b\<rparr>"
  "conn (s\<lparr>first_result_stored := c\<rparr>) = (conn s)\<lparr>first_result_stored := c\<rparr>"
  by (simp_all add: implementation.truncate_def)

lemma with_conn_update [simp]:
  "(with_conn i s)\<lparr>mysql := m\<rparr> = with_conn (i\<lparr>mysql := m\<rparr>) s"
  "(with_conn i s)\<lparr>flags := fl\<rparr> = with_conn (i\<lparr>flags := fl\<rparr>) s"
  "(with_conn i s)\<lparr>initialized := b\<rparr> = with_conn (i\<lparr>initialized := b\<rparr>) s"
  "(with_conn i s)\<lparr>first_result_stored := c\<rparr> = with_conn (i\<lparr>first_result_stored := c\<rparr>) s"
  by (simp_all add: with_conn_def implementation.extend_def)

lemma conn_free_result [simp]: "conn (free_result A s) = free_result A (conn s)"
  by (cases "last_result s")
     (auto simp: free_result_def result_set_deleter_def implementation.truncate_def
       split: option.splits)

lemma conn_reset_last_result [simp]:
  "conn (reset_last_result A r s) = reset_last_result A r (conn s)"
  by (cases "last_result s")
     (auto simp: reset_last_result_def sp_make_def result_set_deleter_def
       implementation.truncate_def split: option.splits)

lemma conn_cancel [simp]: "conn (cancel s) = cancel (conn s)"
  by (cases "cancelation_token s")
     (simp_all add: cancel_def sp_make_def implementation.truncate_def)

section \<open>What works on the connection alone\<close>

lemma with_conn_free_result [simp]: "free_result A (with_conn i s) = with_conn (free_result A i) s"
  by (cases "last_result i")
     (auto simp: free_result_def result_set_deleter_def with_conn_def implementation.extend_def
       split: option.splits)

lemma with_conn_reset_last_result [simp]:
  "reset_last_result A r (with_conn i s) = with_conn (reset_last_result A r i) s"
  by (cases "last_result i")
     (auto simp: reset_last_result_def sp_make_def result_set_deleter_def with_conn_def
       implementation.extend_def split: option.splits)

lemma with_conn_cancel [simp]: "cancel (with_conn i s) = with_conn (cancel i) s"
  by (cases "cancelation_token i")
     (simp_all add: cancel_def sp_make_def with_conn_def implementation.extend_def)

lemma with_conn_has_more_results [simp]:
  "ms_has_more_results A (with_conn i s) = ms_has_more_results A i"
  by (simp add: ms_has_more_results_def ms_is_open_def)

lemma with_conn_next_result:
  "ms_next_result A (with_conn i s) ec =
     (case ms_next_result A i ec of (i', ec') \<Rightarrow> (with_conn i' s, ec'))"
  by (simp add: ms_next_result_def Let_def split: prod.splits)

lemma with_conn_take_result:
  "ms_take_result A (with_conn i s) ec =
     map_option (\<lambda>(i', rs, ec'). (with_conn i' s, rs, ec')) (ms_take_result A i ec)"
  by (simp add: ms_take_result_def Let_def split: prod.splits option.splits)

section \<open>The handle after freeing and closing\<close>

lemma free_result_empty:
  "last_result s = Empty_ptr \<Longrightarrow> free_result A s = s"
  by (cases s) (simp add: free_result_def result_set_deleter_def)

lemma free_result_handle:
  "mysql (free_result A (s\<lparr>initialized := b\<rparr>)) = mysql (free_result A s)"
  "mysql (free_result A (s\<lparr>first_result_stored := c\<rparr>)) = mysql (free_result A s)"
  by (cases "last_result s"; simp add: free_result_def result_set_deleter_def split: option.splits)+

lemma close_implementation_handle:
  "mysql (close_implementation A s) =
     mysql (free_result A
       (if initialized s then s\<lparr>mysql := c_mysql_close A (mysql s)\<rparr> else s))"
  by (simp add: close_implementation_def frame_simps free_result_handle Let_def)

lemma impl_inv_conn: "impl_inv (conn s) = impl_inv s"
  by (cases "last_result s"; cases "cancelation_token s")
     (simp_all add: impl_inv_def heap_wf_def implementation.truncate_def)

lemma impl_inv_with_conn: "impl_inv (with_conn i s) = impl_inv i"
  using impl_inv_conn [of "with_conn i s"] impl_inv_conn [of i] by simp

end
