(* ===== verification/Async_Service.thy ===== *)
theory Async_Service
  imports Mysql_Service "HOL-Library.Multiset"
begin

text \<open>
  The asynchronous operations of \<open>mysql_service\<close>: every one of them is a handler object
  that a single work thread runs on a private \<open>io_service\<close>; the handler calls the blocking
  library and posts the user's callback to the \<open>io_service\<close> of the user.

  The state adds to the connection the members of the service.  A callback is a value of
  type \<open>'k\<close>.  The two queues are lists, but a step may take any of their elements: nothing
  proved here rests on an order in which Asio runs the handlers it was given.  A handler is
  one step here; \<open>Work_Thread\<close> has its statements, between which the source lets the other thread
  act.
\<close>

text \<open>
  The handler classes: each keeps a weak pointer to the token of the connection as it was
  when the operation was started (\<open>handler_base\<close>), its arguments, and the callback.
\<close>

datatype 'k work_item =
    Connect_handler (item_token: "unit weak_ptr") endpoint auth_info string u64
      (item_callback: 'k)
  | Query_handler (item_token: "unit weak_ptr") string (item_callback: 'k)
  | Store_result_handler (item_token: "unit weak_ptr") (item_callback: 'k)

text \<open>A bound callback on the user's \<open>io_service\<close>: the error code, and the result set if any.\<close>

datatype 'k completion =
  Completion (callback: 'k) (comp_code: error_code) (comp_result: "result_set option")

record ('m, 'k) async_service = "'m implementation" +
  work_io_service :: bool
  work_thread :: bool
  work_queue :: "'k work_item list"
  io_queue :: "'k completion list"

type_synonym ('m, 'k, 'z) service_state = "('m, 'k, 'z) async_service_scheme"

section \<open>The service\<close>

definition post :: "'k completion \<Rightarrow> ('m, 'k, 'z) service_state \<Rightarrow> ('m, 'k, 'z) service_state" where
  "post c s = s\<lparr>io_queue := io_queue s @ [c]\<rparr>"

definition start_work_thread :: "('m, 'k, 'z) service_state \<Rightarrow> ('m, 'k, 'z) service_state" where
  "start_work_thread s = (if \<not> work_thread s then s\<lparr>work_thread := True\<rparr> else s)"

definition post_work ::
  "'k work_item \<Rightarrow> ('m, 'k, 'z) service_state \<Rightarrow> ('m, 'k, 'z) service_state" where
  "post_work w s = s\<lparr>work_queue := work_queue s @ [w]\<rparr>"

text \<open>
  Stopping the private \<open>io_service\<close>, joining its thread and destroying it drops the handlers
  it still holds.
\<close>

definition shutdown_service :: "('m, 'k, 'z) service_state \<Rightarrow> ('m, 'k, 'z) service_state" where
  "shutdown_service s =
     (if work_io_service s
      then s\<lparr>work_thread := False, work_io_service := False, work_queue := []\<rparr> else s)"

definition new_service :: "'m implementation \<Rightarrow> ('m, 'k) async_service" where
  "new_service i =
     \<lparr>next_block = next_block i, use_count = use_count i, mysql = mysql i, flags = flags i,
      initialized = initialized i, first_result_stored = first_result_stored i,
      last_result = last_result i, cancelation_token = cancelation_token i,
      work_io_service = True, work_thread = False, work_queue = [], io_queue = []\<rparr>"

text \<open>
  The constructors of the handlers: \<open>handler_base\<close> keeps the token of the connection at this
  moment, the credentials go through the copy constructor of \<open>auth_info\<close>.
\<close>

definition new_connect_handler ::
  "('m, 'k, 'z) service_state \<Rightarrow> endpoint \<Rightarrow> auth_info \<Rightarrow> string \<Rightarrow> u64 \<Rightarrow> 'k \<Rightarrow> 'k work_item"
where
  "new_connect_handler s ep auth database fl k =
     Connect_handler (wp_of (cancelation_token s)) ep (auth_info_copy auth) database fl k"

definition new_query_handler ::
  "('m, 'k, 'z) service_state \<Rightarrow> string \<Rightarrow> 'k \<Rightarrow> 'k work_item" where
  "new_query_handler s stmt k = Query_handler (wp_of (cancelation_token s)) stmt k"

definition new_store_result_handler :: "('m, 'k, 'z) service_state \<Rightarrow> 'k \<Rightarrow> 'k work_item" where
  "new_store_result_handler s k = Store_result_handler (wp_of (cancelation_token s)) k"

lemmas new_handlers [simp] =
  new_connect_handler_def new_query_handler_def new_store_result_handler_def

definition ms_async_connect ::
  "('m, 'a) mysql_api_scheme \<Rightarrow> ('m, 'k, 'z) service_state \<Rightarrow> endpoint \<Rightarrow> auth_info \<Rightarrow> string \<Rightarrow>
     u64 \<Rightarrow> 'k \<Rightarrow> ('m, 'k, 'z) service_state" where
  "ms_async_connect A s ep auth database fl k =
     (let (s1, ec) = (if \<not> ms_is_open s then ms_open A s no_error else (s, no_error))
      in if failed ec then post (Completion k ec None) s1
         else if work_io_service s1
         then post_work (new_connect_handler s1 ep auth database fl k) (start_work_thread s1)
         else s1)"

definition ms_async_query ::
  "('m, 'k, 'z) service_state \<Rightarrow> string \<Rightarrow> 'k \<Rightarrow> ('m, 'k, 'z) service_state" where
  "ms_async_query s stmt k =
     (if \<not> ms_is_open s then post (Completion k (misc_error_code Not_initialized) None) s
      else if work_io_service s
      then post_work (new_query_handler s stmt k) (start_work_thread s)
      else s)"

definition ms_async_store_result ::
  "('m, 'k, 'z) service_state \<Rightarrow> 'k \<Rightarrow> ('m, 'k, 'z) service_state" where
  "ms_async_store_result s k =
     (if \<not> ms_is_open s
      then post (Completion k (misc_error_code Not_initialized) (Some empty_set)) s
      else if work_io_service s
      then post_work (new_store_result_handler s k) (start_work_thread s)
      else s)"

section \<open>The handlers\<close>

definition run_connect_handler ::
  "('m, 'a) mysql_api_scheme \<Rightarrow> ('m, 'k, 'z) service_state \<Rightarrow> unit weak_ptr \<Rightarrow> endpoint \<Rightarrow>
     auth_info \<Rightarrow> string \<Rightarrow> u64 \<Rightarrow> 'k \<Rightarrow> ('m, 'k, 'z) service_state" where
  "run_connect_handler A s token ep auth database fl k =
     (if expired token s then post (Completion k (operation_aborted A) None) s
      else let (m, _, ec) =
             mysql_real_connect A (mysql s) (ep_host ep) (user auth) (password auth)
               (c_str database) (ep_port ep) (ep_unix_socket ep) fl no_error
           in post (Completion k ec None) (s\<lparr>mysql := m, flags := fl\<rparr>))"

definition run_query_handler ::
  "('m, 'a) mysql_api_scheme \<Rightarrow> ('m, 'k, 'z) service_state \<Rightarrow> unit weak_ptr \<Rightarrow> string \<Rightarrow> 'k \<Rightarrow>
     ('m, 'k, 'z) service_state" where
  "run_query_handler A s token stmt k =
     (if expired token s then post (Completion k (operation_aborted A) None) s
      else let s1 = (free_result A s)\<lparr>first_result_stored := False\<rparr>;
               (m, _, ec) =
                 mysql_real_query A (mysql s1) (c_str stmt) (of_nat (length stmt)) no_error
           in post (Completion k ec None) (s1\<lparr>mysql := m\<rparr>))"

text \<open>
  Between the test of the token and the callback, the handler of \<open>async_store_result\<close> has the
  statements of the blocking \<open>store_result\<close>, with a fresh error code.
\<close>

definition run_store_result_handler ::
  "('m, 'a) mysql_api_scheme \<Rightarrow> ('m, 'k, 'z) service_state \<Rightarrow> unit weak_ptr \<Rightarrow> 'k \<Rightarrow>
     ('m, 'k, 'z) service_state option" where
  "run_store_result_handler A s token k =
     (if expired token s
      then Some (post (Completion k (operation_aborted A) (Some empty_set)) s)
      else let (s1, ec) = ms_next_result A s no_error
           in if failed ec then Some (post (Completion k ec (Some empty_set)) s1)
              else case ms_take_result A s1 ec of
                     None \<Rightarrow> None
                   | Some (s2, rs, ec2) \<Rightarrow> Some (post (Completion k ec2 (Some rs)) s2))"

fun run_item ::
  "('m, 'a) mysql_api_scheme \<Rightarrow> ('m, 'k, 'z) service_state \<Rightarrow> 'k work_item \<Rightarrow>
     ('m, 'k, 'z) service_state option" where
  "run_item A s (Connect_handler token ep auth database fl k) =
     Some (run_connect_handler A s token ep auth database fl k)"
| "run_item A s (Query_handler token stmt k) = Some (run_query_handler A s token stmt k)"
| "run_item A s (Store_result_handler token k) = run_store_result_handler A s token k"

section \<open>Steps\<close>

text \<open>
  What may happen next: the user calls an operation, the work thread runs a handler, the
  user's \<open>io_service\<close> delivers a callback, or the service is shut down.
\<close>

datatype 'k event = Call | Issue 'k | Run | Deliver 'k | Shutdown

inductive async_step ::
  "('m, 'a) mysql_api_scheme \<Rightarrow> ('m, 'k) async_service \<Rightarrow> 'k event \<Rightarrow> ('m, 'k) async_service \<Rightarrow>
     bool" for A where
  step_open: "async_step A s Call (fst (ms_open A s ec))"
| step_close: "async_step A s Call (ms_close A s)"
| step_cancel: "async_step A s Call (ms_cancel s)"
| step_set_option: "async_step A s Call (fst (ms_set_option A s opt ec))"
| step_connect: "async_step A s Call (fst (ms_connect A s ep au db fl ec))"
| step_query: "async_step A s Call (fst (ms_query A s stmt ec))"
| step_store_result:
    "ms_store_result A s ec = Some (s', rs, ec') \<Longrightarrow> async_step A s Call s'"
| step_autocommit: "async_step A s Call (fst (ms_autocommit A s mode ec))"
| step_commit: "async_step A s Call (fst (ms_commit A s ec))"
| step_rollback: "async_step A s Call (fst (ms_rollback A s ec))"
| step_async_connect: "async_step A s (Issue k) (ms_async_connect A s ep au db fl k)"
| step_async_query: "async_step A s (Issue k) (ms_async_query s stmt k)"
| step_async_store_result: "async_step A s (Issue k) (ms_async_store_result s k)"
| step_run:
    "work_thread s \<Longrightarrow> work_queue s = xs @ w # ys \<Longrightarrow>
     run_item A (s\<lparr>work_queue := xs @ ys\<rparr>) w = Some s' \<Longrightarrow> async_step A s Run s'"
| step_deliver:
    "io_queue s = xs @ c # ys \<Longrightarrow>
     async_step A s (Deliver (callback c)) (s\<lparr>io_queue := xs @ ys\<rparr>)"
| step_shutdown: "async_step A s Shutdown (shutdown_service s)"

inductive async_run ::
  "('m, 'a) mysql_api_scheme \<Rightarrow> ('m, 'k) async_service \<Rightarrow> 'k event list \<Rightarrow>
     ('m, 'k) async_service \<Rightarrow> bool" for A where
  run_nil: "async_run A s [] s"
| run_snoc: "async_run A s es s' \<Longrightarrow> async_step A s' e s'' \<Longrightarrow> async_run A s (es @ [e]) s''"

inductive_cases async_step_runE: "async_step A s Run s'"
inductive_cases async_run_nilE: "async_run A s [] s'"

section \<open>What the calls leave alone\<close>

definition same_service ::
  "('m, 'k, 'z) service_state \<Rightarrow> ('m, 'k, 'z) service_state \<Rightarrow> bool" where
  "same_service s s' \<longleftrightarrow>
     work_io_service s' = work_io_service s \<and> work_thread s' = work_thread s \<and>
     work_queue s' = work_queue s \<and> io_queue s' = io_queue s"

definition stays_open :: "('m, 'k, 'z) service_state \<Rightarrow> ('m, 'k, 'z) service_state \<Rightarrow> bool" where
  "stays_open s s' \<longleftrightarrow> (initialized s \<longrightarrow> initialized s')"

text \<open>The contract of a call that neither closes nor cancels.\<close>

definition quiet :: "('m, 'k, 'z) service_state \<Rightarrow> ('m, 'k, 'z) service_state \<Rightarrow> bool" where
  "quiet s s' \<longleftrightarrow> same_service s s' \<and> stays_open s s'"

lemma same_service_refl [simp]: "same_service s s"
  by (simp add: same_service_def)

lemma same_service_update [simp]:
  "same_service s (s'\<lparr>mysql := m\<rparr>) = same_service s s'"
  "same_service s (s'\<lparr>flags := fl\<rparr>) = same_service s s'"
  "same_service s (s'\<lparr>initialized := b\<rparr>) = same_service s s'"
  "same_service s (s'\<lparr>first_result_stored := b\<rparr>) = same_service s s'"
  by (simp_all add: same_service_def)

lemma same_service_deleter [simp]: "same_service s (result_set_deleter A p s') = same_service s s'"
  by (cases p) (simp_all add: result_set_deleter_def same_service_def)

lemma same_service_free_result [simp]: "same_service s (free_result A s') = same_service s s'"
  by (cases "last_result s'") (simp_all add: free_result_def, simp_all add: same_service_def)

lemma same_service_reset [simp]: "same_service s (reset_last_result A r s') = same_service s s'"
  by (cases "last_result s'")
     (simp_all add: reset_last_result_def sp_make_def, simp_all add: same_service_def)

lemma same_service_cancel [simp]: "same_service s (cancel s') = same_service s s'"
  by (cases "cancelation_token s'") (simp_all add: cancel_def sp_make_def same_service_def)

lemma same_service_close [simp]:
  "same_service s (close_implementation A s') = same_service s s'"
  by (simp add: close_implementation_def Let_def)

lemma quiet_refl [simp]: "quiet s s"
  by (simp add: quiet_def stays_open_def)

lemma quiet_update [simp]:
  "quiet s (s'\<lparr>mysql := m\<rparr>) = quiet s s'"
  "quiet s (s'\<lparr>flags := fl\<rparr>) = quiet s s'"
  "quiet s (s'\<lparr>first_result_stored := b\<rparr>) = quiet s s'"
  "quiet s (free_result A s') = quiet s s'"
  "quiet s (reset_last_result A r s') = quiet s s'"
  by (simp_all add: quiet_def stays_open_def frame_simps)

lemma quiet_open: "quiet s (fst (ms_open A s ec))"
  by (simp add: ms_open_def ms_is_open_def Let_def quiet_def stays_open_def split: prod.splits)

lemma quiet_set_option: "quiet s (fst (ms_set_option A s opt ec))"
  by (simp add: ms_set_option_def Let_def split: prod.splits)

lemma quiet_connect: "quiet s (fst (ms_connect A s ep au db fl ec))"
  using quiet_open [of s A ec]
  by (auto simp: ms_connect_def Let_def split: prod.splits if_splits)

lemma quiet_query: "quiet s (fst (ms_query A s stmt ec))"
  by (simp add: ms_query_def Let_def split: prod.splits)

lemma quiet_next_result: "quiet s (fst (ms_next_result A s ec))"
  by (simp add: ms_next_result_def Let_def split: prod.splits)

lemma quiet_take_result: "ms_take_result A s ec = Some (s', rs, ec') \<Longrightarrow> quiet s s'"
  by (auto simp: ms_take_result_def Let_def split: prod.splits option.splits)

lemma quiet_trans: "quiet s s' \<Longrightarrow> quiet s' s'' \<Longrightarrow> quiet s s''"
  by (auto simp: quiet_def same_service_def stays_open_def)

lemma quiet_store_result:
  assumes "ms_store_result A s ec = Some (s', rs, ec')"
  shows "quiet s s'"
  using assms quiet_next_result [of s A ec] quiet_take_result quiet_trans
  by (fastforce simp: ms_store_result_def split: prod.splits if_splits)

lemma quiet_autocommit: "quiet s (fst (ms_autocommit A s mode ec))"
  by (simp add: ms_autocommit_def split: prod.splits)

lemma quiet_commit: "quiet s (fst (ms_commit A s ec))"
  by (simp add: ms_commit_def split: prod.splits)

lemma quiet_rollback: "quiet s (fst (ms_rollback A s ec))"
  by (simp add: ms_rollback_def split: prod.splits)

text \<open>The members of the service are invisible to the connection.\<close>

lemma impl_inv_service [simp]:
  "impl_inv (s\<lparr>work_io_service := b\<rparr>) = impl_inv s"
  "impl_inv (s\<lparr>work_thread := b\<rparr>) = impl_inv s"
  "impl_inv (s\<lparr>work_queue := q\<rparr>) = impl_inv s"
  "impl_inv (s\<lparr>io_queue := q'\<rparr>) = impl_inv s"
  by (cases "last_result s"; cases "cancelation_token s"; simp add: impl_inv_def heap_wf_def)+

lemma evolves_service [simp]:
  "evolves h (s\<lparr>work_io_service := b\<rparr>) = evolves h s"
  "evolves h (s\<lparr>work_thread := b\<rparr>) = evolves h s"
  "evolves h (s\<lparr>work_queue := q\<rparr>) = evolves h s"
  "evolves h (s\<lparr>io_queue := q'\<rparr>) = evolves h s"
  by (simp_all add: evolves_def)

lemma weak_service [simp]:
  "expired w (s\<lparr>work_io_service := b\<rparr>) = expired w s"
  "expired w (s\<lparr>work_thread := b\<rparr>) = expired w s"
  "expired w (s\<lparr>work_queue := q\<rparr>) = expired w s"
  "expired w (s\<lparr>io_queue := q'\<rparr>) = expired w s"
  "weak_allocated w (s\<lparr>work_io_service := b\<rparr>) = weak_allocated w s"
  "weak_allocated w (s\<lparr>work_thread := b\<rparr>) = weak_allocated w s"
  "weak_allocated w (s\<lparr>work_queue := q\<rparr>) = weak_allocated w s"
  "weak_allocated w (s\<lparr>io_queue := q'\<rparr>) = weak_allocated w s"
  by (cases w; simp)+

lemma keeps_service [simp]:
  "keeps s (s'\<lparr>work_io_service := b\<rparr>) = keeps s s'"
  "keeps s (s'\<lparr>work_thread := b\<rparr>) = keeps s s'"
  "keeps s (s'\<lparr>work_queue := q\<rparr>) = keeps s s'"
  "keeps s (s'\<lparr>io_queue := q'\<rparr>) = keeps s s'"
  by (simp_all add: keeps_def)

lemma keeps_post [simp]: "keeps s (post c s') = keeps s s'"
  by (simp add: post_def)

section \<open>Running a handler\<close>

text \<open>
  Whatever a handler does, it posts exactly one callback, the one it was started with, and
  touches the connection only as the blocking operations do.
\<close>

definition posts_one ::
  "('m, 'k, 'z) service_state \<Rightarrow> 'k \<Rightarrow> ('m, 'k, 'z) service_state \<Rightarrow> bool" where
  "posts_one s k s' \<longleftrightarrow>
     keeps s s' \<and> stays_open s s' \<and> work_io_service s' = work_io_service s \<and>
     work_thread s' = work_thread s \<and> work_queue s' = work_queue s \<and>
     (\<exists>ec rs. io_queue s' = io_queue s @ [Completion k ec rs])"

lemma posts_one_post: "keeps s t \<Longrightarrow> quiet s t \<Longrightarrow> posts_one s k (post (Completion k ec rs) t)"
  by (simp add: posts_one_def post_def quiet_def same_service_def stays_open_def)

lemma run_item_posts_one:
  assumes "run_item A s w = Some s'"
  shows "posts_one s (item_callback w) s'"
proof (cases w)
  case (Connect_handler token ep auth db fl k)
  with assms show ?thesis
    by (auto simp: run_connect_handler_def Let_def intro!: posts_one_post split: prod.splits)
next
  case (Query_handler token stmt k)
  with assms show ?thesis
    by (auto simp: run_query_handler_def Let_def intro!: posts_one_post split: prod.splits)
next
  case (Store_result_handler token k)
  note run = assms [unfolded Store_result_handler, simplified]
  show ?thesis
  proof (cases "expired token s")
    case True
    with run Store_result_handler show ?thesis
      by (auto simp: run_store_result_handler_def intro!: posts_one_post)
  next
    case False
    obtain s1 ec1 where n: "ms_next_result A s no_error = (s1, ec1)"
      by (cases "ms_next_result A s no_error")
    then have s1: "keeps s s1" "quiet s s1"
      using keeps_next_result [of s A no_error] quiet_next_result [of s A no_error] by simp_all
    show ?thesis
    proof (cases "failed ec1")
      case True
      with run False n s1 Store_result_handler show ?thesis
        by (auto simp: run_store_result_handler_def intro!: posts_one_post)
    next
      case False
      with run \<open>\<not> expired token s\<close> n obtain s2 rs ec2
        where t: "ms_take_result A s1 ec1 = Some (s2, rs, ec2)"
          and s': "s' = post (Completion k ec2 (Some rs)) s2"
        by (auto simp: run_store_result_handler_def split: option.splits)
      have "keeps s s2" "quiet s s2"
        using keeps_trans [OF s1(1) keeps_take_result [OF t]]
          quiet_trans [OF s1(2) quiet_take_result [OF t]] by simp_all
      then show ?thesis
        by (simp add: s' Store_result_handler posts_one_post)
    qed
  qed
qed

section \<open>The invariant of the service\<close>

text \<open>
  A queued handler is either expired, or holds the present token of a connection that is
  open.
\<close>

definition item_ok :: "('m, 'k, 'z) service_state \<Rightarrow> 'k work_item \<Rightarrow> bool" where
  "item_ok s w \<longleftrightarrow>
     weak_allocated (item_token w) s \<and>
     (expired (item_token w) s \<or>
      item_token w = wp_of (cancelation_token s) \<and> initialized s)"

definition async_inv :: "('m, 'k, 'z) service_state \<Rightarrow> bool" where
  "async_inv s \<longleftrightarrow>
     impl_inv s \<and> (\<forall>w \<in> set (work_queue s). item_ok s w) \<and>
     (work_queue s \<noteq> [] \<longrightarrow> work_thread s)"

lemma item_ok_service [simp]:
  "item_ok (s\<lparr>work_io_service := b\<rparr>) w = item_ok s w"
  "item_ok (s\<lparr>work_thread := b\<rparr>) w = item_ok s w"
  "item_ok (s\<lparr>work_queue := q\<rparr>) w = item_ok s w"
  "item_ok (s\<lparr>io_queue := q'\<rparr>) w = item_ok s w"
  by (simp_all add: item_ok_def)

lemma item_ok_keeps:
  assumes "item_ok s w" and "keeps s s'" and "stays_open s s'"
  shows "item_ok s' w"
  using assms evolves_expired evolves_weak_allocated
  unfolding item_ok_def keeps_def stays_open_def by metis

lemma item_ok_expiring:
  assumes "item_ok s w" and "evolves s s'" and "expired (wp_of (cancelation_token s)) s'"
  shows "item_ok s' w"
  using assms evolves_expired evolves_weak_allocated unfolding item_ok_def by metis

lemma async_inv_quiet:
  assumes "async_inv s" and "keeps s s'" and "quiet s s'"
  shows "async_inv s'"
  using assms item_ok_keeps
  by (fastforce simp: async_inv_def keeps_def quiet_def same_service_def)

lemma async_inv_expiring:
  assumes "async_inv s" and "impl_inv s'" and "evolves s s'" and "same_service s s'"
    and "expired (wp_of (cancelation_token s)) s'"
  shows "async_inv s'"
  using assms item_ok_expiring by (fastforce simp: async_inv_def same_service_def)

lemma async_inv_close:
  assumes "async_inv s"
  shows "async_inv (ms_close A s)"
proof (cases "ms_is_open s")
  case True
  from assms have i: "impl_inv s" by (simp add: async_inv_def)
  show ?thesis
    using async_inv_expiring [OF assms close_implementation_inv [OF i]
        close_implementation_evolves _ close_implementation_expires(1) [OF i]] True
    by (simp add: ms_close_def)
qed (use assms in \<open>simp add: ms_close_def\<close>)

lemma async_inv_cancel: "async_inv s \<Longrightarrow> async_inv (ms_cancel s)"
  by (rule async_inv_expiring [of s])
     (simp_all add: async_inv_def ms_cancel_def cancel_inv cancel_evolves cancel_expires)

lemma async_inv_post [simp]: "async_inv (post c s) = async_inv s"
  by (simp add: async_inv_def post_def)

lemma async_inv_enqueue:
  assumes "async_inv s" and "initialized s" and "item_token w = wp_of (cancelation_token s)"
  shows "async_inv (post_work w (start_work_thread s))"
proof -
  have "item_ok s w"
    using assms token_allocated [of s] by (simp add: item_ok_def async_inv_def)
  with assms(1) show ?thesis
    by (auto simp: async_inv_def post_work_def start_work_thread_def)
qed

lemma async_inv_shutdown: "async_inv s \<Longrightarrow> async_inv (shutdown_service s)"
  by (simp add: async_inv_def shutdown_service_def)

lemma ms_open_opens:
  assumes "\<not> failed (snd (ms_open A s ec))"
  shows "initialized (fst (ms_open A s ec))"
  using assms
  by (auto simp: ms_open_def ms_is_open_def mysql_init_def Let_def split: prod.splits if_splits)

lemma async_inv_async_connect:
  assumes "async_inv s"
  shows "async_inv (ms_async_connect A s ep au db fl k)"
proof -
  define p where "p = (if \<not> ms_is_open s then ms_open A s no_error else (s, no_error))"
  have inv: "async_inv (fst p)"
    using assms async_inv_quiet [OF assms keeps_open quiet_open, of A no_error]
    by (simp add: p_def)
  have opened: "initialized (fst p)" if "\<not> failed (snd p)"
    using that ms_open_opens [of A s no_error] by (auto simp: p_def ms_is_open_def)
  show ?thesis
    using inv opened async_inv_enqueue [of "fst p"]
    by (simp add: ms_async_connect_def p_def [symmetric] case_prod_unfold)
qed

lemma async_inv_async_query: "async_inv s \<Longrightarrow> async_inv (ms_async_query s stmt k)"
  by (simp add: ms_async_query_def ms_is_open_def async_inv_enqueue)

lemma async_inv_async_store: "async_inv s \<Longrightarrow> async_inv (ms_async_store_result s k)"
  by (simp add: ms_async_store_result_def ms_is_open_def async_inv_enqueue)

lemma async_inv_run:
  assumes "async_inv s" and "work_queue s = xs @ w # ys" and "work_thread s"
    and "run_item A (s\<lparr>work_queue := xs @ ys\<rparr>) w = Some s'"
  shows "async_inv s'"
proof -
  let ?t = "s\<lparr>work_queue := xs @ ys\<rparr>"
  have t: "async_inv ?t"
    using assms(1-3) by (auto simp: async_inv_def)
  have p: "keeps ?t s'" "stays_open ?t s'" "work_queue s' = work_queue ?t"
    "work_thread s' = work_thread ?t"
    using run_item_posts_one [OF assms(4)] by (simp_all only: posts_one_def)
  have "\<forall>v \<in> set (work_queue s'). item_ok s' v"
    using t p(3) item_ok_keeps [OF _ p(1,2)] by (simp add: async_inv_def)
  with t p(1,4) assms(3) show ?thesis
    by (simp add: async_inv_def keeps_def)
qed

lemma async_inv_step: "async_step A s e s' \<Longrightarrow> async_inv s \<Longrightarrow> async_inv s'"
proof (induction rule: async_step.induct)
  case (step_store_result s ec s' rs ec')
  then show ?case
    using async_inv_quiet keeps_store_result quiet_store_result by blast
next
  case (step_run s xs w ys s')
  then show ?case by (blast intro: async_inv_run)
next
  case (step_deliver s xs c ys)
  then show ?case by (simp add: async_inv_def)
qed (blast intro: async_inv_quiet [OF _ keeps_open quiet_open]
       async_inv_quiet [OF _ keeps_set_option quiet_set_option]
       async_inv_quiet [OF _ keeps_connect quiet_connect]
       async_inv_quiet [OF _ keeps_query quiet_query]
       async_inv_quiet [OF _ keeps_autocommit quiet_autocommit]
       async_inv_quiet [OF _ keeps_commit quiet_commit]
       async_inv_quiet [OF _ keeps_rollback quiet_rollback]
       async_inv_close async_inv_cancel async_inv_async_connect async_inv_async_query
       async_inv_async_store async_inv_shutdown)+

lemma async_inv_run_events: "async_run A s es s' \<Longrightarrow> async_inv s \<Longrightarrow> async_inv s'"
  by (induction rule: async_run.induct) (blast intro: async_inv_step)+

lemma async_inv_new: "impl_inv i \<Longrightarrow> async_inv (new_service i)"
  by (cases "last_result i"; cases "cancelation_token i")
     (simp_all add: async_inv_def new_service_def impl_inv_def heap_wf_def)

section \<open>Accounting for the callbacks\<close>

definition pending :: "('m, 'k, 'z) service_state \<Rightarrow> 'k multiset" where
  "pending s = mset (map item_callback (work_queue s)) + mset (map callback (io_queue s))"

fun issued :: "'k event list \<Rightarrow> 'k list" where
  "issued [] = []"
| "issued (Issue k # es) = k # issued es"
| "issued (_ # es) = issued es"

fun delivered :: "'k event list \<Rightarrow> 'k list" where
  "delivered [] = []"
| "delivered (Deliver k # es) = k # delivered es"
| "delivered (_ # es) = delivered es"

lemma issued_append [simp]: "issued (es @ fs) = issued es @ issued fs"
  by (induction es rule: issued.induct) simp_all

lemma delivered_append [simp]: "delivered (es @ fs) = delivered es @ delivered fs"
  by (induction es rule: delivered.induct) simp_all

lemma pending_same_service: "same_service s s' \<Longrightarrow> pending s' = pending s"
  by (simp add: pending_def same_service_def)

lemma pending_quiet: "quiet s s' \<Longrightarrow> pending s' = pending s \<and> work_io_service s' = work_io_service s"
  by (simp add: pending_same_service quiet_def) (simp add: same_service_def)

lemma pending_post [simp]: "pending (post c s) = add_mset (callback c) (pending s)"
  by (simp add: pending_def post_def)

lemma pending_enqueue [simp]:
  "pending (post_work w (start_work_thread s)) = add_mset (item_callback w) (pending s)"
  by (simp add: pending_def post_work_def start_work_thread_def)

lemma work_io_service_post [simp]:
  "work_io_service (post c s) = work_io_service s"
  "work_io_service (post_work w (start_work_thread s)) = work_io_service s"
  by (simp_all add: post_def post_work_def start_work_thread_def)

lemma pending_async_connect:
  "work_io_service s \<Longrightarrow> pending (ms_async_connect A s ep au db fl k) = add_mset k (pending s) \<and>
     work_io_service (ms_async_connect A s ep au db fl k)"
  using pending_quiet [OF quiet_open [of s A no_error]]
  by (auto simp: ms_async_connect_def Let_def split: prod.splits if_splits)

lemma pending_run:
  assumes "work_queue s = xs @ w # ys" and "run_item A (s\<lparr>work_queue := xs @ ys\<rparr>) w = Some s'"
  shows "pending s' = pending s \<and> work_io_service s' = work_io_service s"
  using run_item_posts_one [OF assms(2)] assms(1) by (auto simp: posts_one_def pending_def)

lemma call_same_service:
  assumes "async_step A s Call s'"
  shows "same_service s s'"
proof -
  have quiet: "quiet s t \<Longrightarrow> same_service s t" for t by (simp add: quiet_def)
  show ?thesis
    using assms
    by cases
       (auto simp: ms_close_def ms_cancel_def intro: quiet quiet_open quiet_set_option quiet_connect
         quiet_query quiet_store_result quiet_autocommit quiet_commit quiet_rollback)
qed

text \<open>One step accounts for its callbacks as long as the service is not shut down.\<close>

lemma pending_step:
  assumes "async_step A s e s'" and "work_io_service s" and "e \<noteq> Shutdown"
  shows "work_io_service s' \<and> mset (delivered [e]) + pending s' = mset (issued [e]) + pending s"
proof (cases "e = Call")
  case True
  then have "same_service s s'" using assms(1) call_same_service by simp
  then show ?thesis
    using assms(2) True pending_same_service [of s s'] by (simp add: same_service_def)
next
  case False
  show ?thesis
    using assms(1)
  proof cases
    case (step_run xs w ys)
    then show ?thesis using pending_run [OF step_run(3,4)] assms(2) by simp
  next
    case (step_deliver xs c ys)
    then show ?thesis using assms(2) by (simp add: pending_def)
  qed (use assms(2,3) False in
      \<open>simp_all add: pending_async_connect ms_async_query_def ms_async_store_result_def\<close>)
qed

text \<open>
  Afterwards there is no work queue: an operation that is started on an open connection is dropped,
  one on a connection that is not open still gets its error.
\<close>

definition is_shut_down :: "('m, 'k, 'z) service_state \<Rightarrow> bool" where
  "is_shut_down s \<longleftrightarrow> \<not> work_io_service s \<and> work_queue s = []"

lemma shut_down_step:
  assumes "async_step A s e s'" and "is_shut_down s"
  shows "is_shut_down s' \<and>
         (\<exists>late. late \<subseteq># mset (issued [e]) \<and>
            mset (delivered [e]) + pending s' + late = mset (issued [e]) + pending s)"
proof (cases "e = Call")
  case True
  then have "same_service s s'" using assms(1) call_same_service by simp
  then show ?thesis
    using assms(2) True pending_same_service [of s s'] by (simp add: is_shut_down_def same_service_def)
next
  case False
  show ?thesis
    using assms(1)
  proof cases
    case (step_run xs w ys)
    then show ?thesis using assms(2) by (simp add: is_shut_down_def)
  next
    case (step_deliver xs c ys)
    then show ?thesis using assms(2) by (simp add: pending_def is_shut_down_def)
  next
    case step_shutdown
    then show ?thesis using assms(2) by (simp add: shutdown_service_def is_shut_down_def)
  next
    case (step_async_connect k ep au db fl)
    define p where "p = (if \<not> ms_is_open s then ms_open A s no_error else (s, no_error))"
    have p: "same_service s (fst p)" using quiet_open [of s A no_error] by (simp add: p_def quiet_def)
    have s': "s' = (if failed (snd p) then post (Completion k (snd p) None) (fst p) else fst p)"
      using step_async_connect(2) p assms(2)
      by (simp add: ms_async_connect_def p_def [symmetric] case_prod_unfold is_shut_down_def
          same_service_def)
    have pend: "pending (fst p) = pending s" using p by (rule pending_same_service)
    have down: "is_shut_down (fst p)"
      using p assms(2) by (simp add: is_shut_down_def same_service_def)
    show ?thesis
    proof (cases "failed (snd p)")
      case True
      then show ?thesis
        using s' down pend step_async_connect(1) by (simp add: is_shut_down_def post_def pending_def)
    next
      case False
      then show ?thesis
        using s' down pend step_async_connect(1) by (intro conjI exI [of _ "{#k#}"]) simp_all
    qed
  next
    case (step_async_query k stmt)
    then show ?thesis
      using assms(2)
      by (cases "ms_is_open s")
         (auto simp: ms_async_query_def is_shut_down_def post_def pending_def intro: exI [of _ "{#k#}"])
  next
    case (step_async_store_result k)
    then show ?thesis
      using assms(2)
      by (cases "ms_is_open s")
         (auto simp: ms_async_store_result_def is_shut_down_def post_def pending_def
           intro: exI [of _ "{#k#}"])
  qed (use False in simp_all)
qed

lemma shut_down_run:
  assumes "async_run A s es s'" and "is_shut_down s"
  shows "is_shut_down s' \<and>
         (\<exists>late. late \<subseteq># mset (issued es) \<and>
            mset (delivered es) + pending s' + late = mset (issued es) + pending s)"
  using assms
proof (induction rule: async_run.induct)
  case (run_nil s)
  then show ?case by simp
next
  case (run_snoc s es s' e s'')
  then obtain l where l: "is_shut_down s'" "l \<subseteq># mset (issued es)"
      "mset (delivered es) + pending s' + l = mset (issued es) + pending s" by blast
  then obtain l' where l': "is_shut_down s''" "l' \<subseteq># mset (issued [e])"
      "mset (delivered [e]) + pending s'' + l' = mset (issued [e]) + pending s'"
    using shut_down_step [OF run_snoc.hyps(2)] by blast
  have "mset (delivered (es @ [e])) + pending s'' + (l + l') =
      mset (delivered es) + l + (mset (delivered [e]) + pending s'' + l')"
    by (simp add: ac_simps)
  also have "\<dots> = mset (issued [e]) + (mset (delivered es) + pending s' + l)"
    by (simp only: l'(3)) (simp add: ac_simps)
  also have "\<dots> = mset (issued (es @ [e])) + pending s"
    by (simp only: l(3)) (simp add: ac_simps)
  finally show ?case
    using l(2) l'(1,2) subset_mset.add_mono [OF l(2) l'(2)]
    by (intro conjI exI [of _ "l + l'"]) simp_all
qed

lemma pending_run_events:
  "async_run A s es s' \<Longrightarrow> work_io_service s \<Longrightarrow> Shutdown \<notin> set es \<Longrightarrow>
   work_io_service s' \<and> mset (delivered es) + pending s' = mset (issued es) + pending s"
proof (induction rule: async_run.induct)
  case (run_nil s)
  then show ?case by simp
next
  case (run_snoc s es s' e s'')
  then have s': "work_io_service s'" "e \<noteq> Shutdown"
    "mset (delivered es) + pending s' = mset (issued es) + pending s"
    by auto
  note step = pending_step [OF run_snoc.hyps(2) s'(1,2)]
  have "mset (delivered (es @ [e])) + pending s'' =
      mset (delivered es) + (mset (delivered [e]) + pending s'')"
    by (simp only: delivered_append mset_append union_assoc)
  also have "\<dots> = mset (issued [e]) + (mset (delivered es) + pending s')"
    by (simp only: step union_lcomm)
  also have "\<dots> = mset (issued (es @ [e])) + pending s"
    by (simp only: s'(3) issued_append mset_append) (simp only: union_ac)
  finally show ?case using step by simp
qed

lemma async_run_single: "async_step A s e s' \<Longrightarrow> async_run A s [e] s'"
  using run_snoc [OF run_nil, of A s e s'] by simp

section \<open>Properties\<close>

text \<open>
  Safety of the work thread.  In every state the service can reach, by whatever
  interleaving of calls, handlers, deliveries and shutdown, a handler that is queued and
  not expired belongs to a connection that is open, and carries its present token: the work
  thread never hands an uninitialised or closed handle to the library.
\<close>

theorem live_handler_on_open_connection:
  assumes "impl_inv i" and "async_run A (new_service i) es s"
    and "w \<in> set (work_queue s)" and "\<not> expired (item_token w) s"
  shows "ms_is_open s \<and> item_token w = wp_of (cancelation_token s) \<and> work_thread s"
  using async_inv_run_events [OF assms(2) async_inv_new [OF assms(1)]] assms(3,4)
  by (auto simp: async_inv_def item_ok_def ms_is_open_def)

definition sample_service :: "(sample_server, nat) async_service" where
  "sample_service = new_service (sample_connection [[sample_table]])"

lemma sample_query_run:
  "async_run sample_api (new_service (sample_connection [[sample_table]])) [Issue 7]
     (ms_async_query sample_service ''SELECT 1'' (7 :: nat))"
  using async_run_single [OF step_async_query] by (simp add: sample_service_def)

theorem live_handler_on_open_connection_witness:
  "ms_is_open (ms_async_query sample_service ''SELECT 1'' 7)"
proof -
  let ?s = "ms_async_query sample_service ''SELECT 1'' 7"
  have "Query_handler (wp_of (cancelation_token sample_service)) ''SELECT 1'' 7 \<in> set (work_queue ?s)
      \<and> \<not> expired (wp_of (cancelation_token sample_service)) ?s"
    by code_simp
  then show ?thesis
    using live_handler_on_open_connection [OF sample_connection_inv sample_query_run] by fastforce
qed

definition aborted_result :: "'k work_item \<Rightarrow> result_set option" where
  "aborted_result w = (case w of Store_result_handler _ _ \<Rightarrow> Some empty_set | _ \<Rightarrow> None)"

lemma run_item_expired:
  "expired (item_token w) s \<Longrightarrow>
   run_item A s w =
     Some (post (Completion (item_callback w) (operation_aborted A) (aborted_result w)) s)"
  by (cases w) (simp_all add: run_connect_handler_def run_query_handler_def
    run_store_result_handler_def aborted_result_def)

lemma async_step_evolves:
  "async_step A s e s' \<Longrightarrow> evolves s s'"
proof (induction rule: async_step.induct)
  case (step_async_connect s k ep au db fl)
  define p where "p = (if \<not> ms_is_open s then ms_open A s no_error else (s, no_error))"
  have "evolves s (fst p)"
    by (simp add: p_def keepsD(2) [OF keeps_open])
  then show ?case
    by (simp add: ms_async_connect_def p_def [symmetric] case_prod_unfold post_def post_work_def
        start_work_thread_def)
next
  case (step_run s xs w ys s')
  then have "evolves (s\<lparr>work_queue := xs @ ys\<rparr>) s'"
    using run_item_posts_one keepsD(2) unfolding posts_one_def by blast
  then show ?case by (simp add: evolves_def)
qed (auto simp: ms_close_def ms_cancel_def ms_async_query_def ms_async_store_result_def
       post_def post_work_def start_work_thread_def shutdown_service_def
       intro: keepsD(2) keeps_operations keeps_store_result close_implementation_evolves
         cancel_evolves)

lemma async_run_evolves: "async_run A s es s' \<Longrightarrow> evolves s s'"
  by (induction rule: async_run.induct) (auto intro: evolves_trans async_step_evolves)

lemma stopped_expires:
  assumes "async_inv s" and "w \<in> set (work_queue s)" and "t = ms_cancel s \<or> t = ms_close A s"
  shows "expired (item_token w) t \<and> weak_allocated (item_token w) t"
proof -
  have i: "impl_inv s" and w: "item_ok s w"
    using assms by (auto simp: async_inv_def)
  have e: "evolves s t"
    using assms(3) by (auto simp: ms_cancel_def ms_close_def cancel_evolves
        close_implementation_evolves)
  have "expired (item_token w) s \<or> expired (wp_of (cancelation_token s)) t"
    using assms(3) w cancel_expires [OF i] close_implementation_expires(1) [OF i, of A]
    by (auto simp: ms_cancel_def ms_close_def ms_is_open_def item_ok_def)
  then show ?thesis
    using w e evolves_expired evolves_weak_allocated unfolding item_ok_def by metis
qed

text \<open>
  C20. Cancelation.  Once the connection is cancelled or closed, every handler queued
  before that moment, whenever it runs and whatever has happened since, a reopening of the
  connection included, posts its callback with \<open>operation_aborted\<close> (and an empty result set
  where it takes one) and leaves the connection exactly as it is.
\<close>

theorem canceled_handler_aborts:
  assumes "impl_inv i" and "async_run A (new_service i) es s" and "w \<in> set (work_queue s)"
    and "t = ms_cancel s \<or> t = ms_close A s" and "async_run A t es' s'"
  shows "run_item A s' w =
           Some (post (Completion (item_callback w) (operation_aborted A) (aborted_result w)) s')"
proof -
  have "expired (item_token w) t \<and> weak_allocated (item_token w) t"
    using async_inv_run_events [OF assms(2) async_inv_new [OF assms(1)]] assms(3,4)
    by (rule stopped_expires)
  then have "expired (item_token w) s'"
    using async_run_evolves [OF assms(5)] evolves_expired by blast
  then show ?thesis by (rule run_item_expired)
qed

theorem canceled_handler_aborts_witness:
  "let s = ms_cancel (ms_async_query sample_service ''SELECT 1'' 7);
       w = Query_handler (wp_of (cancelation_token sample_service)) ''SELECT 1'' 7
   in run_item sample_api s w =
        Some (post (Completion 7 (operation_aborted sample_api) None) s)"
proof -
  let ?s = "ms_async_query sample_service ''SELECT 1'' 7"
  let ?w = "Query_handler (wp_of (cancelation_token sample_service)) ''SELECT 1'' 7"
  have "?w \<in> set (work_queue ?s)" by code_simp
  then show ?thesis
    using canceled_handler_aborts [OF sample_connection_inv sample_query_run _ _ run_nil,
        of ?w "ms_cancel ?s"]
    by (simp add: aborted_result_def)
qed

text \<open>
  C7. Every callback is delivered exactly once.  As long as the service is not shut down, the
  callbacks handed to asynchronous operations are those that have been delivered together with
  those still queued, each as often as it was handed over.  When it is shut down, exactly the
  handlers in the work queue are dropped with their callbacks, and nothing runs in the work thread
  afterwards: what is not delivered, queued for the user or dropped at that moment was started
  after the shutdown.
\<close>

theorem callbacks_exactly_once:
  assumes "async_run A (new_service i) es s" and "Shutdown \<notin> set es"
  shows "mset (issued es) = mset (delivered es) + pending s \<and>
         (\<forall>es' u. async_run A (shutdown_service s) es' u \<longrightarrow>
            work_queue u = [] \<and>
            (\<exists>late. late \<subseteq># mset (issued es') \<and>
               mset (issued (es @ Shutdown # es')) =
               mset (delivered (es @ Shutdown # es')) + mset (map callback (io_queue u)) +
               mset (map item_callback (work_queue s)) + late))"
proof -
  have up: "work_io_service s" "mset (issued es) = mset (delivered es) + pending s"
    using pending_run_events [OF assms(1)] assms(2) by (simp_all add: pending_def new_service_def)
  have "work_queue u = [] \<and>
      (\<exists>late. late \<subseteq># mset (issued es') \<and>
         mset (issued (es @ Shutdown # es')) =
         mset (delivered (es @ Shutdown # es')) + mset (map callback (io_queue u)) +
         mset (map item_callback (work_queue s)) + late)"
    if u: "async_run A (shutdown_service s) es' u" for es' u
  proof -
    have "is_shut_down (shutdown_service s)"
      and p: "pending (shutdown_service s) = mset (map callback (io_queue s))"
      using up(1) by (simp_all add: is_shut_down_def shutdown_service_def pending_def)
    from shut_down_run [OF u this(1)] obtain l where l: "is_shut_down u" "l \<subseteq># mset (issued es')"
        "mset (delivered es') + pending u + l = mset (issued es') + mset (map callback (io_queue s))"
      by (auto simp: p)
    have q: "work_queue u = []" "pending u = mset (map callback (io_queue u))"
      using l(1) by (simp_all add: is_shut_down_def pending_def)
    have "mset (issued (es @ Shutdown # es')) =
        mset (delivered es) + mset (map item_callback (work_queue s)) +
        (mset (issued es') + mset (map callback (io_queue s)))"
      by (simp add: up(2) pending_def ac_simps)
    also have "\<dots> = mset (delivered (es @ Shutdown # es')) + mset (map callback (io_queue u)) +
        mset (map item_callback (work_queue s)) + l"
      by (simp only: l(3) [symmetric] q(2)) (simp add: ac_simps)
    finally show ?thesis using q(1) l(2) by blast
  qed
  with up(2) show ?thesis by blast
qed

theorem callbacks_exactly_once_witness:
  "pending (ms_async_query sample_service ''SELECT 1'' 7) = {#7#} \<and>
   (let u = shutdown_service (ms_async_query sample_service ''SELECT 1'' 7)
    in work_queue u = [] \<and> io_queue u = [])"
proof -
  note both = callbacks_exactly_once [OF sample_query_run]
  let ?u = "shutdown_service (ms_async_query sample_service ''SELECT 1'' (7 :: nat))"
  have "pending (ms_async_query sample_service ''SELECT 1'' (7 :: nat)) = {#7#}"
    using both by simp
  moreover have "work_queue ?u = []" using both run_nil by fastforce
  moreover have "io_queue ?u = []" by code_simp
  ultimately show ?thesis by (simp add: Let_def)
qed

lemma live_handlers_blocking:
  assumes "\<not> expired token s" and "ms_is_open s"
  shows "run_connect_handler A s token ep au db fl k =
           (case ms_connect A s ep au db fl no_error of
              (s', ec) \<Rightarrow> post (Completion k ec None) s') \<and>
         run_query_handler A s token stmt k =
           (case ms_query A s stmt no_error of (s', ec) \<Rightarrow> post (Completion k ec None) s') \<and>
         run_store_result_handler A s token k =
           map_option (\<lambda>(s', rs, ec). post (Completion k ec (Some rs)) s')
             (ms_store_result A s no_error)"
  using assms
  by (simp add: run_connect_handler_def ms_connect_def run_query_handler_def ms_query_def
      run_store_result_handler_def ms_store_result_def Let_def split: prod.splits option.splits)

text \<open>
  C17. A live handler does what the blocking operation does on the same state, and hands
  its error code and result set to the callback.
\<close>

theorem handlers_refine_blocking:
  assumes "\<not> expired token s" and "ms_is_open s"
  shows "run_connect_handler A s token ep au db fl k =
           (case ms_connect A s ep au db fl no_error of
              (s', ec) \<Rightarrow> post (Completion k ec None) s') \<and>
         run_query_handler A s token stmt k =
           (case ms_query A s stmt no_error of (s', ec) \<Rightarrow> post (Completion k ec None) s') \<and>
         run_store_result_handler A s token k =
           map_option (\<lambda>(s', rs, ec). post (Completion k ec (Some rs)) s')
             (ms_store_result A s no_error)"
  using live_handlers_blocking [OF assms] .

theorem handlers_refine_blocking_witness:
  "run_query_handler sample_api sample_service (wp_of (cancelation_token sample_service))
       ''SELECT 1'' 7 =
     (case ms_query sample_api sample_service ''SELECT 1'' no_error of
        (s', ec) \<Rightarrow> post (Completion 7 ec None) s')"
proof -
  have "\<not> expired (wp_of (cancelation_token sample_service)) sample_service"
    and "ms_is_open sample_service"
    by code_simp+
  from handlers_refine_blocking [OF this] show ?thesis by blast
qed

end
