(* ===== verification/Work_Thread.thy ===== *)
theory Work_Thread
  imports Async_Service Embedding
begin

text \<open>
  The work thread of \<open>mysql_service\<close> statement by statement.  \<open>Async_Service\<close> runs a handler
  in one step; here the thread of the user may act between any two statements of it.  The
  source protects the connection by no lock: the test of the cancelation token is the only
  synchronisation.

  The main result justifies the coarse steps: as long as the user starts operations and
  receives callbacks, but leaves the connection itself alone while a handler is running,
  every fine-grained run is one of the coarse runs, with the same events.
\<close>

section \<open>The statements of the handlers\<close>

text \<open>
  Where a handler is: its token has been tested, the last result has been freed, the flag
  has been cleared, the library has been called, the first or next result may be fetched
  with an error code so far, the result of the library has to be taken over and assigned, or
  the callback can be posted.  \<open>result_set::assign\<close> is one statement.
\<close>

datatype stage =
    Tested
  | Freed
  | Cleared
  | Called error_code
  | Fetch error_code
  | Reset "res_ptr option" error_code
  | Assign error_code
  | Ready error_code "result_set option"

datatype 'm outcome =
    At "'m implementation" stage
  | Done "'m implementation" error_code "result_set option"

definition connect_statement ::
  "('m, 'a) mysql_api_scheme \<Rightarrow> 'm implementation \<Rightarrow> endpoint \<Rightarrow> auth_info \<Rightarrow> string \<Rightarrow> u64 \<Rightarrow>
     stage \<Rightarrow> 'm outcome option" where
  "connect_statement A i ep auth database fl st =
     (case st of
        Tested \<Rightarrow>
          let (m, _, ec) =
            mysql_real_connect A (mysql i) (ep_host ep) (user auth) (password auth)
              (c_str database) (ep_port ep) (ep_unix_socket ep) fl no_error
          in Some (At (i\<lparr>mysql := m\<rparr>) (Called ec))
      | Called ec \<Rightarrow> Some (At (i\<lparr>flags := fl\<rparr>) (Ready ec None))
      | Ready ec rs \<Rightarrow> Some (Done i ec rs)
      | _ \<Rightarrow> None)"

definition query_statement ::
  "('m, 'a) mysql_api_scheme \<Rightarrow> 'm implementation \<Rightarrow> string \<Rightarrow> stage \<Rightarrow> 'm outcome option" where
  "query_statement A i stmt st =
     (case st of
        Tested \<Rightarrow> Some (At (free_result A i) Freed)
      | Freed \<Rightarrow> Some (At (i\<lparr>first_result_stored := False\<rparr>) Cleared)
      | Cleared \<Rightarrow>
          let (m, _, ec) =
            mysql_real_query A (mysql i) (c_str stmt) (of_nat (length stmt)) no_error
          in Some (At (i\<lparr>mysql := m\<rparr>) (Ready ec None))
      | Ready ec rs \<Rightarrow> Some (Done i ec rs)
      | _ \<Rightarrow> None)"

definition store_result_statement ::
  "('m, 'a) mysql_api_scheme \<Rightarrow> 'm implementation \<Rightarrow> stage \<Rightarrow> 'm outcome option" where
  "store_result_statement A i st =
     (case st of
        Tested \<Rightarrow>
          if first_result_stored i then Some (At (free_result A i) Freed)
          else Some (At (i\<lparr>first_result_stored := True\<rparr>) (Fetch no_error))
      | Freed \<Rightarrow>
          if \<not> ms_has_more_results A i
          then Some (At i (Fetch (misc_error_code No_more_results)))
          else let (m, _, ec) = mysql_next_result A (mysql i) no_error
               in Some (At (i\<lparr>mysql := m\<rparr>) (Fetch ec))
      | Fetch ec \<Rightarrow>
          if failed ec then Some (At i (Ready ec (Some empty_set)))
          else let (m, r, ec1) = mysql_store_result A (mysql i) ec
               in Some (At (i\<lparr>mysql := m\<rparr>) (Reset r ec1))
      | Reset r ec \<Rightarrow> Some (At (reset_last_result A r i) (Assign ec))
      | Assign ec \<Rightarrow>
          (case result_set_assign A (mysql i) result_set_default (last_result i) ec of
             None \<Rightarrow> None
           | Some (m, rs, ec1) \<Rightarrow> Some (At (i\<lparr>mysql := m\<rparr>) (Ready ec1 (Some rs))))
      | Ready ec rs \<Rightarrow> Some (Done i ec rs)
      | _ \<Rightarrow> None)"

fun statement ::
  "('m, 'a) mysql_api_scheme \<Rightarrow> 'm implementation \<Rightarrow> 'k work_item \<Rightarrow> stage \<Rightarrow> 'm outcome option"
where
  "statement A i (Connect_handler token ep auth database fl k) st =
     connect_statement A i ep auth database fl st"
| "statement A i (Query_handler token stmt k) st = query_statement A i stmt st"
| "statement A i (Store_result_handler token k) st = store_result_statement A i st"

lemmas statement_defs = connect_statement_def query_statement_def store_result_statement_def

section \<open>Running a handler to its end\<close>

fun stage_rank :: "stage \<Rightarrow> nat" where
  "stage_rank Tested = 6"
| "stage_rank Freed = 5"
| "stage_rank Cleared = 4"
| "stage_rank (Called _) = 4"
| "stage_rank (Fetch _) = 4"
| "stage_rank (Reset _ _) = 3"
| "stage_rank (Assign _) = 2"
| "stage_rank (Ready _ _) = 1"

lemma statement_rank:
  "statement A i w st = Some (At i' st') \<Longrightarrow> stage_rank st' < stage_rank st"
  by (cases w; cases st)
     (auto simp: statement_defs Let_def split: prod.splits if_splits option.splits)

function finish_handler ::
  "('m, 'a) mysql_api_scheme \<Rightarrow> 'm implementation \<Rightarrow> 'k work_item \<Rightarrow> stage \<Rightarrow>
     ('m implementation \<times> 'k completion) option" where
  "finish_handler A i w st =
     (case statement A i w st of
        None \<Rightarrow> None
      | Some (Done i' ec rs) \<Rightarrow> Some (i', Completion (item_callback w) ec rs)
      | Some (At i' st') \<Rightarrow> finish_handler A i' w st')"
  by pat_completeness auto
termination
  by (relation "measure (\<lambda>(A, i, w, st). stage_rank st)") (auto dest: statement_rank)

declare finish_handler.simps [simp del]

lemma finish_at: "statement A i w st = Some (At i' st') \<Longrightarrow>
    finish_handler A i w st = finish_handler A i' w st'"
  by (simp add: finish_handler.simps [of A i])

lemma finish_done: "statement A i w st = Some (Done i' ec rs) \<Longrightarrow>
    finish_handler A i w st = Some (i', Completion (item_callback w) ec rs)"
  by (simp add: finish_handler.simps [of A i])

text \<open>The statements leave alone what a new operation looks at.\<close>

lemma statement_frame:
  "statement A i w st = Some (At i' st') \<Longrightarrow>
   initialized i' = initialized i \<and> cancelation_token i' = cancelation_token i"
  by (cases w; cases st)
     (auto simp: statement_defs frame_simps Let_def split: prod.splits if_splits option.splits)

section \<open>The handler as one step\<close>

lemma finish_connect:
  "finish_handler A i (Connect_handler token ep auth database fl k) Tested =
     (let (m, _, ec) =
        mysql_real_connect A (mysql i) (ep_host ep) (user auth) (password auth)
          (c_str database) (ep_port ep) (ep_unix_socket ep) fl no_error
      in Some (i\<lparr>mysql := m, flags := fl\<rparr>, Completion k ec None))"
  by (simp add: finish_handler.simps [of A] statement_defs Let_def split: prod.splits)

lemma finish_query:
  "finish_handler A i (Query_handler token stmt k) Tested =
     (let i1 = (free_result A i)\<lparr>first_result_stored := False\<rparr>;
          (m, _, ec) = mysql_real_query A (mysql i1) (c_str stmt) (of_nat (length stmt)) no_error
      in Some (i1\<lparr>mysql := m\<rparr>, Completion k ec None))"
  by (simp add: finish_handler.simps [of A] statement_defs Let_def split: prod.splits)

lemma finish_fetch:
  "finish_handler A i (Store_result_handler token k) (Fetch ec) =
     (if failed ec then Some (i, Completion k ec (Some empty_set))
      else map_option (\<lambda>(i', rs, ec'). (i', Completion k ec' (Some rs))) (ms_take_result A i ec))"
  by (simp add: finish_handler.simps [of A] statement_defs ms_take_result_def Let_def
      split: prod.splits option.splits)

lemma finish_store_result:
  "finish_handler A i (Store_result_handler token k) Tested =
     (case ms_next_result A i no_error of
        (i', ec) \<Rightarrow> finish_handler A i' (Store_result_handler token k) (Fetch ec))"
proof (cases "first_result_stored i")
  case True
  have "finish_handler A i (Store_result_handler token k) Tested =
      finish_handler A (free_result A i) (Store_result_handler token k) Freed"
    by (rule finish_at) (simp add: statement_defs True)
  also have "\<dots> = (case ms_next_result A i no_error of
      (i', ec) \<Rightarrow> finish_handler A i' (Store_result_handler token k) (Fetch ec))"
    using True
    by (auto simp: ms_next_result_def statement_defs Let_def intro: finish_at split: prod.splits)
  finally show ?thesis .
next
  case False
  then show ?thesis
    by (simp add: ms_next_result_def) (rule finish_at, simp add: statement_defs)
qed

lemma run_item_embedded:
  assumes "\<not> expired (item_token w) i"
  shows "run_item A (with_conn i s) w =
           map_option (\<lambda>(i', c). post c (with_conn i' s)) (finish_handler A i w Tested)"
proof (cases w)
  case (Connect_handler token ep auth database fl k)
  with assms show ?thesis
    by (simp add: run_connect_handler_def finish_connect Let_def split: prod.splits)
next
  case (Query_handler token stmt k)
  with assms show ?thesis
    by (simp add: run_query_handler_def finish_query Let_def split: prod.splits)
next
  case (Store_result_handler token k)
  with assms show ?thesis
    by (auto simp: run_store_result_handler_def finish_store_result finish_fetch
        with_conn_next_result with_conn_take_result split: prod.splits option.splits)
qed

lemma run_item_live:
  "\<not> expired (item_token w) s \<Longrightarrow>
   run_item A s w =
     map_option (\<lambda>(i, c). post c (with_conn i s)) (finish_handler A (conn s) w Tested)"
  using run_item_embedded [of w "conn s" A s] by simp

section \<open>Fine-grained steps\<close>

text \<open>
  The state: the service, and the handler that the work thread is in.  With \<open>apart\<close> the user
  makes no call on the connection while a handler is running; without it he may.  Operations
  may be started and callbacks received at any time; the destructor of the service joins the
  thread, so that it waits for the handler.  The label is the event of the coarse step, if
  the fine one completes one.
\<close>

type_synonym ('m, 'k) work_state = "('m, 'k) async_service \<times> ('k work_item \<times> stage) option"

inductive work_step ::
  "('m, 'a) mysql_api_scheme \<Rightarrow> bool \<Rightarrow> ('m, 'k) work_state \<Rightarrow> 'k event option \<Rightarrow>
     ('m, 'k) work_state \<Rightarrow> bool" for A apart where
  work_call:
    "async_step A s Call s' \<Longrightarrow> apart \<longrightarrow> r = None \<Longrightarrow>
     work_step A apart (s, r) (Some Call) (s', r)"
| work_issue:
    "async_step A s (Issue k) s' \<Longrightarrow> work_step A apart (s, r) (Some (Issue k)) (s', r)"
| work_deliver:
    "async_step A s (Deliver k) s' \<Longrightarrow> work_step A apart (s, r) (Some (Deliver k)) (s', r)"
| work_shutdown:
    "async_step A s Shutdown s' \<Longrightarrow> work_step A apart (s, None) (Some Shutdown) (s', None)"
| work_abort:
    "work_thread s \<Longrightarrow> work_queue s = xs @ w # ys \<Longrightarrow> expired (item_token w) s \<Longrightarrow>
     work_step A apart (s, None) (Some Run)
       (post (Completion (item_callback w) (operation_aborted A) (aborted_result w))
          (s\<lparr>work_queue := xs @ ys\<rparr>), None)"
| work_begin:
    "work_thread s \<Longrightarrow> work_queue s = xs @ w # ys \<Longrightarrow> \<not> expired (item_token w) s \<Longrightarrow>
     work_step A apart (s, None) None (s\<lparr>work_queue := xs @ ys\<rparr>, Some (w, Tested))"
| work_continue:
    "statement A (conn s) w st = Some (At i st') \<Longrightarrow>
     work_step A apart (s, Some (w, st)) None (with_conn i s, Some (w, st'))"
| work_finish:
    "statement A (conn s) w st = Some (Done i ec rs) \<Longrightarrow>
     work_step A apart (s, Some (w, st)) (Some Run)
       (post (Completion (item_callback w) ec rs) (with_conn i s), None)"

inductive work_run ::
  "('m, 'a) mysql_api_scheme \<Rightarrow> bool \<Rightarrow> ('m, 'k) work_state \<Rightarrow> 'k event list \<Rightarrow>
     ('m, 'k) work_state \<Rightarrow> bool" for A apart where
  work_run_nil: "work_run A apart c [] c"
| work_run_silent:
    "work_run A apart c es c' \<Longrightarrow> work_step A apart c' None c'' \<Longrightarrow> work_run A apart c es c''"
| work_run_event:
    "work_run A apart c es c' \<Longrightarrow> work_step A apart c' (Some e) c'' \<Longrightarrow>
     work_run A apart c (es @ [e]) c''"

inductive_cases work_silentE: "work_step A apart c None c'"
inductive_cases work_eventE: "work_step A apart c (Some e) c'"

section \<open>The members of the service in an embedded connection\<close>

lemma with_conn_service [simp]:
  "work_io_service (with_conn i s) = work_io_service s"
  "work_thread (with_conn i s) = work_thread s"
  "work_queue (with_conn i s) = work_queue s" "io_queue (with_conn i s) = io_queue s"
  "(with_conn i s)\<lparr>work_thread := b\<rparr> = with_conn i (s\<lparr>work_thread := b\<rparr>)"
  "(with_conn i s)\<lparr>work_queue := q\<rparr> = with_conn i (s\<lparr>work_queue := q\<rparr>)"
  "(with_conn i s)\<lparr>io_queue := c\<rparr> = with_conn i (s\<lparr>io_queue := c\<rparr>)"
  by (cases s; simp add: with_conn_def implementation.extend_def)+

lemma conn_service [simp]:
  "conn (s\<lparr>work_thread := b\<rparr>) = conn s" "conn (s\<lparr>work_queue := q\<rparr>) = conn s"
  "conn (s\<lparr>io_queue := c\<rparr>) = conn s"
  by (simp_all add: implementation.truncate_def)

lemma with_conn_service_update [simp]:
  "with_conn (conn s) (s\<lparr>work_queue := q\<rparr>) = s\<lparr>work_queue := q\<rparr>"
  using with_conn_conn [of "s\<lparr>work_queue := q\<rparr>"] by simp

lemma queue_order:
  "s\<lparr>work_queue := q, io_queue := c\<rparr> = s\<lparr>io_queue := c, work_queue := q\<rparr>"
  by simp

section \<open>Starting an operation on an open connection\<close>

text \<open>
  On an open connection starting an operation only queues a handler, in the same way in every
  state with that token.
\<close>

definition enqueue :: "'k work_item \<Rightarrow> ('m, 'k) async_service \<Rightarrow> ('m, 'k) async_service" where
  "enqueue w s = (if work_io_service s then post_work w (start_work_thread s) else s)"

lemma enqueue_embedded [simp]: "enqueue w (with_conn i s) = with_conn i (enqueue w s)"
  by (simp add: enqueue_def post_work_def start_work_thread_def)

lemma issue_open:
  assumes "async_step A s (Issue k) s'" and "initialized s"
  obtains w where "s' = enqueue w s"
    and "\<And>t. initialized t \<Longrightarrow> cancelation_token t = cancelation_token s \<Longrightarrow>
           async_step A t (Issue k) (enqueue w t)"
  using assms(1)
proof cases
  case (step_async_connect ep au db fl)
  let ?w = "Connect_handler (wp_of (cancelation_token s)) ep (auth_info_copy au) db fl k"
  have q: "ms_async_connect A t ep au db fl k = enqueue ?w t"
    if "initialized t" and "cancelation_token t = cancelation_token s" for t
    using that by (simp add: ms_async_connect_def ms_is_open_def enqueue_def)
  show ?thesis
    using that [of ?w] q async_step.step_async_connect [of A _ k ep au db fl] step_async_connect assms(2)
    by metis
next
  case (step_async_query stmt)
  let ?w = "Query_handler (wp_of (cancelation_token s)) stmt k"
  have q: "ms_async_query t stmt k = enqueue ?w t"
    if "initialized t" and "cancelation_token t = cancelation_token s" for t
    using that by (simp add: ms_async_query_def ms_is_open_def enqueue_def)
  show ?thesis
    using that [of ?w] q async_step.step_async_query [of A _ k stmt] step_async_query assms(2)
    by metis
next
  case step_async_store_result
  let ?w = "Store_result_handler (wp_of (cancelation_token s)) k"
  have q: "ms_async_store_result t k = enqueue ?w t"
    if "initialized t" and "cancelation_token t = cancelation_token s" for t
    using that by (simp add: ms_async_store_result_def ms_is_open_def enqueue_def)
  show ?thesis
    using that [of ?w] q async_step.step_async_store_result [of A _ k] step_async_store_result
      assms(2)
    by metis
qed

section \<open>The coarse state behind a running handler\<close>

text \<open>
  \<open>shadows A t (s, Some (w, st))\<close>: in the coarse state \<open>t\<close> the handler \<open>w\<close> is still queued, and
  what it comes to from there is what it comes to from its present stage.
\<close>

fun shadows ::
  "('m, 'a) mysql_api_scheme \<Rightarrow> ('m, 'k) async_service \<Rightarrow> ('m, 'k) work_state \<Rightarrow> bool" where
  "shadows A t (s, None) \<longleftrightarrow> t = s"
| "shadows A t (s, Some (w, st)) \<longleftrightarrow>
     (\<exists>xs ys. work_queue t = xs @ w # ys \<and> s = with_conn (conn s) (t\<lparr>work_queue := xs @ ys\<rparr>)) \<and>
     work_thread t \<and> \<not> expired (item_token w) t \<and> initialized t \<and> initialized s \<and>
     cancelation_token t = cancelation_token s \<and>
     finish_handler A (conn t) w Tested = finish_handler A (conn s) w st"

lemma shadows_silent:
  assumes "work_step A apart c None c'" and "shadows A t c" and "async_inv t"
  shows "shadows A t c'"
  using assms(1)
proof cases
  case (work_begin s xs w ys)
  have "initialized s"
    using assms(2,3) work_begin by (auto simp: async_inv_def item_ok_def)
  then show ?thesis using assms(2) work_begin by simp blast
next
  case (work_continue s w st i st')
  then obtain xs ys where q: "work_queue t = xs @ w # ys"
      "s = with_conn (conn s) (t\<lparr>work_queue := xs @ ys\<rparr>)"
    using assms(2) by auto
  have "with_conn i s = with_conn i (t\<lparr>work_queue := xs @ ys\<rparr>)"
    by (metis q(2) with_conn_again)
  then show ?thesis
    using assms(2) work_continue q(1) statement_frame [OF work_continue(3)]
      finish_at [OF work_continue(3)]
    by simp blast
qed

lemma shadows_issue:
  assumes "async_step A s (Issue k) s'" and "shadows A t (s, Some (w, st))"
  shows "\<exists>t'. async_step A t (Issue k) t' \<and> shadows A t' (s', Some (w, st))"
proof -
  have open_s: "initialized s" and t: "initialized t" "cancelation_token t = cancelation_token s"
    using assms(2) by simp_all
  obtain v where v: "s' = enqueue v s"
    "\<And>t. initialized t \<Longrightarrow> cancelation_token t = cancelation_token s \<Longrightarrow>
       async_step A t (Issue k) (enqueue v t)"
    using issue_open [OF assms(1) open_s] by blast
  obtain xs ys where q: "work_queue t = xs @ w # ys"
      "s = with_conn (conn s) (t\<lparr>work_queue := xs @ ys\<rparr>)"
    using assms(2) by auto
  show ?thesis
  proof (intro exI conjI)
    show "async_step A t (Issue k) (enqueue v t)" using v(2) t by blast
    have "s' = enqueue v (with_conn (conn s) (t\<lparr>work_queue := xs @ ys\<rparr>))"
      using v(1) q(2) by simp
    then show "shadows A (enqueue v t) (s', Some (w, st))"
      using assms(2) q(1)
      by (auto simp: enqueue_def post_work_def start_work_thread_def)
  qed
qed

lemma shadows_deliver:
  assumes "async_step A s (Deliver k) s'" and "shadows A t (s, Some (w, st))"
  shows "\<exists>t'. async_step A t (Deliver k) t' \<and> shadows A t' (s', Some (w, st))"
  using assms(1)
proof cases
  case (step_deliver as c bs)
  obtain xs ys where q: "work_queue t = xs @ w # ys"
      "s = with_conn (conn s) (t\<lparr>work_queue := xs @ ys\<rparr>)"
    using assms(2) by auto
  have io: "io_queue t = as @ c # bs"
    using step_deliver(3) arg_cong [OF q(2), of io_queue] by simp
  have "s' = (with_conn (conn s) (t\<lparr>work_queue := xs @ ys\<rparr>))\<lparr>io_queue := as @ bs\<rparr>"
    using step_deliver(2) q(2) by simp
  then have "s' = with_conn (conn s) (t\<lparr>io_queue := as @ bs, work_queue := xs @ ys\<rparr>)"
    by (simp add: queue_order)
  then have "shadows A (t\<lparr>io_queue := as @ bs\<rparr>) (s', Some (w, st))"
    using assms(2) q(1) by simp blast
  then show ?thesis using async_step.step_deliver [OF io, of A] step_deliver(1) by blast
qed

lemma shadows_event:
  assumes "work_step A True c (Some e) c'" and "shadows A t c"
  shows "\<exists>t'. async_step A t e t' \<and> shadows A t' c'"
  using assms(1)
proof cases
  case (work_finish s w st i ec rs)
  obtain xs ys where q: "work_queue t = xs @ w # ys"
      "s = with_conn (conn s) (t\<lparr>work_queue := xs @ ys\<rparr>)"
    using assms(2) work_finish(1) by auto
  let ?c = "Completion (item_callback w) ec rs" and ?t = "t\<lparr>work_queue := xs @ ys\<rparr>"
  have "finish_handler A (conn t) w Tested = Some (i, ?c)" and "\<not> expired (item_token w) ?t"
    using assms(2) work_finish(1) finish_done [OF work_finish(4)] by simp_all
  then have "run_item A ?t w = Some (post ?c (with_conn i ?t))"
    using run_item_live [of w ?t A] by simp
  moreover have "with_conn i s = with_conn i ?t"
    by (metis q(2) with_conn_again)
  ultimately show ?thesis
    using step_run [of t xs w ys A] q(1) assms(2) work_finish by auto
next
  case (work_abort s xs w ys)
  then have "run_item A (s\<lparr>work_queue := xs @ ys\<rparr>) w =
      Some (post (Completion (item_callback w) (operation_aborted A) (aborted_result w))
        (s\<lparr>work_queue := xs @ ys\<rparr>))"
    by (intro run_item_expired) simp
  then show ?thesis using assms(2) work_abort step_run [of s xs w ys A] by auto
next
  case (work_issue s k s' r)
  then show ?thesis
    using assms(2) shadows_issue [of A s k s' t] by (cases r) auto
next
  case (work_deliver s k s' r)
  then show ?thesis
    using assms(2) shadows_deliver [of A s k s' t] by (cases r) auto
qed (use assms(2) in auto)

section \<open>Fine-grained runs are coarse runs\<close>

lemma work_run_shadows:
  assumes "work_run A True c0 es c" and "snd c0 = None" and "async_inv (fst c0)"
  shows "\<exists>t. async_run A (fst c0) es t \<and> shadows A t c"
  using assms
proof (induction rule: work_run.induct)
  case (work_run_nil c)
  then show ?case using run_nil by (cases c) auto
next
  case (work_run_silent c es c' c'')
  then obtain t where t: "async_run A (fst c) es t" "shadows A t c'" by blast
  then have "async_inv t" using async_inv_run_events work_run_silent.prems by blast
  then show ?case using shadows_silent work_run_silent.hyps t by blast
next
  case (work_run_event c es c' e c'')
  then show ?case using shadows_event run_snoc by meson
qed

text \<open>A handler that is left alone runs to its end.\<close>

lemma work_run_finish:
  assumes "work_run A apart c es (s, Some (w, st))"
    and "finish_handler A (conn s) w st = Some (i, d)"
  shows "work_run A apart c (es @ [Run]) (post d (with_conn i s), None)"
  using assms
proof (induction A "conn s" w st arbitrary: s rule: finish_handler.induct)
  case (1 A w st)
  show ?case
  proof (cases "statement A (conn s) w st")
    case None
    then show ?thesis using "1.prems"(2) by (simp add: finish_handler.simps [of A "conn s"])
  next
    case (Some x)
    show ?thesis
    proof (cases x)
      case (At i' st')
      then have st: "statement A (conn s) w st = Some (At i' st')" using Some by simp
      have "work_run A apart c es (with_conn i' s, Some (w, st'))"
        using work_run_silent [OF "1.prems"(1) work_continue [OF st]] .
      then have "work_run A apart c (es @ [Run]) (post d (with_conn i (with_conn i' s)), None)"
        using "1.hyps" [OF Some, of "with_conn i' s" st'] At "1.prems"(2) finish_at [OF st] by simp
      then show ?thesis by simp
    next
      case (Done i' ec rs)
      then have st: "statement A (conn s) w st = Some (Done i' ec rs)" using Some by simp
      then show ?thesis
        using work_run_event [OF "1.prems"(1) work_finish [OF st]] "1.prems"(2) finish_done [OF st]
        by simp
    qed
  qed
qed

section \<open>Properties\<close>

text \<open>
  C8. Coarse steps are justified.  As long as the user makes no blocking call on the connection
  while a handler is running, every fine-grained run that ends between two handlers is a run
  of the coarse model, in which a handler is one step, with the same events: whatever holds
  of the coarse runs holds of these, although operations are started and callbacks are
  delivered while a handler is in the middle.
\<close>

theorem fine_grained_runs_are_coarse:
  assumes "impl_inv i" and "work_run A True (new_service i, None) es (s, None)"
  shows "async_run A (new_service i) es s"
  using work_run_shadows [OF assms(2)] async_inv_new [OF assms(1)] by auto

theorem fine_grained_runs_are_coarse_witness:
  "\<exists>s. async_run sample_api (new_service (sample_connection [[sample_table]]))
          [Issue (7 :: nat), Issue 8, Run] s \<and> length (io_queue s) = 1"
proof -
  let ?A = sample_api and ?s1 = "ms_async_query sample_service ''q'' (7 :: nat)"
  let ?w = "Query_handler (wp_of (cancelation_token sample_service)) ''q'' (7 :: nat)"
  let ?s2 = "ms_async_query (?s1\<lparr>work_queue := []\<rparr>) ''q'' 8"
  have c: "work_thread ?s1" "work_queue ?s1 = [] @ ?w # []" "\<not> expired (item_token ?w) ?s1"
    "io_queue ?s2 = []"
    by code_simp+
  have "work_run ?A True (sample_service, None) ([] @ [Issue 7]) (?s1, None)"
    by (rule work_run_event [OF work_run_nil work_issue [OF step_async_query]])
  then have "work_run ?A True (sample_service, None) ([] @ [Issue 7])
      (?s1\<lparr>work_queue := []\<rparr>, Some (?w, Tested))"
    using work_run_silent [OF _ work_begin [OF c(1-3)]] by simp
  then have r: "work_run ?A True (sample_service, None) (([] @ [Issue 7]) @ [Issue 8])
      (?s2, Some (?w, Tested))"
    by (rule work_run_event) (rule work_issue [OF step_async_query])
  have "finish_handler ?A (conn ?s2) ?w Tested \<noteq> None" by code_simp
  then obtain i d where "finish_handler ?A (conn ?s2) ?w Tested = Some (i, d)" by auto
  from work_run_finish [OF r this]
  have "work_run ?A True (new_service (sample_connection [[sample_table]]), None)
      [Issue 7, Issue 8, Run] (post d (with_conn i ?s2), None)"
    by (simp add: sample_service_def)
  from fine_grained_runs_are_coarse [OF sample_connection_inv this] show ?thesis
    using c(4) by (intro exI conjI) (assumption, simp add: post_def)
qed

text \<open>
  C21. Without that discipline closing does not stop a handler.  When the user closes the
  connection after the handler of a query has tested its token, the library is called with
  the handle that has just been closed, and the callback gets the code of that call instead
  of \<open>operation_aborted\<close>.
\<close>

theorem close_races_with_query:
  assumes "work_thread s" and "work_queue s = [Query_handler token stmt k]"
    and "\<not> expired token s" and "ms_is_open s"
    and "mysql_real_query A (c_mysql_close A (mysql (free_result A s))) (c_str stmt)
           (of_nat (length stmt)) no_error = (m, r, ec)"
  shows "\<exists>u. work_run A False (s, None) [Call, Run] (u, None) \<and> \<not> ms_is_open u \<and> mysql u = m \<and>
           io_queue u = io_queue s @ [Completion k ec None]"
proof -
  let ?w = "Query_handler token stmt k" and ?t = "s\<lparr>work_queue := []\<rparr>"
  let ?i = "(free_result A (conn s))\<lparr>first_result_stored := False\<rparr>"
  let ?s2 = "with_conn ?i ?t"
  have "work_run A False (s, None) [] (?t, Some (?w, Tested))"
    using work_run_silent [OF work_run_nil work_begin [of s "[]" ?w "[]"]] assms(1-3) by simp
  then have "work_run A False (s, None) [] (with_conn (free_result A (conn s)) ?t, Some (?w, Freed))"
    by (rule work_run_silent) (rule work_continue, simp add: statement_defs)
  then have "work_run A False (s, None) [] (with_conn ?i (with_conn (free_result A (conn s)) ?t),
      Some (?w, Cleared))"
    by (rule work_run_silent) (rule work_continue, simp add: statement_defs)
  then have 1: "work_run A False (s, None) [Call] (ms_close A ?s2, Some (?w, Cleared))"
    using work_run_event [OF _ work_call [OF step_close]] by fastforce
  let ?c = "ms_close A ?s2"
  have free: "mysql (free_result A (conn s)) = mysql (free_result A s)"
    by (metis conn_free_result conn_select(1))
  have is_open: "ms_is_open ?s2"
    using assms(4) by (simp add: ms_is_open_def frame_simps)
  then have closed: "mysql ?c = c_mysql_close A (mysql (free_result A s))" "\<not> initialized ?c"
    using assms(4) free
    by (simp_all add: ms_close_def close_implementation_def frame_simps free_result_empty ms_is_open_def
        Let_def)
  have "same_service ?s2 ?c" by (simp add: ms_close_def)
  then have io: "io_queue ?c = io_queue s" by (simp add: same_service_def)
  let ?v = "with_conn ((conn ?c)\<lparr>mysql := m\<rparr>) ?c"
  have "work_run A False (s, None) [Call] (?v, Some (?w, Ready ec None))"
    by (rule work_run_silent [OF 1])
       (rule work_continue, use assms(5) closed in \<open>simp add: statement_defs\<close>)
  then have "work_run A False (s, None) ([Call] @ [Run])
      (post (Completion (item_callback ?w) ec None) (with_conn (conn ?v) ?v), None)"
    by (rule work_run_event) (rule work_finish, simp add: statement_defs)
  moreover have "\<not> initialized ?v" using closed(2) by simp
  ultimately show ?thesis
    using io by (intro exI [of _ "post (Completion k ec None) ?v"]) (simp add: post_def ms_is_open_def)
qed

theorem close_races_with_query_witness:
  "\<exists>u :: (sample_server, nat) async_service. \<not> ms_is_open u \<and> last (sv_log (mysql u)) = ''query'' \<and>
     io_queue u = [Completion 7 no_error None]"
proof -
  let ?A = sample_api and ?s = "ms_async_query sample_service ''q'' (7 :: nat)"
  let ?t = "wp_of (cancelation_token sample_service)"
  let ?q = "mysql_real_query ?A (c_mysql_close ?A (mysql (free_result ?A ?s))) (c_str ''q'')
      (of_nat (length ''q'')) no_error"
  have h: "work_thread ?s" "work_queue ?s = [Query_handler ?t ''q'' 7]" "\<not> expired ?t ?s"
    "ms_is_open ?s"
    by code_simp+
  have q: "last (sv_log (fst ?q)) = ''query''" "snd (snd ?q) = no_error" "io_queue ?s = []"
    by code_simp+
  have "?q = (fst ?q, fst (snd ?q), no_error)" using q(2) by (simp add: prod_eq_iff)
  from close_races_with_query [OF h this] obtain u :: "(sample_server, nat) async_service"
    where "\<not> ms_is_open u" "mysql u = fst ?q"
      "io_queue u = [Completion 7 no_error None]"
    using q(3) by auto
  then show ?thesis using q(1) by metis
qed

end
