(* ===== verification/Connector_Pool.thy ===== *)
theory Connector_Pool
  imports Async_Service Embedding
begin

text \<open>
  Several connectors on one \<open>mysql_service\<close>, and the end of their lives.  All connectors of an
  \<open>io_service\<close> share the service, with its work thread and its two queues; each has an
  implementation of its own, which \<open>basic_io_object\<close> constructs and destroys with the
  connector.  A handler keeps a reference to the implementation it was started on, also when
  the connector is destroyed before it runs.
\<close>

section \<open>Destroying a connector\<close>

text \<open>
  \<open>mysql_service::destroy\<close>, then the destructor of the implementation: its body closes once
  more, whether open or not, and then the members go in the reverse order of their
  declarations.
\<close>

definition drop_token :: "('m, 'z) implementation_scheme \<Rightarrow> ('m, 'z) implementation_scheme" where
  "drop_token s = (fst (sp_release (cancelation_token s) s))\<lparr>cancelation_token := Empty_ptr\<rparr>"

definition implementation_destructor ::
  "('m, 'a) mysql_api_scheme \<Rightarrow> ('m, 'z) implementation_scheme \<Rightarrow>
     ('m, 'z) implementation_scheme" where
  "implementation_destructor A s = free_result A (drop_token (close_implementation A s))"

definition destroy_connector ::
  "('m, 'a) mysql_api_scheme \<Rightarrow> ('m, 'z) implementation_scheme \<Rightarrow>
     ('m, 'z) implementation_scheme" where
  "destroy_connector A s = implementation_destructor A (ms_destroy A s)"

lemma drop_token_frame [frame_simps]:
  "mysql (drop_token s) = mysql s" "initialized (drop_token s) = initialized s"
  "last_result (drop_token s) = last_result s" "cancelation_token (drop_token s) = Empty_ptr"
  by (cases "cancelation_token s"; simp add: drop_token_def)+

lemma drop_token_evolves: "evolves s (drop_token s)"
  by (cases "cancelation_token s") (auto simp: drop_token_def evolves_def)

lemma drop_token_expires: "impl_inv s \<Longrightarrow> expired (wp_of (cancelation_token s)) (drop_token s)"
  by (cases "cancelation_token s") (auto simp: drop_token_def impl_inv_def)

lemma same_service_drop_token [simp]: "same_service s (drop_token s') = same_service s s'"
  by (cases "cancelation_token s'") (simp_all add: drop_token_def same_service_def)

lemma same_service_destroy: "same_service s (destroy_connector A s)"
  by (simp add: destroy_connector_def implementation_destructor_def ms_destroy_def ms_close_def)

lemma ms_destroy_evolves: "evolves s (ms_destroy A s)"
  by (simp add: ms_destroy_def ms_close_def close_implementation_evolves)

lemma implementation_destructor_evolves: "evolves s (implementation_destructor A s)"
  unfolding implementation_destructor_def
  by (blast intro: evolves_trans close_implementation_evolves drop_token_evolves
      free_result_evolves)


lemma implementation_destructor_expires:
  assumes "impl_inv s"
  shows "expired (wp_of (cancelation_token s)) (implementation_destructor A s)"
    and "expired (wp_of (last_result s)) (implementation_destructor A s)"
proof -
  let ?c = "close_implementation A s"
  have "evolves ?c (implementation_destructor A s)"
    unfolding implementation_destructor_def
    by (blast intro: evolves_trans drop_token_evolves free_result_evolves)
  moreover have "weak_allocated (wp_of (cancelation_token s)) ?c"
    "weak_allocated (wp_of (last_result s)) ?c"
    using assms close_implementation_evolves [of s A] token_allocated [OF assms]
      sole_owner_weak_allocated [of "last_result s" s] evolves_weak_allocated
    by (auto simp: impl_inv_def)
  ultimately show "expired (wp_of (cancelation_token s)) (implementation_destructor A s)"
    and "expired (wp_of (last_result s)) (implementation_destructor A s)"
    using close_implementation_expires [OF assms, of A] evolves_expired by blast+
qed

lemma ms_destroy_inv: "impl_inv s \<Longrightarrow> impl_inv (ms_destroy A s)"
  by (simp add: ms_destroy_def ms_close_def close_implementation_inv)

lemma destroy_connector_expires:
  assumes "impl_inv s"
  shows "expired (wp_of (cancelation_token s)) (destroy_connector A s)"
    and "expired (wp_of (last_result s)) (destroy_connector A s)"
proof -
  have old: "expired (wp_of p) (destroy_connector A s)"
    if "weak_allocated (wp_of p) s" and "expired (wp_of p) (ms_destroy A s)" for p :: "'x shared_ptr"
    using that ms_destroy_evolves [of s A] implementation_destructor_evolves [of "ms_destroy A s" A]
      evolves_weak_allocated evolves_expired
    unfolding destroy_connector_def by blast
  have alloc: "weak_allocated (wp_of (cancelation_token s)) s" "weak_allocated (wp_of (last_result s)) s"
    using token_allocated [OF assms] assms sole_owner_weak_allocated by (auto simp: impl_inv_def)
  show "expired (wp_of (cancelation_token s)) (destroy_connector A s)"
    and "expired (wp_of (last_result s)) (destroy_connector A s)"
    using old [OF alloc(1)] old [OF alloc(2)] close_implementation_expires [OF assms, of A]
      implementation_destructor_expires [OF assms, of A]
    by (cases "ms_is_open s"; simp add: ms_destroy_def ms_close_def destroy_connector_def)+
qed

section \<open>The connectors of a service\<close>

text \<open>
  \<open>pool_conn P i\<close> is the connector \<open>i\<close> with the handlers and the callbacks in the two queues that
  belong to it; its copy of the flags of the service is not used.  The order in the queues
  between different connectors is lost, on which nothing relies: a step may take any element.
  The implementation of a connector that is not alive is memory that is gone; its last state
  is kept to see whether anything still reads it.
\<close>

record ('m, 'k) pool =
  pool_conn :: "nat \<Rightarrow> ('m, 'k) async_service option"
  pool_alive :: "nat set"
  pool_io :: bool
  pool_thread :: bool

definition empty_pool :: "('m, 'k) pool" where
  "empty_pool = \<lparr>pool_conn = (\<lambda>_. None), pool_alive = {}, pool_io = True, pool_thread = False\<rparr>"

definition pool_view :: "('m, 'k) pool \<Rightarrow> ('m, 'k) async_service \<Rightarrow> ('m, 'k) async_service" where
  "pool_view P s = s\<lparr>work_io_service := pool_io P, work_thread := pool_thread P\<rparr>"

definition pool_put ::
  "nat \<Rightarrow> ('m, 'k) async_service \<Rightarrow> ('m, 'k) pool \<Rightarrow> ('m, 'k) pool" where
  "pool_put i s P =
     P\<lparr>pool_conn := (pool_conn P)(i := Some s), pool_io := work_io_service s,
       pool_thread := work_thread s\<rparr>"

definition shutdown_pool :: "('m, 'k) pool \<Rightarrow> ('m, 'k) pool" where
  "shutdown_pool P =
     (if pool_io P
      then P\<lparr>pool_conn := (\<lambda>i. map_option (\<lambda>s. s\<lparr>work_queue := []\<rparr>) (pool_conn P i)),
             pool_io := False, pool_thread := False\<rparr>
      else P)"

text \<open>
  A connector is constructed, used, or destroyed; the service runs the handlers and the
  \<open>io_service\<close> delivers the callbacks of every connector there has been; the service is shut
  down for all of them.
\<close>

inductive pool_step ::
  "('m, 'a) mysql_api_scheme \<Rightarrow> ('m, 'k) pool \<Rightarrow> nat \<times> 'k event \<Rightarrow> ('m, 'k) pool \<Rightarrow> bool" for A
where
  pool_construct:
    "pool_conn P i = None \<Longrightarrow> heap_wf h \<Longrightarrow>
     pool_step A P (i, Call)
       (P\<lparr>pool_conn := (pool_conn P)(i := Some (new_service (new_implementation m h))),
          pool_alive := insert i (pool_alive P)\<rparr>)"
| pool_use:
    "pool_conn P i = Some s \<Longrightarrow> i \<in> pool_alive P \<or> e = Run \<or> (\<exists>k. e = Deliver k) \<Longrightarrow>
     e \<noteq> Shutdown \<Longrightarrow> async_step A (pool_view P s) e s' \<Longrightarrow>
     pool_step A P (i, e) (pool_put i s' P)"
| pool_destroy:
    "pool_conn P i = Some s \<Longrightarrow> i \<in> pool_alive P \<Longrightarrow>
     pool_step A P (i, Call)
       ((pool_put i (destroy_connector A (pool_view P s)) P)\<lparr>pool_alive := pool_alive P - {i}\<rparr>)"
| pool_shutdown: "pool_step A P (i, Shutdown) (shutdown_pool P)"

inductive pool_run ::
  "('m, 'a) mysql_api_scheme \<Rightarrow> (nat \<times> 'k event) list \<Rightarrow> ('m, 'k) pool \<Rightarrow> bool" for A where
  pool_run_nil: "pool_run A [] empty_pool"
| pool_run_snoc: "pool_run A es P \<Longrightarrow> pool_step A P e P' \<Longrightarrow> pool_run A (es @ [e]) P'"

section \<open>The invariant\<close>







lemma pool_view_put [simp]: "pool_view (pool_put i s P) s = s"
  by (simp add: pool_view_def pool_put_def)

lemma pool_put_alive [simp]: "(pool_put i s P)\<lparr>pool_alive := pool_alive P\<rparr> = pool_put i s P"
  by (simp add: pool_put_def)

lemma pool_view_update [simp]:
  "pool_view (P\<lparr>pool_alive := S\<rparr>) s = pool_view P s"
  "pool_view (P\<lparr>pool_conn := c\<rparr>) s = pool_view P s"
  by (simp_all add: pool_view_def)







section \<open>The callbacks of a connector\<close>

definition events_of :: "nat \<Rightarrow> (nat \<times> 'k event) list \<Rightarrow> 'k event list" where
  "events_of i es = map snd (filter (\<lambda>e. fst e = i) es)"

lemma events_of_append [simp]: "events_of i (es @ fs) = events_of i es @ events_of i fs"
  by (simp add: events_of_def)

definition pool_pending :: "('m, 'k) pool \<Rightarrow> nat \<Rightarrow> 'k multiset" where
  "pool_pending P i = (case pool_conn P i of None \<Rightarrow> {#} | Some s \<Rightarrow> pending s)"

lemma pending_view [simp]: "pending (pool_view P s) = pending s"
  by (simp add: pending_def pool_view_def)

lemma pool_pending_put:
  "pool_pending (pool_put i s P) j = (if j = i then pending s else pool_pending P j)"
  "pool_pending (P\<lparr>pool_alive := S\<rparr>) j = pool_pending P j"
  by (simp_all add: pool_pending_def pool_put_def)

lemma pool_pending_step:
  assumes "pool_step A P e P'" and "pool_io P" and "snd e \<noteq> Shutdown"
  shows "pool_io P' \<and>
         mset (delivered (events_of j [e])) + pool_pending P' j =
         mset (issued (events_of j [e])) + pool_pending P j"
  using assms
proof (induction rule: pool_step.induct)
  case (pool_construct P i h m)
  then show ?case
    by (simp add: events_of_def pool_pending_def pending_def new_service_def)
next
  case (pool_use P i s e s')
  have "work_io_service (pool_view P s)" using pool_use by (simp add: pool_view_def)
  from pending_step [OF pool_use.hyps(4) this pool_use.hyps(3)]
  show ?case
    using pool_use.hyps(1) pool_pending_put(1) [of i s' P j]
    by (auto simp: events_of_def pool_put_def pool_pending_def)
next
  case (pool_destroy P i s)
  have d: "pending (destroy_connector A (pool_view P s)) = pending s"
    "work_io_service (destroy_connector A (pool_view P s)) = pool_io P"
    using same_service_destroy [of "pool_view P s" A] pending_same_service
    by (fastforce simp: same_service_def pool_view_def pending_def)+
  then show ?case
    using pool_destroy by (auto simp: events_of_def pool_pending_put pool_pending_def pool_put_def)
qed simp

lemma pool_pending_run:
  assumes "pool_run A es P" and "Shutdown \<notin> snd ` set es"
  shows "pool_io P \<and>
         mset (delivered (events_of j es)) + pool_pending P j = mset (issued (events_of j es))"
  using assms
proof (induction rule: pool_run.induct)
  case pool_run_nil
  then show ?case by (simp add: empty_pool_def events_of_def pool_pending_def)
next
  case (pool_run_snoc es P e P')
  then have P: "pool_io P" "snd e \<noteq> Shutdown"
    "mset (delivered (events_of j es)) + pool_pending P j = mset (issued (events_of j es))"
    by auto
  have "mset (delivered (events_of j (es @ [e]))) + pool_pending P' j =
      mset (delivered (events_of j es)) + (mset (delivered (events_of j [e])) + pool_pending P' j)"
    by simp
  also have "\<dots> = mset (issued (events_of j (es @ [e])))"
    using pool_pending_step [OF pool_run_snoc.hyps(2) P(1,2), of j] P(3)
    by (simp add: union_lcomm)
  finally show ?case
    using pool_pending_step [OF pool_run_snoc.hyps(2) P(1,2)] by simp
qed

section \<open>A sample run\<close>

text \<open>
  A connector is constructed and opened, starts a query and is destroyed before the handler
  has run.
\<close>

definition sample_member :: "(sample_server, nat) async_service" where
  "sample_member = new_service (new_implementation (sample_start [[sample_table]]) fresh_heap)"

definition sample_pool :: "(sample_server, nat) pool" where
  "sample_pool =
     (let P = (empty_pool :: (sample_server, nat) pool)
      in P\<lparr>pool_conn := (pool_conn P)(0 := Some sample_member),
           pool_alive := insert 0 (pool_alive P)\<rparr>)"

definition pool_member :: "('m, 'k) pool \<Rightarrow> nat \<Rightarrow> ('m, 'k) async_service" where
  "pool_member P i = pool_view P (the (pool_conn P i))"

definition sample_pool_open :: "(sample_server, nat) pool" where
  "sample_pool_open =
     pool_put 0 (fst (ms_open sample_api (pool_member sample_pool 0) no_error)) sample_pool"

definition sample_pool_query :: "(sample_server, nat) pool" where
  "sample_pool_query =
     pool_put 0 (ms_async_query (pool_member sample_pool_open 0) ''q'' 7) sample_pool_open"

definition sample_pool_destroyed :: "(sample_server, nat) pool" where
  "sample_pool_destroyed =
     (pool_put 0 (destroy_connector sample_api (pool_member sample_pool_query 0)) sample_pool_query)
       \<lparr>pool_alive := pool_alive sample_pool_query - {0}\<rparr>"

lemma pool_put_member [simp]:
  "pool_conn (pool_put i s P) i = Some s" "pool_alive (pool_put i s P) = pool_alive P"
  by (simp_all add: pool_put_def)

lemma sample_pool_run:
  "pool_run sample_api [(0, Call), (0, Call), (0, Issue 7), (0, Call)] sample_pool_destroyed"
proof -
  let ?A = sample_api
  have c: "pool_conn sample_pool 0 = Some sample_member" "0 \<in> pool_alive sample_pool"
    by (simp_all add: sample_pool_def Let_def)
  have 1: "pool_run ?A [(0, Call)] sample_pool"
    using pool_run_snoc [OF pool_run_nil pool_construct [OF _ fresh_heap_wf, of empty_pool 0]]
    by (simp add: sample_pool_def sample_member_def empty_pool_def Let_def)
  have "pool_step ?A sample_pool (0, Call) sample_pool_open"
    unfolding sample_pool_open_def pool_member_def
    by (rule pool_use [of _ _ sample_member]) (simp_all add: c step_open)
  from pool_run_snoc [OF 1 this] have 2: "pool_run ?A [(0, Call), (0, Call)] sample_pool_open"
    by simp
  have "pool_step ?A sample_pool_open (0, Issue 7) sample_pool_query"
    unfolding sample_pool_query_def pool_member_def
    by (rule pool_use [of _ _ "the (pool_conn sample_pool_open 0)"])
       (simp_all add: c step_async_query sample_pool_open_def)
  from pool_run_snoc [OF 2 this]
  have 3: "pool_run ?A [(0, Call), (0, Call), (0, Issue 7)] sample_pool_query"
    by simp
  have "pool_step ?A sample_pool_query (0, Call) sample_pool_destroyed"
    unfolding sample_pool_destroyed_def pool_member_def
    by (rule pool_destroy) (simp_all add: c sample_pool_query_def sample_pool_open_def)
  from pool_run_snoc [OF 3 this] show ?thesis by simp
qed

section \<open>Properties\<close>



text \<open>
  C23. Each connector gets its callbacks exactly once, whatever the other connectors do and
  whether or not it is destroyed meanwhile: as long as the service is not shut down, what has
  been delivered for it and what is pending is what was started on it.
\<close>

theorem pool_callbacks_exactly_once:
  assumes "pool_run A es P" and "Shutdown \<notin> snd ` set es"
  shows "mset (issued (events_of i es)) = mset (delivered (events_of i es)) + pool_pending P i"
  using pool_pending_run [OF assms] by simp

theorem pool_callbacks_exactly_once_witness: "pool_pending sample_pool_destroyed 0 = {#7#}"
proof -
  let ?es = "[(0, Call), (0, Call), (0, Issue (7 :: nat)), (0 :: nat, Call)]"
  have "Shutdown \<notin> snd ` set ?es" by simp
  from pool_callbacks_exactly_once [OF sample_pool_run this, of 0] show ?thesis
    by (simp add: events_of_def)
qed

text \<open>
  The destructor of a connector closes the handle if it is open and only then, and leaves
  every result set and every operation of the connector expired.
\<close>

theorem destroy_connector_behaviour:
  assumes "impl_inv s"
  shows "mysql (destroy_connector A s) =
           mysql (free_result A
             (if ms_is_open s then s\<lparr>mysql := c_mysql_close A (mysql s)\<rparr> else s)) \<and>
         \<not> ms_is_open (destroy_connector A s) \<and>
         expired (wp_of (cancelation_token s)) (destroy_connector A s) \<and>
         expired (wp_of (last_result s)) (destroy_connector A s)"
  using destroy_connector_expires [OF assms, of A]
  by (simp add: destroy_connector_def implementation_destructor_def ms_destroy_def ms_close_def
      ms_is_open_def frame_simps free_result_empty close_implementation_handle)

theorem destroy_connector_behaviour_witness:
  "sv_log (mysql (destroy_connector sample_api (sample_connection []))) = [''init'', ''close''] \<and>
   expired (wp_of (cancelation_token (sample_connection [])))
     (destroy_connector sample_api (sample_connection []))"
proof -
  let ?s = "sample_connection []"
  have "sv_log (mysql (free_result sample_api
      (if ms_is_open ?s then ?s\<lparr>mysql := c_mysql_close sample_api (mysql ?s)\<rparr> else ?s))) =
      [''init'', ''close'']"
    by code_simp
  then show ?thesis
    using destroy_connector_behaviour [OF sample_connection_inv [of "[]"], where A = sample_api]
    by metis
qed

end
