(* ===== verification/Library_Protocol.thy ===== *)
theory Library_Protocol
  imports Connector_Pool Result_Sharing Work_Thread
begin

text \<open>
  How the services use the client library: its handle is initialised before it is used and closed
  once, every result is freed once and not used afterwards.  The theory wraps any library in one
  that keeps accounts, and shows what the accounts say after every run of \<open>mysql_service\<close>.
\<close>

section \<open>A library that keeps accounts\<close>

datatype routine =
    Init | Close | Set_options | Real_connect | Real_query | Store_result | Next_result
  | Free_result | Fetch_field | Fetch_row | Set_autocommit | Commit | Rollback | Nonblocking

text \<open>
  Around the state of a library: whether the handle is initialised, the results that have been
  handed out and not freed, and the routines that were called although they must not be.  The
  accounts are about the routines that act on the handle or on a result.  Those that only read it,
  \<open>mysql_errno\<close>, \<open>mysql_error\<close>, \<open>mysql_affected_rows\<close>, \<open>mysql_more_results\<close> and the counts of
  a result among them, are functions of its state, and are passed on as they are: a read of a
  handle that is not open, as \<open>affected_rows\<close> and \<open>error_message\<close> make one, leaves no trace here.
\<close>

record 'm tracked =
  lib :: 'm
  handle_open :: bool
  live_results :: "res_ptr list"
  misuses :: "routine list"

definition track :: "'m \<Rightarrow> 'm tracked" where
  "track m = \<lparr>lib = m, handle_open = False, live_results = [], misuses = []\<rparr>"

definition demand :: "routine \<Rightarrow> bool \<Rightarrow> 'm tracked \<Rightarrow> 'm tracked" where
  "demand c ok t = (if ok then t else t\<lparr>misuses := c # misuses t\<rparr>)"

definition on_handle ::
  "routine \<Rightarrow> ('m \<Rightarrow> 'm \<times> 'r) \<Rightarrow> 'm tracked \<Rightarrow> 'm tracked \<times> 'r" where
  "on_handle c f t = (case f (lib t) of (m, r) \<Rightarrow> ((demand c (handle_open t) t)\<lparr>lib := m\<rparr>, r))"

definition on_result ::
  "routine \<Rightarrow> ('m \<Rightarrow> res_ptr \<Rightarrow> 'm \<times> 'r) \<Rightarrow> 'm tracked \<Rightarrow> res_ptr \<Rightarrow> 'm tracked \<times> 'r" where
  "on_result c f t p =
     (case f (lib t) p of (m, r) \<Rightarrow> ((demand c (p \<in> set (live_results t)) t)\<lparr>lib := m\<rparr>, r))"

fun handed_out :: "res_ptr option \<Rightarrow> res_ptr list" where
  "handed_out None = []"
| "handed_out (Some p) = [p]"

definition hand_out :: "'m tracked \<times> res_ptr option \<Rightarrow> 'm tracked \<times> res_ptr option" where
  "hand_out x =
     (case x of (t, p) \<Rightarrow> (t\<lparr>live_results := handed_out p @ live_results t\<rparr>, p))"

definition tracked_init :: "('m, 'a) mysql_api_scheme \<Rightarrow> 'm tracked \<Rightarrow> 'm tracked \<times> bool" where
  "tracked_init A t =
     (case c_mysql_init A (lib t) of
        (m, ok) \<Rightarrow> ((demand Init (\<not> handle_open t) t)\<lparr>lib := m, handle_open := ok\<rparr>, ok))"

definition tracked_close :: "('m, 'a) mysql_api_scheme \<Rightarrow> 'm tracked \<Rightarrow> 'm tracked" where
  "tracked_close A t =
     (demand Close (handle_open t) t)\<lparr>lib := c_mysql_close A (lib t), handle_open := False\<rparr>"

definition tracked_free ::
  "('m, 'a) mysql_api_scheme \<Rightarrow> 'm tracked \<Rightarrow> res_ptr \<Rightarrow> 'm tracked" where
  "tracked_free A t p =
     (demand Free_result (p \<in> set (live_results t)) t)
       \<lparr>lib := c_mysql_free_result A (lib t) p, live_results := remove1 p (live_results t)\<rparr>"

text \<open>\<open>x\<close> are the further routines of a library that extends the record.\<close>

definition tracked_api ::
  "('m, 'a) mysql_api_scheme \<Rightarrow> 'x \<Rightarrow> ('m tracked, 'x) mysql_api_scheme" where
  "tracked_api A x =
     \<lparr>CR = CR A, MYSQL_SECURE_AUTH = MYSQL_SECURE_AUTH A,
      CLIENT_MULTI_RESULTS = CLIENT_MULTI_RESULTS A,
      CLIENT_MULTI_STATEMENTS = CLIENT_MULTI_STATEMENTS A, NOT_NULL_FLAG = NOT_NULL_FLAG A,
      PRI_KEY_FLAG = PRI_KEY_FLAG A, UNIQUE_KEY_FLAG = UNIQUE_KEY_FLAG A,
      MULTIPLE_KEY_FLAG = MULTIPLE_KEY_FLAG A, UNSIGNED_FLAG = UNSIGNED_FLAG A,
      ZEROFILL_FLAG = ZEROFILL_FLAG A, BINARY_FLAG = BINARY_FLAG A,
      AUTO_INCREMENT_FLAG = AUTO_INCREMENT_FLAG A,
      NO_DEFAULT_VALUE_FLAG = NO_DEFAULT_VALUE_FLAG A, MYSQL_WAIT_READ = MYSQL_WAIT_READ A,
      MYSQL_WAIT_WRITE = MYSQL_WAIT_WRITE A, MYSQL_WAIT_EXCEPT = MYSQL_WAIT_EXCEPT A,
      MYSQL_WAIT_TIMEOUT = MYSQL_WAIT_TIMEOUT A, MYSQL_OPT_NONBLOCK = MYSQL_OPT_NONBLOCK A,
      operation_aborted_value = operation_aborted_value A,
      c_mysql_errno = (\<lambda>t. c_mysql_errno A (lib t)),
      c_mysql_error = (\<lambda>t. c_mysql_error A (lib t)),
      c_mysql_init = tracked_init A,
      c_mysql_close = tracked_close A,
      c_mysql_options = (\<lambda>t opt arg. on_handle Set_options (\<lambda>m. c_mysql_options A m opt arg) t),
      c_mysql_real_connect =
        (\<lambda>t host us pw db port sock fl.
           on_handle Real_connect (\<lambda>m. c_mysql_real_connect A m host us pw db port sock fl) t),
      c_mysql_real_query =
        (\<lambda>t stmt len. on_handle Real_query (\<lambda>m. c_mysql_real_query A m stmt len) t),
      c_mysql_field_count = (\<lambda>t. c_mysql_field_count A (lib t)),
      c_mysql_affected_rows = (\<lambda>t. c_mysql_affected_rows A (lib t)),
      c_mysql_store_result = (\<lambda>t. hand_out (on_handle Store_result (c_mysql_store_result A) t)),
      c_mysql_more_results = (\<lambda>t. c_mysql_more_results A (lib t)),
      c_mysql_next_result = on_handle Next_result (c_mysql_next_result A),
      c_mysql_free_result = tracked_free A,
      c_mysql_num_rows = (\<lambda>t. c_mysql_num_rows A (lib t)),
      c_mysql_num_fields = (\<lambda>t. c_mysql_num_fields A (lib t)),
      c_mysql_fetch_field = on_result Fetch_field (c_mysql_fetch_field A),
      c_mysql_fetch_row = on_result Fetch_row (c_mysql_fetch_row A),
      c_mysql_fetch_lengths = (\<lambda>t. c_mysql_fetch_lengths A (lib t)),
      c_mysql_autocommit = (\<lambda>t mode. on_handle Set_autocommit (\<lambda>m. c_mysql_autocommit A m mode) t),
      c_mysql_commit = on_handle Commit (c_mysql_commit A),
      c_mysql_rollback = on_handle Rollback (c_mysql_rollback A), \<dots> = x\<rparr>"

lemma tracked_api_fields [simp]:
  "c_mysql_init (tracked_api A x) = tracked_init A"
  "c_mysql_close (tracked_api A x) = tracked_close A"
  "c_mysql_options (tracked_api A x) =
     (\<lambda>t opt arg. on_handle Set_options (\<lambda>m. c_mysql_options A m opt arg) t)"
  "c_mysql_real_connect (tracked_api A x) =
     (\<lambda>t host us pw db port sock fl.
        on_handle Real_connect (\<lambda>m. c_mysql_real_connect A m host us pw db port sock fl) t)"
  "c_mysql_real_query (tracked_api A x) =
     (\<lambda>t stmt len. on_handle Real_query (\<lambda>m. c_mysql_real_query A m stmt len) t)"
  "c_mysql_store_result (tracked_api A x) =
     (\<lambda>t. hand_out (on_handle Store_result (c_mysql_store_result A) t))"
  "c_mysql_next_result (tracked_api A x) = on_handle Next_result (c_mysql_next_result A)"
  "c_mysql_free_result (tracked_api A x) = tracked_free A"
  "c_mysql_fetch_field (tracked_api A x) = on_result Fetch_field (c_mysql_fetch_field A)"
  "c_mysql_fetch_row (tracked_api A x) = on_result Fetch_row (c_mysql_fetch_row A)"
  "c_mysql_autocommit (tracked_api A x) =
     (\<lambda>t mode. on_handle Set_autocommit (\<lambda>m. c_mysql_autocommit A m mode) t)"
  "c_mysql_commit (tracked_api A x) = on_handle Commit (c_mysql_commit A)"
  "c_mysql_rollback (tracked_api A x) = on_handle Rollback (c_mysql_rollback A)"
  by (simp_all add: tracked_api_def)

text \<open>What the library does is what the one behind it does.\<close>

lemma on_handle_lib:
  "map_prod lib id (on_handle c f t) = f (lib t)"
  by (simp add: on_handle_def demand_def split: prod.split)

lemma tracked_api_lib:
  "lib (fst (c_mysql_init (tracked_api A x) t)) = fst (c_mysql_init A (lib t))"
  "lib (c_mysql_free_result (tracked_api A x) t p) = c_mysql_free_result A (lib t) p"
  "map_prod lib id (c_mysql_store_result (tracked_api A x) t) = c_mysql_store_result A (lib t)"
  by (simp_all add: tracked_init_def tracked_free_def hand_out_def on_handle_def split: prod.splits)

section \<open>The accounts of a connection\<close>

text \<open>The operations of \<open>mysql_service\<close> that do not ask whether the connection is open.\<close>

definition unguarded :: "routine set" where
  "unguarded = {Set_options, Store_result, Set_autocommit}"

lemma unguarded_routines [simp]:
  "Set_options \<in> unguarded" "Store_result \<in> unguarded" "Set_autocommit \<in> unguarded"
  by (simp_all add: unguarded_def)

text \<open>
  The handle is open when the connection takes it to be, and nothing was misused but the routines
  \<open>U\<close>.  The results that have not been freed are the last one and \<open>r\<close>, which the library has just
  handed out and which is about to become the last one.
\<close>

definition owing ::
  "routine set \<Rightarrow> res_ptr option \<Rightarrow> ('m tracked, 'z) implementation_scheme \<Rightarrow> bool" where
  "owing U r s \<longleftrightarrow>
     handle_open (mysql s) = initialized s \<and>
     live_results (mysql s) = handed_out r @ handed_out (sp_get (last_result s)) \<and>
     set (misuses (mysql s)) \<subseteq> U"

text \<open>Between the calls the last result is the only one there is.\<close>

definition accounted :: "routine set \<Rightarrow> ('m tracked, 'z) implementation_scheme \<Rightarrow> bool" where
  "accounted U s \<longleftrightarrow>
     handle_open (mysql s) = initialized s \<and>
     live_results (mysql s) = handed_out (sp_get (last_result s)) \<and>
     set (misuses (mysql s)) \<subseteq> U"

lemma owing_None: "owing U None s = accounted U s"
  by (simp add: owing_def accounted_def)

lemma accountedI:
  assumes "accounted U s" and "handle_open m = handle_open (mysql s)"
    and "live_results m = live_results (mysql s)" and "set (misuses m) \<subseteq> U"
  shows "accounted U (s\<lparr>mysql := m\<rparr>)"
  using assms by (simp add: accounted_def)

lemma accounted_frame [simp]:
  "accounted U (s\<lparr>flags := fl\<rparr>) = accounted U s"
  "accounted U (s\<lparr>first_result_stored := b\<rparr>) = accounted U s"
  "accounted U (cancel s) = accounted U s"
  by (simp_all add: accounted_def frame_simps)

text \<open>A routine on the handle, called when it is open or without asking.\<close>

lemma on_handle_accounted:
  assumes "on_handle c f (mysql s) = (t, r)" and "accounted U s" and "initialized s \<or> c \<in> U"
  shows "accounted U (s\<lparr>mysql := t\<rparr>)"
  using assms by (auto simp: on_handle_def demand_def accounted_def split: prod.splits if_splits)

lemma free_result_accounted:
  assumes "impl_inv s" and "accounted U s"
  shows "accounted U (free_result (tracked_api A x) s)"
  using assms
  by (cases "last_result s")
     (auto simp: free_result_def result_set_deleter_def tracked_free_def demand_def accounted_def
       impl_inv_def split: option.splits)

text \<open>While a new result replaces the last one there are two.\<close>

lemma reset_last_result_accounted:
  assumes "impl_inv s" and "owing U r s"
  shows "accounted U (reset_last_result (tracked_api A x) r s) \<and>
         misuses (mysql (reset_last_result (tracked_api A x) r s)) = misuses (mysql s)"
  using assms
  by (cases "last_result s"; cases r)
     (auto simp: reset_last_result_def sp_make_def result_set_deleter_def tracked_free_def demand_def
       owing_def accounted_def impl_inv_def split: option.splits)

section \<open>Fetching\<close>

text \<open>Reading a result that has not been freed leaves the accounts alone.\<close>

definition same_accounts :: "'m tracked \<Rightarrow> 'm tracked \<Rightarrow> bool" where
  "same_accounts t t' \<longleftrightarrow>
     handle_open t' = handle_open t \<and> live_results t' = live_results t \<and> misuses t' = misuses t"

lemma same_accounts_refl [simp]: "same_accounts t t"
  by (simp add: same_accounts_def)

lemma on_result_accounts:
  "on_result c f t p = (t', r) \<Longrightarrow> p \<in> set (live_results t) \<Longrightarrow> same_accounts t t'"
  by (auto simp: on_result_def demand_def same_accounts_def split: prod.splits)

lemma same_accounts_live:
  "same_accounts t t' \<Longrightarrow> same_accounts t' t'' \<Longrightarrow> same_accounts t t''"
  "same_accounts t t' \<Longrightarrow> p \<in> set (live_results t') \<longleftrightarrow> p \<in> set (live_results t)"
  by (simp_all add: same_accounts_def)

lemma fetch_fields_accounts:
  assumes "fetch_fields (tracked_api A x) t p infos = Some y" and "p \<in> set (live_results t)"
  shows "same_accounts t (fst y)"
proof -
  have "B = tracked_api A x \<longrightarrow> p \<in> set (live_results t) \<longrightarrow> same_accounts t (fst y)"
    if "fetch_fields B t p infos = Some y" for B t p infos y
  proof (rule fetch_fields.raw_induct [OF _ that, where
        P = "\<lambda>B t p infos y. B = tracked_api A x \<longrightarrow> p \<in> set (live_results t) \<longrightarrow> same_accounts t (fst y)"],
      intro impI)
    fix f and B :: "('a tracked, 'b) mysql_api_scheme" and t p infos y
    assume IH: "\<And>B t p infos y. f B t p infos = Some y \<Longrightarrow>
        B = tracked_api A x \<longrightarrow> p \<in> set (live_results t) \<longrightarrow> same_accounts t (fst y)"
      and body: "(case c_mysql_fetch_field B t p of
          (t', None) \<Rightarrow> Some (t', infos) | (t', Some g) \<Rightarrow> f B t' p (infos @ [g])) = Some y"
      and B: "B = tracked_api A x" and p: "p \<in> set (live_results t)"
    obtain t' fo where f: "c_mysql_fetch_field B t p = (t', fo)" by fastforce
    then have a: "same_accounts t t'" using on_result_accounts p B by fastforce
    show "same_accounts t (fst y)"
    proof (cases fo)
      case None
      then show ?thesis using body f a by auto
    next
      case (Some g)
      then have "f B t' p (infos @ [g]) = Some y" using body f by simp
      then show ?thesis using IH B p a same_accounts_live by blast
    qed
  qed
  then show ?thesis using assms by blast
qed

lemma fetch_rows_accounts:
  assumes "fetch_rows (tracked_api A x) t p infos ec vs = Some y" and "p \<in> set (live_results t)"
  shows "same_accounts t (fst y)"
proof -
  have "B = tracked_api A x \<longrightarrow> p \<in> set (live_results t) \<longrightarrow> same_accounts t (fst y)"
    if "fetch_rows B t p infos ec vs = Some y" for B t p infos ec vs y
  proof (rule fetch_rows.raw_induct [OF _ that, where
        P = "\<lambda>B t p infos ec vs y.
          B = tracked_api A x \<longrightarrow> p \<in> set (live_results t) \<longrightarrow> same_accounts t (fst y)"], intro impI)
    fix f and B :: "('a tracked, 'b) mysql_api_scheme" and t p infos ec vs y
    assume IH: "\<And>B t p infos ec vs y. f B t p infos ec vs = Some y \<Longrightarrow>
        B = tracked_api A x \<longrightarrow> p \<in> set (live_results t) \<longrightarrow> same_accounts t (fst y)"
      and body: "(case mysql_fetch_row B t p ec of
          (t', None, ec') \<Rightarrow> Some (t', vs, ec')
        | (t', Some x, ec') \<Rightarrow>
            (case make_row B t' p x (c_mysql_fetch_lengths B t' p) infos of
               None \<Rightarrow> None
             | Some rw \<Rightarrow> f B t' p infos ec' (vs @ [rw]))) = Some y"
      and B: "B = tracked_api A x" and p: "p \<in> set (live_results t)"
    obtain t' ro ec' where r: "mysql_fetch_row B t p ec = (t', ro, ec')" by (metis prod_cases3)
    then have a: "same_accounts t t'"
      using on_result_accounts [of Fetch_row "c_mysql_fetch_row A" t p t'] p B
      by (auto simp: mysql_fetch_row_def split: prod.splits)
    show "same_accounts t (fst y)"
    proof (cases ro)
      case None
      then show ?thesis using body r a by auto
    next
      case (Some x)
      then obtain rw where "f B t' p infos ec' (vs @ [rw]) = Some y"
        using body r by (auto split: option.splits)
      then show ?thesis using IH B p a same_accounts_live by blast
    qed
  qed
  then show ?thesis using assms by blast
qed

lemma assign_accounts:
  assumes "result_set_assign (tracked_api A x) t rs sp ec = Some (t', rs', ec')"
    and "set (handed_out (sp_get sp)) \<subseteq> set (live_results t)"
  shows "same_accounts t t'"
proof (cases "sp_get sp")
  case None
  then show ?thesis using assms(1) by (simp add: result_set_assign_def Let_def)
next
  case (Some p)
  then have p: "p \<in> set (live_results t)" using assms(2) by simp
  show ?thesis
  proof (cases "t' = t")
    case False
    then obtain t1 infos vs vs' where f: "fetch_fields (tracked_api A x) t p [] = Some (t1, infos)"
        "fetch_rows (tracked_api A x) t1 p infos ec vs = Some (t', vs', ec')"
      using assms(1) Some
      by (auto simp: result_set_assign_def Let_def split: option.splits if_splits)
    have "same_accounts t t1" using fetch_fields_accounts [OF f(1) p] by simp
    moreover from this have "p \<in> set (live_results t1)" using p same_accounts_live(2) by blast
    then have "same_accounts t1 t'" using fetch_rows_accounts [OF f(2)] by simp
    ultimately show ?thesis by (rule same_accounts_live(1))
  qed simp
qed

section \<open>The operations\<close>

lemma open_accounted:
  assumes "accounted U s"
  shows "accounted U (fst (ms_open (tracked_api A x) s ec))"
  using assms
  by (auto simp: ms_open_def ms_is_open_def mysql_init_def tracked_init_def demand_def
      accounted_def Let_def split: prod.splits)

lemma close_implementation_accounted:
  assumes "impl_inv s" and "accounted U s"
  shows "accounted U (close_implementation (tracked_api A x) s)"
proof -
  let ?s1 = "if initialized s
    then s\<lparr>mysql := tracked_close A (mysql s), initialized := False\<rparr> else s"
  have "accounted U ?s1"
    using assms(2) by (auto simp: accounted_def tracked_close_def demand_def)
  then show ?thesis
    using free_result_accounted [of "?s1\<lparr>first_result_stored := False\<rparr>" U A] assms(1)
    by (auto simp: close_implementation_def Let_def frame_simps)
qed

lemma close_accounted:
  "impl_inv s \<Longrightarrow> accounted U s \<Longrightarrow> accounted U (ms_close (tracked_api A x) s)"
  by (simp add: ms_close_def close_implementation_accounted)

lemma set_option_accounted:
  "accounted U s \<Longrightarrow> initialized s \<or> Set_options \<in> U \<Longrightarrow>
   accounted U (fst (ms_set_option (tracked_api A x) s opt ec))"
  by (auto simp: ms_set_option_def mysql_options_def Let_def
      intro: on_handle_accounted split: prod.splits)

lemma real_connect_accounted:
  assumes "accounted U s" and "initialized s"
    and "mysql_real_connect (tracked_api A x) (mysql s) h u pw db port sock fl ec = (t, r, ec')"
  shows "accounted U (s\<lparr>mysql := t\<rparr>)"
  using assms
  by (auto simp: mysql_real_connect_def Let_def intro: on_handle_accounted split: prod.splits)

lemma connect_accounted:
  assumes "accounted U s"
  shows "accounted U (fst (ms_connect (tracked_api A x) s ep au db fl ec))"
proof -
  define p where "p = (if \<not> ms_is_open s then ms_open (tracked_api A x) s ec else (s, ec))"
  have p: "accounted U (fst p)" by (simp add: p_def assms open_accounted)
  show ?thesis
  proof (cases "\<not> ms_is_open s \<and> failed (snd p)")
    case True
    then show ?thesis using p by (auto simp: ms_connect_def p_def Let_def split: prod.splits)
  next
    case False
    then have i: "initialized (fst p)"
      using ms_open_opens [of "tracked_api A x" s ec] by (auto simp: p_def ms_is_open_def)
    obtain t r e where c: "mysql_real_connect (tracked_api A x) (mysql (fst p)) (ep_host ep) (user au)
        (password au) (c_str db) (ep_port ep) (ep_unix_socket ep) fl (snd p) = (t, r, e)"
      by (metis prod_cases3)
    have "fst (ms_connect (tracked_api A x) s ep au db fl ec) = (fst p)\<lparr>mysql := t, flags := fl\<rparr>"
      using False c by (auto simp: ms_connect_def p_def Let_def split: prod.splits if_splits)
    then show ?thesis using real_connect_accounted [OF p i c] by simp
  qed
qed

lemma query_accounted:
  assumes "impl_inv s" and "accounted U s"
  shows "accounted U (fst (ms_query (tracked_api A x) s stmt ec))"
proof (cases "ms_is_open s")
  case True
  let ?s1 = "(free_result (tracked_api A x) s)\<lparr>first_result_stored := False\<rparr>"
  obtain t r where q: "on_handle Real_query
      (\<lambda>m. c_mysql_real_query A m (c_str stmt) (of_nat (length stmt))) (mysql ?s1) = (t, r)"
    by fastforce
  have "accounted U ?s1" using free_result_accounted [OF assms] by simp
  moreover have "initialized ?s1" using True by (simp add: ms_is_open_def frame_simps)
  ultimately have "accounted U (?s1\<lparr>mysql := t\<rparr>)" using on_handle_accounted [OF q] by simp
  moreover have "fst (ms_query (tracked_api A x) s stmt ec) = ?s1\<lparr>mysql := t\<rparr>"
    using True q by (simp add: ms_query_def mysql_real_query_def Let_def)
  ultimately show ?thesis by simp
qed (use assms in \<open>simp add: ms_query_def\<close>)

lemma next_result_accounted:
  assumes "impl_inv s" and "accounted U s"
  shows "accounted U (fst (ms_next_result (tracked_api A x) s ec))"
proof -
  let ?s1 = "free_result (tracked_api A x) s"
  have a: "accounted U ?s1" by (rule free_result_accounted [OF assms])
  obtain t r where q: "on_handle Next_result (c_mysql_next_result A) (mysql ?s1) = (t, r)"
    by fastforce
  have "initialized ?s1" if "ms_has_more_results (tracked_api A x) ?s1"
    using that by (auto simp: ms_has_more_results_def ms_is_open_def split: if_splits)
  then show ?thesis
    using a q assms(2) on_handle_accounted [OF q a]
    by (auto simp: ms_next_result_def mysql_next_result_def Let_def split: prod.splits)
qed

lemma take_result_accounted:
  assumes "impl_inv s" and "accounted U s" and "initialized s \<or> Store_result \<in> U"
    and "ms_take_result (tracked_api A x) s ec = Some (s', rs, ec')"
  shows "accounted U s' \<and>
         misuses (mysql s') = misuses (fst (on_handle Store_result (c_mysql_store_result A) (mysql s)))"
proof -
  obtain t r where h: "on_handle Store_result (c_mysql_store_result A) (mysql s) = (t, r)"
    by fastforce
  define t' where "t' = t\<lparr>live_results := handed_out r @ live_results t\<rparr>"
  define s1 where "s1 = reset_last_result (tracked_api A x) r (s\<lparr>mysql := t'\<rparr>)"
  have t: "handle_open t = handle_open (mysql s)" "live_results t = live_results (mysql s)"
    "set (misuses t) \<subseteq> insert Store_result (set (misuses (mysql s)))"
    using h by (auto simp: on_handle_def demand_def split: prod.splits if_splits)
  have "accounted U s1 \<and> misuses (mysql s1) = misuses (mysql (s\<lparr>mysql := t'\<rparr>))"
    unfolding s1_def
    by (rule reset_last_result_accounted)
       (use assms(1-3) t h in \<open>auto simp: t'_def owing_def accounted_def on_handle_def demand_def frame_simps
         split: prod.splits if_splits\<close>)
  then have s1: "accounted U s1" "misuses (mysql s1) = misuses t" by (simp_all add: t'_def)
  obtain e t2 where a: "result_set_assign (tracked_api A x) (mysql s1) result_set_default (last_result s1) e =
        Some (t2, rs, ec')" and s': "s' = s1\<lparr>mysql := t2\<rparr>"
    using assms(4) h
    by (auto simp: ms_take_result_def mysql_store_result_def hand_out_def Let_def t'_def [symmetric]
        s1_def [symmetric] split: prod.splits option.splits)
  have "same_accounts (mysql s1) t2"
    by (rule assign_accounts [OF a]) (use s1 in \<open>simp add: accounted_def\<close>)
  then show ?thesis using s1 h by (simp add: s' same_accounts_def accounted_def)
qed

lemma store_result_accounted:
  assumes "impl_inv s" and "accounted U s" and "Store_result \<in> U"
    and "ms_store_result (tracked_api A x) s ec = Some (s', rs, ec')"
  shows "accounted U s'"
proof -
  obtain s1 ec1 where n: "ms_next_result (tracked_api A x) s ec = (s1, ec1)" by fastforce
  have "accounted U s1" "impl_inv s1"
    using next_result_accounted [OF assms(1,2), of A x ec] n assms(1)
      keepsD(1) [OF keeps_next_result, of s "tracked_api A x" ec] by simp_all
  then show ?thesis
    using assms(3,4) n take_result_accounted [of s1 U A x ec1]
    by (auto simp: ms_store_result_def split: if_splits)
qed

lemma autocommit_accounted:
  "accounted U s \<Longrightarrow> Set_autocommit \<in> U \<Longrightarrow>
   accounted U (fst (ms_autocommit (tracked_api A x) s mode ec))"
  by (auto simp: ms_autocommit_def mysql_autocommit_def Let_def
      intro: on_handle_accounted split: prod.splits)

lemma commit_rollback_accounted:
  "accounted U s \<Longrightarrow> accounted U (fst (ms_commit (tracked_api A x) s ec))"
  "accounted U s \<Longrightarrow> accounted U (fst (ms_rollback (tracked_api A x) s ec))"
  by (auto simp: ms_commit_def ms_rollback_def mysql_commit_def mysql_rollback_def Let_def
      ms_is_open_def intro: on_handle_accounted split: prod.splits)

section \<open>Handlers and steps\<close>

lemma accounted_service [simp]:
  "accounted U (s\<lparr>work_io_service := b\<rparr>) = accounted U s"
  "accounted U (s\<lparr>work_thread := b\<rparr>) = accounted U s"
  "accounted U (s\<lparr>work_queue := wq\<rparr>) = accounted U s"
  "accounted U (s\<lparr>io_queue := q\<rparr>) = accounted U s"
  "accounted U (post c s) = accounted U s"
  "accounted U (post_work w s) = accounted U s"
  "accounted U (start_work_thread s) = accounted U s"
  by (simp_all add: accounted_def post_def post_work_def start_work_thread_def)

lemma live_handler_open:
  "async_inv s \<Longrightarrow> w \<in> set (work_queue s) \<Longrightarrow> \<not> expired (item_token w) s \<Longrightarrow> initialized s"
  by (auto simp: async_inv_def item_ok_def)

lemma run_item_accounted:
  assumes "impl_inv s" and "accounted unguarded s" and "\<not> expired (item_token w) s \<Longrightarrow> initialized s"
    and "run_item (tracked_api A x) s w = Some s'"
  shows "accounted unguarded s'"
proof (cases w)
  case (Connect_handler token ep au db fl k)
  show ?thesis
  proof (cases "expired token s")
    case False
    obtain t r e where c: "mysql_real_connect (tracked_api A x) (mysql s) (ep_host ep) (user au)
        (password au) (c_str db) (ep_port ep) (ep_unix_socket ep) fl no_error = (t, r, e)"
      by (metis prod_cases3)
    from real_connect_accounted [OF assms(2) _ c] show ?thesis
      using assms(3,4) False c Connect_handler by (auto simp: run_connect_handler_def)
  qed (use assms(2,4) Connect_handler in \<open>auto simp: run_connect_handler_def\<close>)
next
  case (Query_handler token stmt k)
  show ?thesis
  proof (cases "expired token s")
    case False
    have "s' = post (Completion k (snd (ms_query (tracked_api A x) s stmt no_error)) None)
        (fst (ms_query (tracked_api A x) s stmt no_error))"
      using assms(3,4) False Query_handler
      by (auto simp: run_query_handler_def ms_query_def ms_is_open_def Let_def split: prod.splits)
    then show ?thesis using query_accounted [OF assms(1,2)] by simp
  qed (use assms(2,4) Query_handler in \<open>auto simp: run_query_handler_def\<close>)
next
  case (Store_result_handler token k)
  show ?thesis
  proof (cases "expired token s")
    case False
    obtain s1 ec1 where n: "ms_next_result (tracked_api A x) s no_error = (s1, ec1)" by fastforce
    have "accounted unguarded s1" "impl_inv s1"
      using next_result_accounted [OF assms(1,2), of A x no_error] n assms(1)
        keepsD(1) [OF keeps_next_result, of s "tracked_api A x" no_error] by simp_all
    then show ?thesis
      using assms(4) n False Store_result_handler take_result_accounted [of s1 unguarded A x ec1]
      by (fastforce simp: run_store_result_handler_def split: if_splits option.splits)
  qed (use assms(2,4) Store_result_handler in \<open>auto simp: run_store_result_handler_def\<close>)
qed

lemma async_connect_accounted:
  assumes "accounted unguarded s"
  shows "accounted unguarded (ms_async_connect (tracked_api A x) s ep au db fl k)"
  using open_accounted [OF assms, of A x no_error] assms
  by (auto simp: ms_async_connect_def Let_def split: prod.splits)

lemma step_accounted:
  assumes "async_step (tracked_api A x) s e s'" and "async_inv s" and "accounted unguarded s"
  shows "accounted unguarded s'"
  using assms(1)
proof cases
  case (step_run xs w ys)
  have "\<not> expired (item_token w) s \<Longrightarrow> initialized s"
    using live_handler_open [OF assms(2), of w] step_run(3) by simp
  then show ?thesis
    using run_item_accounted [OF _ _ _ step_run(4)] assms(2,3) by (simp add: async_inv_def)
next
  case (step_store_result ec rs ec')
  then show ?thesis
    using store_result_accounted [OF _ assms(3) _ step_store_result(2)] assms(2)
    by (simp add: async_inv_def)
qed (use assms(2,3) in \<open>auto simp: async_inv_def open_accounted close_accounted ms_cancel_def
       set_option_accounted connect_accounted query_accounted autocommit_accounted
       commit_rollback_accounted async_connect_accounted ms_async_query_def
       ms_async_store_result_def shutdown_service_def\<close>)

lemma run_accounted:
  assumes "async_run (tracked_api A x) s es s'" and "async_inv s" and "accounted unguarded s"
  shows "async_inv s' \<and> accounted unguarded s'"
  using assms
proof (induction rule: async_run.induct)
  case (run_snoc s es s' e s'')
  then have "async_inv s'" "accounted unguarded s'" by blast+
  then show ?case
    using async_inv_step [OF run_snoc.hyps(2)] step_accounted [OF run_snoc.hyps(2)] by blast
qed simp

lemma fresh_accounted:
  assumes "heap_wf h"
  shows "async_inv (new_service (new_implementation (track m) h)) \<and>
         accounted unguarded (new_service (new_implementation (track m) h))"
  using async_inv_new [OF new_implementation_inv [OF assms]]
  by (simp add: accounted_def new_service_def new_implementation_def sp_make_def track_def)

text \<open>A connector that is destroyed leaves nothing behind.\<close>

lemma destroy_accounted:
  assumes "impl_inv s" and "accounted U s"
  shows "let t = mysql (destroy_connector (tracked_api A x) s)
         in \<not> handle_open t \<and> live_results t = [] \<and> set (misuses t) \<subseteq> U"
proof -
  let ?d = "ms_destroy (tracked_api A x) s"
  let ?c = "close_implementation (tracked_api A x) ?d"
  have "accounted U ?d" "impl_inv ?d"
    using assms close_accounted ms_destroy_inv by (simp_all add: ms_destroy_def)
  then have "accounted U ?c" by (rule close_implementation_accounted [rotated])
  moreover have "mysql (free_result (tracked_api A x) (drop_token ?c)) = mysql ?c"
    by (simp add: free_result_def result_set_deleter_def frame_simps)
  ultimately show ?thesis
    by (simp add: destroy_connector_def implementation_destructor_def accounted_def frame_simps)
qed

section \<open>Between two statements of a handler\<close>

text \<open>The result that a running handler has taken from the library and not yet kept.\<close>

fun handler_owes :: "('k work_item \<times> stage) option \<Rightarrow> res_ptr option" where
  "handler_owes (Some (w, Reset r ec)) = r"
| "handler_owes _ = None"

lemma mysql_store_result_owing:
  assumes "accounted U s" and "initialized s"
    and "mysql_store_result (tracked_api A x) (mysql s) ec = (t, r, ec')"
  shows "owing U r (s\<lparr>mysql := t\<rparr>)"
  using assms
  by (auto simp: mysql_store_result_def hand_out_def on_handle_def demand_def owing_def
      accounted_def Let_def split: prod.splits if_splits)

lemma store_result_statement_owing:
  assumes "store_result_statement (tracked_api A x) i st = Some (At i' st')"
    and "impl_inv i" and "initialized i" and "owing U (handler_owes (Some (w, st))) i"
  shows "impl_inv i' \<and> owing U (handler_owes (Some (w, st'))) i'"
proof (cases st)
  case Tested
  then show ?thesis
    using assms free_result_accounted [of i U A x] free_result_inv [of i "tracked_api A x"]
    by (auto simp: store_result_statement_def owing_None frame_simps split: if_splits)
next
  case Freed
  obtain t r where q: "on_handle Next_result (c_mysql_next_result A) (mysql i) = (t, r)"
    by fastforce
  have "accounted U (i\<lparr>mysql := t\<rparr>)"
    by (rule on_handle_accounted [OF q]) (use assms(3,4) Freed in \<open>simp_all add: owing_None\<close>)
  then show ?thesis
    using assms Freed q
    by (auto simp: store_result_statement_def mysql_next_result_def Let_def owing_None frame_simps
        split: if_splits)
next
  case (Fetch ec)
  obtain t r ec1 where q: "mysql_store_result (tracked_api A x) (mysql i) ec = (t, r, ec1)"
    by (metis prod_cases3)
  have "owing U r (i\<lparr>mysql := t\<rparr>)"
    by (rule mysql_store_result_owing [OF _ assms(3) q]) (use assms(4) Fetch in \<open>simp add: owing_None\<close>)
  then show ?thesis
    using assms Fetch q
    by (auto simp: store_result_statement_def Let_def frame_simps split: if_splits)
next
  case (Reset r ec)
  then show ?thesis
    using assms reset_last_result_accounted [OF assms(2), of U r A x] reset_last_result_inv [OF assms(2)]
    by (auto simp: store_result_statement_def owing_None)
next
  case (Assign ec)
  obtain m rs ec1 where a: "result_set_assign (tracked_api A x) (mysql i) result_set_default
      (last_result i) ec = Some (m, rs, ec1)"
    using assms(1) Assign by (auto simp: store_result_statement_def split: option.splits)
  have "same_accounts (mysql i) m"
    by (rule assign_accounts [OF a]) (use assms(4) Assign in \<open>simp add: owing_def\<close>)
  then show ?thesis
    using assms Assign a
    by (auto simp: store_result_statement_def owing_def same_accounts_def frame_simps)
qed (use assms in \<open>auto simp: store_result_statement_def\<close>)

lemma statement_owing:
  assumes "statement (tracked_api A x) i w st = Some (At i' st')"
    and "impl_inv i" and "initialized i" and "owing U (handler_owes (Some (w, st))) i"
  shows "impl_inv i' \<and> owing U (handler_owes (Some (w, st'))) i'"
proof (cases w)
  case (Connect_handler token ep au db fl k)
  then show ?thesis
    using assms real_connect_accounted [of U i A x]
    by (cases st)
       (auto simp: connect_statement_def Let_def owing_None frame_simps split: prod.splits)
next
  case (Query_handler token stmt k)
  obtain t r where q: "on_handle Real_query
      (\<lambda>m. c_mysql_real_query A m (c_str stmt) (of_nat (length stmt))) (mysql i) = (t, r)"
    by fastforce
  show ?thesis
    using assms Query_handler q on_handle_accounted [OF q] free_result_accounted [of i U A x]
      free_result_inv [of i "tracked_api A x"]
    by (cases st)
       (auto simp: query_statement_def mysql_real_query_def Let_def owing_None frame_simps)
next
  case (Store_result_handler token k)
  then show ?thesis using store_result_statement_owing [OF _ assms(2-4)] assms(1) by simp
qed

lemma owing_service [simp]:
  "owing U r (s\<lparr>work_queue := wq\<rparr>) = owing U r s"
  "owing U r (s\<lparr>io_queue := q\<rparr>) = owing U r s"
  "owing U r (enqueue v s) = owing U r s"
  by (simp_all add: owing_def enqueue_def post_work_def start_work_thread_def)

lemma impl_inv_enqueue [simp]: "impl_inv (enqueue v s) = impl_inv s"
  by (simp add: enqueue_def post_work_def start_work_thread_def)

lemma owing_conn: "owing U r (conn s) = owing U r s"
  by (simp add: owing_def)

lemma owing_with_conn: "owing U r (with_conn i s) = owing U r i"
  by (simp add: owing_def)

lemma statement_done:
  "statement A i w st = Some (Done i' ec rs) \<Longrightarrow> i' = i \<and> handler_owes (Some (w, st)) = None"
  by (cases w; cases st) (auto simp: statement_defs Let_def split: prod.splits if_splits option.splits)

lemma shadows_initialized: "shadows A t (s, Some (w, st)) \<Longrightarrow> initialized s"
  by simp

text \<open>The accounts of every state that the service and a handler in the middle come to.\<close>

lemma work_run_owing:
  assumes "work_run (tracked_api A x) True c es c'" and "snd c = None" and "async_inv (fst c)"
    and "accounted unguarded (fst c)"
  shows "impl_inv (fst c') \<and> owing unguarded (handler_owes (snd c')) (fst c')"
  using assms
proof (induction rule: work_run.induct)
  case (work_run_nil c)
  then show ?case by (simp add: owing_None async_inv_def)
next
  case (work_run_silent c es c' c'')
  then have IH: "impl_inv (fst c')" "owing unguarded (handler_owes (snd c')) (fst c')" by blast+
  obtain t where t: "shadows (tracked_api A x) t c'"
    using work_run_shadows work_run_silent by blast
  show ?case
    using work_run_silent.hyps(2)
  proof cases
    case (work_begin s xs w ys)
    then show ?thesis using IH by simp
  next
    case (work_continue s w st i st')
    have "initialized s" using t [unfolded work_continue(1)] by (rule shadows_initialized)
    moreover have "impl_inv s" "owing unguarded (handler_owes (Some (w, st))) s"
      using IH work_continue(1) by simp_all
    ultimately have "initialized (conn s)" "impl_inv (conn s)"
      "owing unguarded (handler_owes (Some (w, st))) (conn s)"
      by (simp_all add: owing_conn impl_inv_conn)
    from statement_owing [OF work_continue(3) this(2,1,3)] show ?thesis
      using work_continue by (simp add: owing_with_conn impl_inv_with_conn)
  qed
next
  case (work_run_event c es c' e c'')
  then have IH: "impl_inv (fst c')" "owing unguarded (handler_owes (snd c')) (fst c')" by blast+
  obtain t where run: "async_run (tracked_api A x) (fst c) es t" and t: "shadows (tracked_api A x) t c'"
    using work_run_shadows work_run_event by blast
  have coarse: "impl_inv s' \<and> owing unguarded None s'"
    if "async_step (tracked_api A x) s e s'" "c' = (s, None)" for s e s'
  proof -
    have "async_inv s"
      using async_inv_run_events [OF run work_run_event.prems(2)] t that(2) by simp
    then show ?thesis
      using async_inv_step [OF that(1)] step_accounted [OF that(1)] IH that(2)
      by (simp add: owing_None async_inv_def)
  qed
  show ?case
    using work_run_event.hyps(2)
  proof cases
    case (work_issue s k s' r)
    show ?thesis
    proof (cases r)
      case (Some a)
      then have "initialized s" using t [unfolded work_issue(1)] by (cases a) (auto dest: shadows_initialized)
      then obtain v where "s' = enqueue v s" using issue_open [OF work_issue(4)] by metis
      then show ?thesis using IH work_issue by simp
    qed (use coarse work_issue in simp)
  next
    case (work_deliver s k s' r)
    then show ?thesis using IH by (auto elim: async_step.cases)
  next
    case (work_abort s xs w ys)
    then show ?thesis using IH by (simp add: post_def)
  next
    case (work_finish s w st i ec rs)
    then show ?thesis
      using IH statement_done [OF work_finish(4)]
      by (simp add: post_def owing_with_conn owing_conn impl_inv_with_conn impl_inv_conn)
  qed (use coarse in auto)
qed

section \<open>How long a result set may be read\<close>

text \<open>
  Rows point into the result of the library.  \<open>keeps_result\<close> is the contract of every operation: the
  last result stays, or whoever observes it finds it expired.
\<close>

definition keeps_result ::
  "('m, 'y) implementation_scheme \<Rightarrow> ('m, 'z) implementation_scheme \<Rightarrow> bool" where
  "keeps_result s s' \<longleftrightarrow>
     evolves s s' \<and> (last_result s' = last_result s \<or> expired (wp_of (last_result s)) s')"

lemma keeps_result_refl [simp]: "keeps_result s s"
  by (simp add: keeps_result_def)

lemma keeps_result_trans:
  assumes "keeps_result s t" and "keeps_result t u" and "impl_inv s"
  shows "keeps_result s u"
proof -
  have "weak_allocated (wp_of (last_result s)) t"
    using result_allocated [OF assms(3)] assms(1) evolves_weak_allocated
    unfolding keeps_result_def by blast
  then show ?thesis
    using assms(1,2) evolves_trans evolves_expired unfolding keeps_result_def by metis
qed

lemma keeps_result_frame [simp]:
  "keeps_result s (t\<lparr>mysql := m\<rparr>) = keeps_result s t"
  "keeps_result s (t\<lparr>flags := fl\<rparr>) = keeps_result s t"
  "keeps_result s (t\<lparr>initialized := b\<rparr>) = keeps_result s t"
  "keeps_result s (t\<lparr>first_result_stored := b\<rparr>) = keeps_result s t"
  by (simp_all add: keeps_result_def frame_simps)

lemma keeps_result_service [simp]:
  "keeps_result s (t\<lparr>work_io_service := b\<rparr>) = keeps_result s t"
  "keeps_result s (t\<lparr>work_thread := b\<rparr>) = keeps_result s t"
  "keeps_result s (t\<lparr>work_queue := wq\<rparr>) = keeps_result s t"
  "keeps_result s (t\<lparr>io_queue := q\<rparr>) = keeps_result s t"
  by (simp_all add: keeps_result_def)

lemma keeps_result_posts [simp]:
  "keeps_result s (post c t) = keeps_result s t"
  "keeps_result s (post_work w t) = keeps_result s t"
  "keeps_result s (start_work_thread t) = keeps_result s t"
  by (simp_all add: post_def post_work_def start_work_thread_def)

lemma keeps_result_free: "impl_inv s \<Longrightarrow> keeps_result s (free_result A s)"
  by (simp add: keeps_result_def free_result_evolves free_result_expires)

lemma keeps_result_reset:
  assumes "impl_inv s"
  shows "keeps_result s (reset_last_result A r s)"
proof -
  have "expired (wp_of (last_result s)) (reset_last_result A r s)"
    using assms
    by (cases "last_result s")
       (auto simp: reset_last_result_def sp_make_def frame_simps impl_inv_def)
  then show ?thesis by (simp add: keeps_result_def reset_last_result_evolves)
qed

lemma keeps_result_cancel: "keeps_result s (cancel s)"
  by (simp add: keeps_result_def cancel_evolves frame_simps)

lemma keeps_result_close: "impl_inv s \<Longrightarrow> keeps_result s (ms_close A s)"
  by (simp add: ms_close_def keeps_result_def close_implementation_evolves
      close_implementation_expires(2))

lemma keeps_result_open: "keeps_result s (fst (ms_open A s ec))"
  by (simp add: ms_open_def Let_def split: prod.splits)

lemma keeps_result_connect: "keeps_result s (fst (ms_connect A s ep au db fl ec))"
  using keeps_result_open [of s A ec]
  by (auto simp: ms_connect_def Let_def split: prod.splits if_splits)

lemma keeps_result_query: "impl_inv s \<Longrightarrow> keeps_result s (fst (ms_query A s stmt ec))"
  by (simp add: ms_query_def Let_def keeps_result_free split: prod.splits)

lemma keeps_result_next: "impl_inv s \<Longrightarrow> keeps_result s (fst (ms_next_result A s ec))"
  by (simp add: ms_next_result_def Let_def keeps_result_free split: prod.splits)

lemma keeps_result_take:
  assumes "impl_inv s" and "ms_take_result A s ec = Some (s', rs, ec')"
  shows "keeps_result s s'"
proof -
  have "keeps_result s (reset_last_result A r (s\<lparr>mysql := m\<rparr>))" for r m
    using keeps_result_reset [of "s\<lparr>mysql := m\<rparr>" A r] assms(1)
    by (simp add: keeps_result_def frame_simps evolves_def)
  then show ?thesis
    using assms(2) by (auto simp: ms_take_result_def Let_def split: prod.splits option.splits)
qed

lemma keeps_result_store:
  assumes "impl_inv s" and "ms_store_result A s ec = Some (s', rs, ec')"
  shows "keeps_result s s'"
proof -
  obtain s1 ec1 where n: "ms_next_result A s ec = (s1, ec1)" by fastforce
  have "keeps_result s s1" "impl_inv s1"
    using keeps_result_next [OF assms(1), of A ec] keepsD(1) [OF keeps_next_result assms(1), of A ec] n
    by simp_all
  then show ?thesis
    using assms n keeps_result_take [of s1 A] keeps_result_trans
    by (fastforce simp: ms_store_result_def split: if_splits)
qed

lemma keeps_result_others:
  "keeps_result s (fst (ms_set_option A s opt ec))"
  "keeps_result s (fst (ms_autocommit A s mode ec))"
  "keeps_result s (fst (ms_commit A s ec))"
  "keeps_result s (fst (ms_rollback A s ec))"
  by (simp_all add: ms_set_option_def ms_autocommit_def ms_commit_def ms_rollback_def Let_def
      split: prod.splits)

lemma keeps_result_item:
  assumes "impl_inv s" and "run_item A s w = Some s'"
  shows "keeps_result s s'"
proof (cases w)
  case (Connect_handler token ep au db fl k)
  then show ?thesis
    using assms(2) by (auto simp: run_connect_handler_def Let_def split: prod.splits)
next
  case (Query_handler token stmt k)
  then show ?thesis
    using assms keeps_result_free [OF assms(1)]
    by (auto simp: run_query_handler_def Let_def split: prod.splits)
next
  case (Store_result_handler token k)
  obtain s1 ec1 where n: "ms_next_result A s no_error = (s1, ec1)" by fastforce
  have s1: "keeps_result s s1" "impl_inv s1"
    using keeps_result_next [OF assms(1), of A no_error]
      keepsD(1) [OF keeps_next_result assms(1), of A no_error] n by simp_all
  have "keeps_result s u" if "ms_take_result A s1 ec1 = Some (u, rs, ec2)" for u rs ec2
    by (rule keeps_result_trans [OF s1(1) keeps_result_take [OF s1(2) that] assms(1)])
  then show ?thesis
    using assms(2) n s1(1) Store_result_handler
    by (auto simp: run_store_result_handler_def split: if_splits option.splits)
qed

lemma keeps_result_step:
  assumes "async_step A s e s'" and "impl_inv s"
  shows "keeps_result s s'"
  using assms(1)
proof cases
  case (step_run xs w ys)
  have "keeps_result (s\<lparr>work_queue := xs @ ys\<rparr>) s'"
    by (rule keeps_result_item [OF _ step_run(4)]) (simp add: assms(2))
  then show ?thesis by (simp add: keeps_result_def evolves_def)
next
  case (step_store_result ec rs ec')
  then show ?thesis using keeps_result_store [OF assms(2)] by blast
next
  case (step_async_connect ep au db fl k)
  then show ?thesis
    using keeps_result_open [of s A no_error]
    by (auto simp: ms_async_connect_def Let_def split: prod.splits)
qed (use assms(2) in \<open>simp_all add: keeps_result_open keeps_result_close ms_cancel_def
       keeps_result_cancel keeps_result_others keeps_result_connect keeps_result_query
       ms_async_query_def ms_async_store_result_def shutdown_service_def\<close>)

text \<open>
  A result set that the connection has returned: it is expired or observes the last result, and
  then its rows are those of that result.
\<close>

definition reads_last :: "('m, 'z) implementation_scheme \<Rightarrow> result_set \<Rightarrow> bool" where
  "reads_last s rs \<longleftrightarrow>
     weak_allocated (rs_weak rs) s \<and>
     (expired (rs_weak rs) s \<or> rs_weak rs = wp_of (last_result s)) \<and>
     (case rs_weak rs of
        Empty_weak \<Rightarrow> True
      | Weak b None \<Rightarrow> False
      | Weak b (Some r) \<Rightarrow> pred_option (\<lambda>vs. \<forall>rw \<in> set vs. row_result rw = r) (rs_values rs))"

lemma reads_last_empty [simp]: "reads_last s empty_set"
  by (simp add: reads_last_def empty_set_def)

lemma reads_last_mysql [simp]: "reads_last (s\<lparr>mysql := m\<rparr>) rs = reads_last s rs"
  by (cases "rs_weak rs") (simp_all add: reads_last_def frame_simps)

lemma reads_last_service [simp]:
  "reads_last (s\<lparr>work_queue := wq\<rparr>) rs = reads_last s rs"
  "reads_last (s\<lparr>io_queue := q\<rparr>) rs = reads_last s rs"
  "reads_last (post c s) rs = reads_last s rs"
  by (cases "rs_weak rs"; simp add: reads_last_def post_def)+

lemma reads_last_keeps:
  assumes "reads_last s rs" and "keeps_result s s'"
  shows "reads_last s' rs"
  using assms evolves_expired evolves_weak_allocated
  unfolding reads_last_def keeps_result_def by metis

lemma assign_reads:
  assumes "result_set_assign A m result_set_default sp ec = Some (m', rs, ec')"
  shows "rs_weak rs = Empty_weak \<or>
         (\<exists>b r. sp = Shared b (Some r) \<and> rs_weak rs = Weak b (Some r) \<and>
            pred_option (\<lambda>vs. \<forall>rw \<in> set vs. row_result rw = r) (rs_values rs))"
proof (cases sp)
  case (Shared b p)
  show ?thesis
  proof (cases p)
    case (Some r)
    have "\<forall>rw \<in> set vs. row_result rw = r"
      if "fetch_rows A m1 r infos ec [] = Some (m2, vs, e)" for m1 infos m2 vs e
      using fetch_rows_appends [OF that] by (auto simp: appended_def)
    then show ?thesis
      using assms Shared Some
      by (auto simp: result_set_assign_def result_set_default_def Let_def
          split: option.splits if_splits)
  qed (use assms Shared in \<open>auto simp: result_set_assign_def result_set_default_def Let_def\<close>)
qed (use assms in \<open>auto simp: result_set_assign_def result_set_default_def Let_def\<close>)

lemma take_result_reads:
  assumes "impl_inv s" and "ms_take_result A s ec = Some (s', rs, ec')"
  shows "reads_last s' rs"
proof -
  obtain m r ec1 where r: "mysql_store_result A (mysql s) ec = (m, r, ec1)" by (metis prod_cases3)
  define s1 where "s1 = reset_last_result A r (s\<lparr>mysql := m\<rparr>)"
  obtain m2 where a: "result_set_assign A (mysql s1) result_set_default (last_result s1) ec1 =
        Some (m2, rs, ec')" and s': "s' = s1\<lparr>mysql := m2\<rparr>"
    using assms(2) r by (auto simp: ms_take_result_def s1_def [symmetric] Let_def split: option.splits)
  have "impl_inv s1"
    using reset_last_result_inv [of "s\<lparr>mysql := m\<rparr>" A r] assms(1) by (simp add: s1_def frame_simps)
  then have "weak_allocated (wp_of (last_result s1)) s1" by (rule result_allocated)
  then have "reads_last s1 rs"
    using assign_reads [OF a] by (auto simp: reads_last_def)
  then show ?thesis by (simp add: s')
qed

lemma store_result_reads:
  assumes "impl_inv s" and "ms_store_result A s ec = Some (s', rs, ec')"
  shows "reads_last s' rs"
proof -
  obtain s1 ec1 where n: "ms_next_result A s ec = (s1, ec1)" by fastforce
  have "impl_inv s1" using keepsD(1) [OF keeps_next_result assms(1), of A ec] n by simp
  then show ?thesis
    using assms n take_result_reads by (auto simp: ms_store_result_def split: if_splits)
qed

text \<open>The callbacks that are waiting to be delivered.\<close>

definition posted_reads :: "('m, 'k, 'z) service_state \<Rightarrow> bool" where
  "posted_reads s \<longleftrightarrow> (\<forall>c \<in> set (io_queue s). pred_option (reads_last s) (comp_result c))"

lemma posted_reads_keeps:
  assumes "posted_reads s" and "keeps_result s s'" and "set (io_queue s') \<subseteq> set (io_queue s)"
  shows "posted_reads s'"
  using assms reads_last_keeps
  by (fastforce simp: posted_reads_def pred_option_def)

lemma posted_reads_new:
  assumes "posted_reads s" and "keeps_result s s'"
    and "set (io_queue s') \<subseteq> insert c (set (io_queue s))" and "pred_option (reads_last s') (comp_result c)"
  shows "posted_reads s'"
  using assms reads_last_keeps
  by (fastforce simp: posted_reads_def pred_option_def)

lemma io_queue_free [simp]: "io_queue (free_result A s) = io_queue s"
  using same_service_free_result [of s A s] by (simp add: same_service_def)

lemma run_item_reads:
  assumes "impl_inv s" and "run_item A s w = Some s'"
  obtains c where "io_queue s' = io_queue s @ [c]" and "pred_option (reads_last s') (comp_result c)"
proof -
  obtain ec rs where q: "io_queue s' = io_queue s @ [Completion (item_callback w) ec rs]"
    using run_item_posts_one [OF assms(2)] by (auto simp: posts_one_def)
  have "pred_option (reads_last s') rs"
  proof (cases w)
    case (Store_result_handler token k)
    obtain s1 ec1 where n: "ms_next_result A s no_error = (s1, ec1)" by fastforce
    have s1: "impl_inv s1" "io_queue s1 = io_queue s"
      using keepsD(1) [OF keeps_next_result assms(1), of A no_error]
        quiet_next_result [of s A no_error] n by (simp_all add: quiet_def same_service_def)
    have run: "run_store_result_handler A s token k = Some s'"
      using assms(2) Store_result_handler by simp
    obtain t e r where t: "s' = post (Completion k e (Some r)) t" "io_queue t = io_queue s"
        "reads_last t r"
    proof (cases "ms_take_result A s1 ec1")
      case None
      then show ?thesis
        using run n that [where t = s and r = empty_set] that [where t = s1 and r = empty_set] s1(2)
        by (auto simp: run_store_result_handler_def split: if_splits)
    next
      case (Some x)
      obtain s2 rs2 ec2 where x: "x = (s2, rs2, ec2)" by (cases x)
      note take = Some [unfolded x]
      have "io_queue s2 = io_queue s"
        using quiet_take_result [OF take] s1(2) by (simp add: quiet_def same_service_def)
      then show ?thesis
        using run n take that [where t = s and r = empty_set] that [where t = s1 and r = empty_set] that [where t = s2 and r = rs2] s1(2)
          take_result_reads [OF s1(1) take]
        by (auto simp: run_store_result_handler_def split: if_splits)
    qed
    then have "rs = Some r" using q by (simp add: post_def)
    then show ?thesis using t by simp
  qed (use assms(2) q in \<open>auto simp: run_connect_handler_def run_query_handler_def post_def Let_def
         split: prod.splits if_splits\<close>)
  then show thesis using q that by simp
qed

lemma quiet_same: "quiet s s' \<Longrightarrow> same_service s s'"
  by (simp add: quiet_def)

lemma step_posted_reads:
  assumes "async_step A s e s'" and "async_inv s" and "posted_reads s"
  shows "posted_reads s'"
proof -
  have inv: "impl_inv s" using assms(2) by (simp add: async_inv_def)
  note kept = keeps_result_step [OF assms(1) inv]
  note old = posted_reads_keeps [OF assms(3) kept] and new = posted_reads_new [OF assms(3) kept]
  have same: "posted_reads s'" if "same_service s s'"
    by (rule old) (use that in \<open>simp add: same_service_def\<close>)
  show ?thesis
    using assms(1)
  proof cases
    case (step_run xs w ys)
    have "impl_inv (s\<lparr>work_queue := xs @ ys\<rparr>)" using inv by simp
    from run_item_reads [OF this step_run(4)] obtain c where
      "io_queue s' = io_queue s @ [c]" "pred_option (reads_last s') (comp_result c)" by auto
    then show ?thesis by (intro new [of c]) simp_all
  next
    case (step_async_connect k ep au db fl)
    define p where "p = (if \<not> ms_is_open s then ms_open A s no_error else (s, no_error))"
    have "io_queue (fst p) = io_queue s"
      using quiet_open [of s A no_error] by (simp add: p_def quiet_def same_service_def)
    then show ?thesis
      using step_async_connect
      by (intro new [of "Completion k (snd p) None"])
         (auto simp: ms_async_connect_def p_def [symmetric] case_prod_unfold post_def post_work_def
           start_work_thread_def)
  next
    case (step_async_query k stmt)
    then show ?thesis
      by (intro new [of "Completion k (misc_error_code Not_initialized) None"])
         (auto simp: ms_async_query_def post_def post_work_def start_work_thread_def)
  next
    case (step_async_store_result k)
    then show ?thesis
      by (intro new [of "Completion k (misc_error_code Not_initialized) (Some empty_set)"])
         (auto simp: ms_async_store_result_def post_def post_work_def start_work_thread_def)
  next
    case (step_deliver xs c ys)
    then show ?thesis by (intro old) auto
  next
    case step_shutdown
    then show ?thesis by (intro old) (simp add: shutdown_service_def)
  next
    case (step_store_result ec rs ec')
    then show ?thesis by (intro same quiet_same quiet_store_result)
  qed (rule same, simp add: ms_close_def ms_cancel_def quiet_same quiet_open quiet_set_option
         quiet_connect quiet_query quiet_autocommit quiet_commit quiet_rollback)+
qed

lemma run_posted_reads:
  assumes "async_run A s es s'" and "async_inv s" and "posted_reads s"
  shows "async_inv s' \<and> posted_reads s'"
  using assms
proof (induction rule: async_run.induct)
  case (run_snoc s es s' e s'')
  then show ?case using async_inv_step step_posted_reads by blast
qed simp

lemma run_reads_last:
  assumes "async_run A s es s'" and "async_inv s" and "reads_last s rs"
  shows "reads_last s' rs"
  using assms
proof (induction rule: async_run.induct)
  case (run_snoc s es s' e s'')
  have "async_inv s'" using async_inv_run_events [OF run_snoc.hyps(1) run_snoc.prems(1)] .
  then have "keeps_result s' s''"
    by (intro keeps_result_step [OF run_snoc.hyps(2)]) (simp add: async_inv_def)
  then show ?case using run_snoc.IH run_snoc.prems reads_last_keeps by blast
qed

section \<open>What the exceptions come to\<close>

text \<open>On a connection that is not open the three operations call the library all the same.\<close>

lemma unguarded_misuse:
  assumes "accounted unguarded s" and "\<not> ms_is_open s"
  shows "Set_options \<in> set (misuses (mysql (fst (ms_set_option (tracked_api A x) s opt ec))))"
    and "Set_autocommit \<in> set (misuses (mysql (fst (ms_autocommit (tracked_api A x) s mode ec))))"
  using assms
  by (auto simp: ms_set_option_def mysql_options_def ms_autocommit_def mysql_autocommit_def
      on_handle_def demand_def accounted_def ms_is_open_def Let_def split: prod.splits)

lemma store_result_misuse:
  assumes "accounted unguarded s" and "impl_inv s" and "\<not> ms_is_open s"
    and "\<not> first_result_stored s" and "\<not> failed ec"
    and "ms_store_result (tracked_api A x) s ec = Some (s', rs, ec')"
  shows "Store_result \<in> set (misuses (mysql s'))"
proof -
  have "ms_take_result (tracked_api A x) (s\<lparr>first_result_stored := True\<rparr>) ec = Some (s', rs, ec')"
    using assms(4-6) by (simp add: ms_store_result_def ms_next_result_def)
  from take_result_accounted [where U = unguarded, OF _ _ _ this] show ?thesis
    using assms(1-3)
    by (auto simp: on_handle_def demand_def accounted_def ms_is_open_def frame_simps
        split: prod.splits)
qed

text \<open>
  The next query frees the result of a result set.  Access by index asserts that it has not been
  freed, but \<open>begin\<close> and \<open>end\<close> do not: they hand out rows that point into it.
\<close>

lemma stale_rows:
  assumes "accounted unguarded s" and "impl_inv s" and "ms_is_open s"
    and "rs_weak rs = wp_of (last_result s)" and "rs_rows rs = Inr vs"
    and s'_def: "s' = fst (ms_query (tracked_api A x) s stmt ec)"
  shows "rs_expired rs s' \<and> live_results (mysql s') = [] \<and> rs_at rs s' i = Inl Assertion_failed \<and>
         rs_rows rs = Inr vs"
proof -
  have "accounted unguarded s'" unfolding s'_def by (rule query_accounted [OF assms(2,1)])
  moreover have e: "last_result s' = Empty_ptr" "expired (wp_of (last_result s)) s'"
    using assms(3) free_result_expires [OF assms(2), of "tracked_api A x"]
    by (simp_all add: s'_def ms_query_def Let_def frame_simps split: prod.splits)
  ultimately show ?thesis
    using assms(4,5) by (simp add: accounted_def rs_expired_def rs_at_def)
qed

section \<open>Properties\<close>

text \<open>
  C2. The client library is used according to its protocol, whatever library it is.  The work thread
  is taken statement by statement: operations may be started, callbacks delivered and the service
  shut down between any two statements of a handler, and the user is only asked to leave the
  connection itself alone while a handler is running (without that a routine may be called on a
  closed handle, see \<open>close_races_with_query\<close>).  At every moment of every such run the handle is open
  just when the connection takes it to be; the results that have not been freed are the last one and
  the one that a running handler has just got; and of the routines that act on the handle or a result
  none was misused but \<open>mysql_options\<close>, \<open>mysql_autocommit\<close> and \<open>mysql_store_result\<close>, which are called
  without asking whether the connection is open: the handle was initialised only when it was not and
  closed only when it was, the others were called on an open handle, and a result was fetched from and
  freed only while it had not been freed.  A connector that is destroyed when no handler is running
  leaves no open handle and no result behind.
\<close>

theorem library_protocol:
  assumes "heap_wf h"
    and "work_run (tracked_api A x) True (new_service (new_implementation (track m) h), None) es (s, r)"
  shows "handle_open (mysql s) = initialized s \<and>
         live_results (mysql s) =
           handed_out (handler_owes r) @ handed_out (sp_get (last_result s)) \<and>
         set (misuses (mysql s)) \<subseteq> {Set_options, Store_result, Set_autocommit} \<and>
         (r = None \<longrightarrow>
            (let t = mysql (destroy_connector (tracked_api A x) s)
             in \<not> handle_open t \<and> live_results t = [] \<and>
                set (misuses t) \<subseteq> {Set_options, Store_result, Set_autocommit}))"
proof -
  note fresh = fresh_accounted [OF assms(1), of m]
  have "impl_inv (fst (s, r)) \<and> owing unguarded (handler_owes (snd (s, r))) (fst (s, r))"
    by (rule work_run_owing [OF assms(2)]) (simp_all add: fresh)
  then show ?thesis
    using destroy_accounted [of s unguarded A x]
    by (cases r) (simp_all add: owing_def owing_None [symmetric] unguarded_def)
qed

text \<open>How a result set comes to the user: from \<open>store_result\<close>, or in a callback.\<close>

definition returned ::
  "('m, 'a) mysql_api_scheme \<Rightarrow> ('m, 'k) async_service \<Rightarrow> ('m, 'k) async_service \<Rightarrow> result_set \<Rightarrow>
     bool" where
  "returned A s s' rs \<longleftrightarrow>
     (\<exists>ec ec'. ms_store_result A s ec = Some (s', rs, ec')) \<or>
     s' = s \<and> (\<exists>c \<in> set (io_queue s). comp_result c = Some rs)"

text \<open>
  C3. How long a result set may be read.  Whatever happens after a result set was returned, either
  it is expired, and access by index fails its assertion, or it shows the one result of the
  library that has not been freed, and all of its rows are rows of that result.
\<close>

theorem results_readable:
  assumes "heap_wf h"
    and "async_run (tracked_api A x) (new_service (new_implementation (track m) h)) es s0"
    and "returned (tracked_api A x) s0 s1 rs" and "async_run (tracked_api A x) s1 es' s"
  shows "if rs_expired rs s then \<forall>i. rs_at rs s i = Inl Assertion_failed
         else \<exists>r. rs_native rs s = Some r \<and> live_results (mysql s) = [r] \<and>
                (\<forall>vs. rs_rows rs = Inr vs \<longrightarrow> (\<forall>rw \<in> set vs. row_result rw = r))"
proof -
  note fresh = fresh_accounted [OF assms(1), of m, THEN conjunct1]
    fresh_accounted [OF assms(1), of m, THEN conjunct2]
  have "posted_reads s0"
    by (rule run_posted_reads [OF assms(2) fresh(1), THEN conjunct2])
       (simp add: posted_reads_def new_service_def)
  then have s0: "async_inv s0" "accounted unguarded s0" "posted_reads s0"
    using run_accounted [OF assms(2) fresh] by blast+
  have s1: "async_inv s1" "accounted unguarded s1" "reads_last s1 rs"
    using assms(3) s0 async_inv_step [OF step_store_result] step_accounted [OF step_store_result]
      store_result_reads
    by (fastforce simp: returned_def posted_reads_def async_inv_def)+
  have s: "accounted unguarded s" "reads_last s rs"
    using run_accounted [OF assms(4) s1(1,2)] run_reads_last [OF assms(4) s1(1,3)] by simp_all
  show ?thesis
  proof (cases "rs_expired rs s")
    case True
    then show ?thesis by (simp add: rs_at_def)
  next
    case False
    then obtain b r where w: "rs_weak rs = Weak b (Some r)" "rs_weak rs = wp_of (last_result s)"
        "pred_option (\<lambda>vs. \<forall>rw \<in> set vs. row_result rw = r) (rs_values rs)"
      using s(2) by (auto simp: reads_last_def rs_expired_def split: weak_ptr.splits option.splits)
    then have "sp_get (last_result s) = Some r" by (cases "last_result s") auto
    moreover from this have "rs_native rs s = Some r"
      using False w(2) wp_lock_get_live [of "last_result s" s]
      by (simp add: rs_expired_def rs_native_def)
    ultimately show ?thesis
      using False s(1) w(3) by (auto simp: accounted_def rs_rows_def split: option.splits)
  qed
qed

subsection \<open>A query and its result\<close>

definition tracked_fresh :: "(sample_server tracked, nat) async_service" where
  "tracked_fresh = new_service (new_implementation (track (sample_start [[Rows [] []]])) fresh_heap)"

definition tracked_queried :: "(sample_server tracked, nat) async_service" where
  "tracked_queried =
     fst (ms_query (tracked_api sample_api ())
       (fst (ms_open (tracked_api sample_api ()) tracked_fresh no_error)) ''q'' no_error)"

definition tracked_stored ::
  "(sample_server tracked, nat) async_service \<times> result_set \<times> error_code" where
  "tracked_stored = the (ms_store_result (tracked_api sample_api ()) tracked_queried no_error)"

lemma tracked_run: "async_run (tracked_api sample_api ()) tracked_fresh [Call, Call] tracked_queried"
  using run_snoc [OF run_snoc [OF run_nil step_open [where ec = no_error]] step_query
      [where stmt = "''q''" and ec = no_error]]
  by (simp add: tracked_queried_def)

lemma tracked_store:
  "ms_store_result (tracked_api sample_api ()) tracked_queried no_error =
     Some (fst tracked_stored, fst (snd tracked_stored), snd (snd tracked_stored))"
proof -
  have "\<not> Option.is_none (ms_store_result (tracked_api sample_api ()) tracked_queried no_error)"
    by code_simp
  then show ?thesis by (auto simp: tracked_stored_def Option.is_none_def)
qed

definition tracked_issued :: "(sample_server tracked, nat) async_service" where
  "tracked_issued = (ms_async_store_result tracked_queried 7)\<lparr>work_queue := []\<rparr>"

definition tracked_fetched :: "sample_server tracked implementation \<times> res_ptr option \<times> error_code" where
  "tracked_fetched =
     (let (m, r, ec) = mysql_store_result (tracked_api sample_api ()) (mysql tracked_queried) no_error
      in ((conn tracked_issued)\<lparr>first_result_stored := True, mysql := m\<rparr>, r, ec))"

lemma tracked_middle:
  defines "w \<equiv> Store_result_handler (wp_of (cancelation_token tracked_queried)) 7"
  shows "work_run (tracked_api sample_api ()) True (tracked_fresh, None) [Call, Call, Issue 7]
    (with_conn (fst tracked_fetched) tracked_issued, Some (w, Reset (Some 1) no_error))"
proof -
  let ?A = "tracked_api sample_api ()" and ?s = "ms_async_store_result tracked_queried 7"
  let ?i = "(conn tracked_issued)\<lparr>first_result_stored := True\<rparr>"
  have c: "work_thread ?s" "work_queue ?s = [] @ w # []" "\<not> expired (item_token w) ?s"
    unfolding w_def by code_simp+
  have "work_run ?A True (tracked_fresh, None) ([] @ [Call]) (fst (ms_open ?A tracked_fresh no_error), None)"
    by (rule work_run_event [OF work_run_nil work_call [OF step_open]]) simp
  then have "work_run ?A True (tracked_fresh, None) (([] @ [Call]) @ [Call]) (tracked_queried, None)"
    unfolding tracked_queried_def
    by (rule work_run_event) (rule work_call [OF step_query], simp)
  then have "work_run ?A True (tracked_fresh, None) ((([] @ [Call]) @ [Call]) @ [Issue 7]) (?s, None)"
    by (rule work_run_event) (rule work_issue [OF step_async_store_result])
  then have "work_run ?A True (tracked_fresh, None) [Call, Call, Issue 7]
      (tracked_issued, Some (w, Tested))"
    using work_run_silent [OF _ work_begin [OF c]] by (simp add: tracked_issued_def)
  moreover have "statement ?A (conn tracked_issued) w Tested = Some (At ?i (Fetch no_error))"
  proof -
    have "\<not> first_result_stored (conn tracked_issued)" by code_simp
    then show ?thesis by (simp add: w_def statement_defs)
  qed
  ultimately have "work_run ?A True (tracked_fresh, None) [Call, Call, Issue 7]
      (with_conn ?i tracked_issued, Some (w, Fetch no_error))"
    by (rule work_run_silent [OF _ work_continue])
  moreover have "statement ?A (conn (with_conn ?i tracked_issued)) w (Fetch no_error) =
      Some (At (fst tracked_fetched) (Reset (Some 1) no_error))"
  proof -
    have "snd tracked_fetched = (Some 1, no_error)" "\<not> failed no_error" by code_simp+
    moreover have "mysql tracked_issued = mysql tracked_queried"
      by (simp add: tracked_issued_def ms_async_store_result_def post_def post_work_def
          start_work_thread_def)
    ultimately show ?thesis
      by (auto simp: w_def statement_defs tracked_fetched_def Let_def split: prod.splits)
  qed
  ultimately have "work_run ?A True (tracked_fresh, None) [Call, Call, Issue 7]
      (with_conn (fst tracked_fetched) (with_conn ?i tracked_issued), Some (w, Reset (Some 1) no_error))"
    by (rule work_run_silent [OF _ work_continue])
  then show ?thesis by simp
qed

theorem library_protocol_witness:
  "live_results (mysql (fst tracked_fetched)) = [1] \<and> last_result (fst tracked_fetched) = Empty_ptr \<and>
   (\<exists>s :: (sample_server tracked, nat) async_service. last_result s \<noteq> Empty_ptr \<and>
      live_results (mysql (destroy_connector (tracked_api sample_api ()) s)) = [])"
proof -
  let ?A = "tracked_api sample_api ()"
  let ?w = "Store_result_handler (wp_of (cancelation_token tracked_queried)) (7 :: nat)"
  let ?s = "with_conn (fst tracked_fetched) tracked_issued"
  note middle = library_protocol [OF fresh_heap_wf tracked_middle [unfolded tracked_fresh_def]]
  have e: "last_result (fst tracked_fetched) = Empty_ptr" by code_simp
  have "map_option (\<lambda>(i, d). last_result i)
      (finish_handler ?A (conn ?s) ?w (Reset (Some 1) no_error)) = Some (Shared 2 (Some 1))"
    by code_simp
  then obtain i d where f: "finish_handler ?A (conn ?s) ?w (Reset (Some 1) no_error) = Some (i, d)"
    "last_result i = Shared 2 (Some 1)"
    by auto
  let ?u = "post d (with_conn i ?s)"
  have "live_results (mysql (destroy_connector ?A ?u)) = []"
    using library_protocol [OF fresh_heap_wf
        work_run_finish [OF tracked_middle f(1), unfolded tracked_fresh_def]]
    by (simp add: Let_def)
  moreover have "last_result ?u \<noteq> Empty_ptr" using f(2) by (simp add: post_def)
  moreover have "live_results (mysql (fst tracked_fetched)) = [1]" using middle e by simp
  ultimately show ?thesis using e by blast
qed

theorem results_readable_witness:
  "rs_native (fst (snd tracked_stored)) (fst tracked_stored) = Some 1 \<and>
   live_results (mysql (fst tracked_stored)) = [1]"
proof -
  have "returned (tracked_api sample_api ()) tracked_queried (fst tracked_stored) (fst (snd tracked_stored))"
    unfolding returned_def using tracked_store by blast
  from results_readable [OF fresh_heap_wf tracked_run [unfolded tracked_fresh_def] this run_nil]
  have "if rs_expired (fst (snd tracked_stored)) (fst tracked_stored) then True
    else \<exists>r. rs_native (fst (snd tracked_stored)) (fst tracked_stored) = Some r \<and>
           live_results (mysql (fst tracked_stored)) = [r]" by (simp split: if_splits) blast
  moreover have "\<not> rs_expired (fst (snd tracked_stored)) (fst tracked_stored)"
    "rs_native (fst (snd tracked_stored)) (fst tracked_stored) = Some 1" by code_simp+
  ultimately show ?thesis by simp
qed

end
