(* ===== verification/Connector.thy ===== *)
theory Connector
  imports Mysql_Service
begin

text \<open>
  The class templates over a service: \<open>basic_connector.hpp\<close>, \<open>execute.hpp\<close> with
  \<open>detail/execute_handler.hpp\<close>, \<open>basic_scoped_transaction.hpp\<close> and
  \<open>basic_results_iterator.hpp\<close>.

  The template argument \<open>MySQLService\<close> is a record of operations on a state \<open>'s\<close>, the
  implementation object of the connector; \<open>mysql_service_ops\<close> is the instance with
  \<open>mysql_service\<close>.  An operation that throws returns \<open>Inl\<close> of the exception.
\<close>

record 's service_ops =
  svc_mysql_error :: "'s \<Rightarrow> string"
  svc_open :: "'s \<Rightarrow> error_code \<Rightarrow> 's \<times> error_code"
  svc_is_open :: "'s \<Rightarrow> bool"
  svc_close :: "'s \<Rightarrow> 's"
  svc_set_option :: "'s \<Rightarrow> mysql_option \<Rightarrow> error_code \<Rightarrow> 's \<times> error_code"
  svc_cancel :: "'s \<Rightarrow> 's"
  svc_connect :: "'s \<Rightarrow> endpoint \<Rightarrow> auth_info \<Rightarrow> string \<Rightarrow> u64 \<Rightarrow> error_code \<Rightarrow> 's \<times> error_code"
  svc_query :: "'s \<Rightarrow> string \<Rightarrow> error_code \<Rightarrow> 's \<times> error_code"
  svc_has_more_results :: "'s \<Rightarrow> bool"
  svc_store_result :: "'s \<Rightarrow> error_code \<Rightarrow> ('s \<times> result_set \<times> error_code) option"
  svc_autocommit :: "'s \<Rightarrow> bool \<Rightarrow> error_code \<Rightarrow> 's \<times> error_code"
  svc_commit :: "'s \<Rightarrow> error_code \<Rightarrow> 's \<times> error_code"
  svc_rollback :: "'s \<Rightarrow> error_code \<Rightarrow> 's \<times> error_code"
  svc_affected_rows :: "'s \<Rightarrow> u64"

section \<open>The connector\<close>

text \<open>
  The throwing forms share one shape: they run the operation with a fresh error code and
  pass the code it returns, with the error text of the handle, to \<open>throw_error\<close>.
\<close>

definition throwing ::
  "'s service_ops \<Rightarrow> 's \<times> error_code \<Rightarrow> 's \<times> (system_error + unit)" where
  "throwing S r = (case r of (s, ec) \<Rightarrow> (s, throw_error ec (svc_mysql_error S s)))"

definition connector_open :: "'s service_ops \<Rightarrow> 's \<Rightarrow> 's \<times> (system_error + unit)" where
  "connector_open S s = throwing S (svc_open S s no_error)"

definition connector_is_open :: "'s service_ops \<Rightarrow> 's \<Rightarrow> bool" where
  "connector_is_open S s = svc_is_open S s"

definition connector_close :: "'s service_ops \<Rightarrow> 's \<Rightarrow> 's" where
  "connector_close S s = svc_close S s"

definition connector_cancel :: "'s service_ops \<Rightarrow> 's \<Rightarrow> 's" where
  "connector_cancel S s = svc_cancel S s"

definition connector_has_more_results :: "'s service_ops \<Rightarrow> 's \<Rightarrow> bool" where
  "connector_has_more_results S s = svc_has_more_results S s"

definition connector_affected_rows :: "'s service_ops \<Rightarrow> 's \<Rightarrow> u64" where
  "connector_affected_rows S s = svc_affected_rows S s"

definition connector_set_option ::
  "'s service_ops \<Rightarrow> 's \<Rightarrow> mysql_option \<Rightarrow> 's \<times> (system_error + unit)" where
  "connector_set_option S s opt = throwing S (svc_set_option S s opt no_error)"

definition connector_connect ::
  "'s service_ops \<Rightarrow> 's \<Rightarrow> endpoint \<Rightarrow> auth_info \<Rightarrow> string \<Rightarrow> u64 \<Rightarrow> 's \<times> (system_error + unit)" where
  "connector_connect S s ep auth database fl =
     throwing S (svc_connect S s ep auth database fl no_error)"

definition connector_query ::
  "'s service_ops \<Rightarrow> 's \<Rightarrow> string \<Rightarrow> 's \<times> (system_error + unit)" where
  "connector_query S s stmt = throwing S (svc_query S s stmt no_error)"

definition connector_autocommit ::
  "'s service_ops \<Rightarrow> 's \<Rightarrow> bool \<Rightarrow> 's \<times> (system_error + unit)" where
  "connector_autocommit S s mode = throwing S (svc_autocommit S s mode no_error)"

definition connector_commit :: "'s service_ops \<Rightarrow> 's \<Rightarrow> 's \<times> (system_error + unit)" where
  "connector_commit S s = throwing S (svc_commit S s no_error)"

definition connector_rollback :: "'s service_ops \<Rightarrow> 's \<Rightarrow> 's \<times> (system_error + unit)" where
  "connector_rollback S s = throwing S (svc_rollback S s no_error)"

definition connector_store_result ::
  "'s service_ops \<Rightarrow> 's \<Rightarrow> ('s \<times> (system_error + result_set)) option" where
  "connector_store_result S s =
     (case svc_store_result S s no_error of
        None \<Rightarrow> None
      | Some (s', rs, ec) \<Rightarrow>
          Some (s', case throw_error ec (svc_mysql_error S s') of
                      Inl e \<Rightarrow> Inl e | Inr _ \<Rightarrow> Inr rs))"

definition connector_query_result ::
  "'s service_ops \<Rightarrow> 's \<Rightarrow> string \<Rightarrow> ('s \<times> (system_error + result_set)) option" where
  "connector_query_result S s stmt =
     (case connector_query S s stmt of
        (s', Inl e) \<Rightarrow> Some (s', Inl e)
      | (s', Inr _) \<Rightarrow> connector_store_result S s')"

definition connector_query_result_ec ::
  "'s service_ops \<Rightarrow> 's \<Rightarrow> string \<Rightarrow> error_code \<Rightarrow> ('s \<times> result_set \<times> error_code) option" where
  "connector_query_result_ec S s stmt ec =
     (let (s', ec') = svc_query S s stmt ec
      in if failed ec' then Some (s', empty_set, ec') else svc_store_result S s' ec')"

section \<open>Executing a statement\<close>

definition execute_ec ::
  "'s service_ops \<Rightarrow> 's \<Rightarrow> string \<Rightarrow> error_code \<Rightarrow> 's \<times> u64 \<times> error_code" where
  "execute_ec S s stmt ec =
     (let (s', ec') = svc_query S s stmt ec
      in (s', if failed ec' then 0 else svc_affected_rows S s', ec'))"

definition execute :: "'s service_ops \<Rightarrow> 's \<Rightarrow> string \<Rightarrow> 's \<times> (system_error + u64)" where
  "execute S s stmt =
     (let (s', n, ec) = execute_ec S s stmt no_error
      in (s', case throw_error ec (svc_mysql_error S s') of Inl e \<Rightarrow> Inl e | Inr _ \<Rightarrow> Inr n))"

text \<open>
  The handler of \<open>async_execute\<close>: what it passes to the user's handler when the query has
  completed with \<open>ec\<close>.
\<close>

definition execute_handler :: "'s service_ops \<Rightarrow> 's \<Rightarrow> error_code \<Rightarrow> error_code \<times> u64" where
  "execute_handler S s ec = (ec, if failed ec then svc_affected_rows S s else 0)"

section \<open>Scoped transactions\<close>

text \<open>
  The object is its flag \<open>committed_\<close>.  The constructor throws when autocommit cannot be
  switched off; the destructor may not throw, so an exception of \<open>autocommit(true)\<close> there
  ends the program.
\<close>

definition tx_begin :: "'s service_ops \<Rightarrow> 's \<Rightarrow> 's \<times> (system_error + bool)" where
  "tx_begin S s =
     (case connector_autocommit S s False of
        (s', Inl e) \<Rightarrow> (s', Inl e)
      | (s', Inr _) \<Rightarrow> (s', Inr False))"

definition tx_commit ::
  "'s service_ops \<Rightarrow> 's \<Rightarrow> bool \<Rightarrow> 's \<times> bool \<times> (system_error + unit)" where
  "tx_commit S s committed =
     (case connector_commit S s of
        (s', Inl e) \<Rightarrow> (s', committed, Inl e)
      | (s', Inr _) \<Rightarrow> (s', True, Inr ()))"

definition tx_commit_ec ::
  "'s service_ops \<Rightarrow> 's \<Rightarrow> bool \<Rightarrow> error_code \<Rightarrow> 's \<times> bool \<times> error_code" where
  "tx_commit_ec S s committed ec =
     (let (s', ec') = svc_commit S s ec in (s', failed ec', ec'))"

definition tx_rollback ::
  "'s service_ops \<Rightarrow> 's \<Rightarrow> bool \<Rightarrow> 's \<times> bool \<times> (system_error + unit)" where
  "tx_rollback S s committed =
     (let (s', r) = connector_rollback S s in (s', committed, r))"

definition tx_rollback_ec ::
  "'s service_ops \<Rightarrow> 's \<Rightarrow> bool \<Rightarrow> error_code \<Rightarrow> 's \<times> bool \<times> error_code" where
  "tx_rollback_ec S s committed ec =
     (let (s', ec') = svc_rollback S s ec in (s', committed, ec'))"

datatype exit_status = Normal | Terminated

definition tx_end :: "'s service_ops \<Rightarrow> 's \<Rightarrow> bool \<Rightarrow> 's \<times> exit_status" where
  "tx_end S s committed =
     (let s1 = (if \<not> committed then fst (svc_rollback S s no_error) else s)
      in case connector_autocommit S s1 True of
           (s2, Inl e) \<Rightarrow> (s2, Terminated)
         | (s2, Inr _) \<Rightarrow> (s2, Normal))"

section \<open>The iterator over result sets\<close>

text \<open>\<open>it_connector\<close> says whether the iterator refers to a connector; there is only one.\<close>

record results_iterator =
  it_connector :: bool
  it_result :: result_set
  it_end :: bool

definition results_end :: results_iterator where
  "results_end =
     \<lparr>it_connector = False, it_result = result_set_default, it_end = True\<rparr>"

definition it_increment ::
  "'s service_ops \<Rightarrow> 's \<Rightarrow> results_iterator \<Rightarrow> ('s \<times> (system_error + results_iterator)) option" where
  "it_increment S s it =
     (if \<not> svc_has_more_results S s then Some (s, Inr (it\<lparr>it_end := True\<rparr>))
      else case connector_store_result S s of
             None \<Rightarrow> None
           | Some (s', Inl e) \<Rightarrow> Some (s', Inl e)
           | Some (s', Inr rs) \<Rightarrow> Some (s', Inr (it\<lparr>it_result := rs\<rparr>)))"

definition results_begin ::
  "'s service_ops \<Rightarrow> 's \<Rightarrow> ('s \<times> (system_error + results_iterator)) option" where
  "results_begin S s =
     (let it = \<lparr>it_connector = True, it_result = result_set_default, it_end = False\<rparr>
      in if \<not> svc_is_open S s
         then case throw_error (misc_error_code Not_initialized) (svc_mysql_error S s) of
                Inl e \<Rightarrow> Some (s, Inl e)
              | Inr _ \<Rightarrow> it_increment S s it
         else it_increment S s it)"

definition it_equal :: "results_iterator \<Rightarrow> results_iterator \<Rightarrow> bool" where
  "it_equal a b \<longleftrightarrow> it_end a = it_end b \<and> (it_end a \<or> it_connector a = it_connector b)"

definition it_not_equal :: "results_iterator \<Rightarrow> results_iterator \<Rightarrow> bool" where
  "it_not_equal a b \<longleftrightarrow> \<not> it_equal a b"

text \<open>\<open>operator*\<close> asserts that the iterator is not at the end.\<close>

definition it_dereference :: "results_iterator \<Rightarrow> access_error + result_set" where
  "it_dereference it = (if it_end it then Inl Assertion_failed else Inr (it_result it))"

lemma it_dereference_before_end:
  "it_not_equal it results_end \<Longrightarrow> it_dereference it = Inr (it_result it)"
  by (auto simp: it_not_equal_def it_equal_def it_dereference_def results_end_def)

text \<open>
  Walking from \<open>begin\<close> to the end iterator, as \<open>std::for_each\<close> does: the result sets seen,
  with the connection as it was when each was seen, and the exception that ended the walk, if
  one did.
\<close>

partial_function (option) walk_results ::
  "'s service_ops \<Rightarrow> 's \<Rightarrow> results_iterator \<Rightarrow> ('s \<times> result_set) list \<Rightarrow>
     ('s \<times> ('s \<times> result_set) list \<times> (system_error + unit)) option" where
  "walk_results S s it seen =
     (if it_equal it results_end then Some (s, seen, Inr ())
      else case it_increment S s it of
             None \<Rightarrow> None
           | Some (s', r) \<Rightarrow>
               (case r of
                  Inl e \<Rightarrow> Some (s', seen @ [(s, it_result it)], Inl e)
                | Inr it' \<Rightarrow> walk_results S s' it' (seen @ [(s, it_result it)])))"

section \<open>The instance with \<open>mysql_service\<close>\<close>

definition mysql_service_ops ::
  "('m, 'a) mysql_api_scheme \<Rightarrow> ('m, 'z) implementation_scheme service_ops" where
  "mysql_service_ops A =
     \<lparr>svc_mysql_error = (\<lambda>s. c_mysql_error A (mysql s)),
      svc_open = ms_open A, svc_is_open = ms_is_open, svc_close = ms_close A,
      svc_set_option = ms_set_option A, svc_cancel = ms_cancel, svc_connect = ms_connect A,
      svc_query = ms_query A, svc_has_more_results = ms_has_more_results A,
      svc_store_result = ms_store_result A, svc_autocommit = ms_autocommit A,
      svc_commit = ms_commit A, svc_rollback = ms_rollback A,
      svc_affected_rows = ms_affected_rows A\<rparr>"

section \<open>Services that refuse a closed connection\<close>

text \<open>
  What the templates rely on in a service: an operation on a connection that is not open
  reports \<open>not_initialized\<close> and changes nothing, and no operation closes the connection
  behind the back of the user.  Both services of the library satisfy it.
\<close>

locale guarded_service =
  fixes S :: "'s service_ops"
  assumes query_closed:
      "\<not> svc_is_open S s \<Longrightarrow> svc_query S s stmt ec = (s, misc_error_code Not_initialized)"
    and commit_closed:
      "\<not> svc_is_open S s \<Longrightarrow> svc_commit S s ec = (s, misc_error_code Not_initialized)"
    and rollback_closed:
      "\<not> svc_is_open S s \<Longrightarrow> svc_rollback S s ec = (s, misc_error_code Not_initialized)"
    and no_results_closed: "\<not> svc_is_open S s \<Longrightarrow> \<not> svc_has_more_results S s"
    and query_open: "svc_is_open S (fst (svc_query S s stmt ec)) = svc_is_open S s"
    and commit_open: "svc_is_open S (fst (svc_commit S s ec)) = svc_is_open S s"
    and rollback_open: "svc_is_open S (fst (svc_rollback S s ec)) = svc_is_open S s"
    and autocommit_open: "svc_is_open S (fst (svc_autocommit S s mode ec)) = svc_is_open S s"
begin

abbreviation closed_error :: system_error where
  "closed_error \<equiv> system_error_of (misc_error_code Not_initialized)"

lemma throw_closed:
  "throw_error (misc_error_code Not_initialized) text = Inl closed_error"
  by (simp add: throw_error_def misc_error_code_def failed_def)

lemma connector_query_closed:
  "\<not> svc_is_open S s \<Longrightarrow> connector_query S s stmt = (s, Inl closed_error)"
  by (simp add: connector_query_def throwing_def query_closed throw_closed)

lemma execute_ec_closed:
  "\<not> svc_is_open S s \<Longrightarrow> execute_ec S s stmt ec = (s, 0, misc_error_code Not_initialized)"
  by (simp add: execute_ec_def query_closed)

lemma execute_closed: "\<not> svc_is_open S s \<Longrightarrow> execute S s stmt = (s, Inl closed_error)"
  by (simp add: execute_def execute_ec_closed throw_closed)

lemma query_result_closed:
  "\<not> svc_is_open S s \<Longrightarrow> connector_query_result S s stmt = Some (s, Inl closed_error)"
  by (simp add: connector_query_result_def connector_query_closed)

lemma query_result_ec_closed:
  "\<not> svc_is_open S s \<Longrightarrow>
   connector_query_result_ec S s stmt ec = Some (s, empty_set, misc_error_code Not_initialized)"
  by (simp add: connector_query_result_ec_def query_closed)

lemma results_begin_closed: "\<not> svc_is_open S s \<Longrightarrow> results_begin S s = Some (s, Inl closed_error)"
  by (simp add: results_begin_def throw_closed)

lemma tx_commit_closed:
  "\<not> svc_is_open S s \<Longrightarrow> tx_commit S s c = (s, c, Inl closed_error)"
  by (simp add: tx_commit_def connector_commit_def throwing_def commit_closed throw_closed)

lemma tx_begin_open: "svc_is_open S (fst (tx_begin S s)) = svc_is_open S s"
  using autocommit_open [of s False no_error]
  by (auto simp: tx_begin_def connector_autocommit_def throwing_def split: prod.splits sum.splits)

lemma tx_end_open: "svc_is_open S (fst (tx_end S s c)) = svc_is_open S s"
proof -
  let ?s1 = "if \<not> c then fst (svc_rollback S s no_error) else s"
  have "fst (tx_end S s c) = fst (svc_autocommit S ?s1 True no_error)"
    by (auto simp: tx_end_def connector_autocommit_def throwing_def Let_def
        split: prod.splits sum.splits)
  then show ?thesis by (simp add: autocommit_open rollback_open)
qed

end

lemma initialized_update [simp]: "ms_is_open (s\<lparr>mysql := m\<rparr>) = ms_is_open s"
  by (simp add: ms_is_open_def)

interpretation mysql_guarded: guarded_service "mysql_service_ops A" for A
  by unfold_locales
     (auto simp: mysql_service_ops_def ms_query_def ms_commit_def ms_rollback_def
       ms_has_more_results_def ms_autocommit_def ms_is_open_def Let_def frame_simps
       split: prod.splits)

section \<open>Properties\<close>

text \<open>
  Misuse is refused: on a connector that is not open, \<open>execute\<close>, \<open>query_result\<close> and the
  iterator over the results report \<open>not_initialized\<close> and leave the connection alone.
\<close>

theorem closed_connector_refuses:
  fixes A :: "('m, 'a) mysql_api_scheme" and s :: "('m, 'z) implementation_scheme"
  assumes "\<not> ms_is_open s"
  defines "S \<equiv> mysql_service_ops A"
    and "e \<equiv> system_error_of (misc_error_code Not_initialized)"
  shows "execute S s stmt = (s, Inl e) \<and>
         execute_ec S s stmt ec = (s, 0, misc_error_code Not_initialized) \<and>
         connector_query_result S s stmt = Some (s, Inl e) \<and>
         connector_query_result_ec S s stmt ec =
           Some (s, empty_set, misc_error_code Not_initialized) \<and>
         results_begin S s = Some (s, Inl e)"
proof -
  have "\<not> svc_is_open S s"
    using assms(1) by (simp add: S_def mysql_service_ops_def)
  then show ?thesis
    by (simp add: S_def e_def mysql_guarded.execute_closed mysql_guarded.execute_ec_closed
        mysql_guarded.query_result_closed mysql_guarded.query_result_ec_closed
        mysql_guarded.results_begin_closed)
qed

definition closed_connection :: "sample_server implementation" where
  "closed_connection = new_implementation (sample_start []) fresh_heap"

theorem closed_connector_refuses_witness:
  "snd (execute (mysql_service_ops sample_api) closed_connection ''COMMIT'') =
     Inl (system_error_of (misc_error_code Not_initialized))"
proof -
  have "\<not> ms_is_open closed_connection" by code_simp
  from closed_connector_refuses [OF this, of sample_api "''COMMIT''"] show ?thesis by simp
qed

text \<open>
  The exception for a code of the client category carries the error text of the
  library; the one for any other code has an empty \<open>what\<close>, also where the category has a
  text for it.
\<close>

theorem thrown_text:
  "throwing S (s, ec) =
     (s, if \<not> failed ec then Inr ()
         else Inl (System_error ec
                (if ec_category ec = Client_category then svc_mysql_error S s else '''')))"
  by (simp add: throwing_def throw_error_def system_error_of_def)

text \<open>
  \<open>execute\<close> and the handler of \<open>async_execute\<close> disagree on the number of affected rows:
  the blocking form reads it after success and returns 0 after a failure, the handler
  reads it after a failure and passes 0 after success.
\<close>

theorem execute_handler_inverted:
  fixes S s stmt ec0
  defines "s' \<equiv> fst (svc_query S s stmt ec0)" and "ec \<equiv> snd (svc_query S s stmt ec0)"
  shows "execute_ec S s stmt ec0 = (s', if failed ec then 0 else svc_affected_rows S s', ec) \<and>
         execute_handler S s' ec = (ec, if failed ec then svc_affected_rows S s' else 0)"
  by (simp add: assms execute_ec_def execute_handler_def case_prod_unfold Let_def)

text \<open>
  A scoped transaction that is not committed is rolled back at its end, and autocommit
  is switched on again in every case.
\<close>

theorem uncommitted_transaction_rolls_back:
  assumes "tx_begin S s = (s1, Inr committed)"
  shows "\<not> committed \<and>
         fst (tx_end S s1 committed) =
           fst (svc_autocommit S (fst (svc_rollback S s1 no_error)) True no_error)"
  using assms
  by (auto simp: tx_begin_def tx_end_def connector_autocommit_def throwing_def Let_def
      split: prod.splits sum.splits)

theorem uncommitted_transaction_rolls_back_witness:
  "sv_log (mysql (fst (tx_end (mysql_service_ops sample_api)
     (fst (tx_begin (mysql_service_ops sample_api) (sample_connection []))) False))) =
   [''init'', ''autocommit'', ''rollback'', ''autocommit'']"
proof -
  let ?S = "mysql_service_ops sample_api"
  let ?s1 = "fst (tx_begin ?S (sample_connection []))"
  have "snd (tx_begin ?S (sample_connection [])) = Inr False" by code_simp
  then have b: "tx_begin ?S (sample_connection []) = (?s1, Inr False)"
    by (metis prod.collapse)
  have e: "fst (tx_end ?S ?s1 False) =
      fst (svc_autocommit ?S (fst (svc_rollback ?S ?s1 no_error)) True no_error)"
    using uncommitted_transaction_rolls_back [OF b] by (rule conjunct2)
  show ?thesis
    unfolding e by code_simp
qed

text \<open>
  The two forms of \<open>commit\<close> of a scoped transaction leave opposite flags.  After the
  throwing form, the end of the transaction rolls back exactly when the commit has failed;
  after the form with an error code, exactly when it has succeeded: a failed commit is not
  rolled back before autocommit is switched on again.
\<close>

theorem commit_forms_disagree:
  fixes S s ec
  defines "s' \<equiv> fst (svc_commit S s no_error)" and "bad \<equiv> failed (snd (svc_commit S s no_error))"
    and "roll \<equiv> \<lambda>b s. fst (svc_autocommit S (if b then fst (svc_rollback S s no_error) else s)
                          True no_error)"
  shows "(case tx_commit S s False of (t, c, r) \<Rightarrow> fst (tx_end S t c)) = roll bad s' \<and>
         (case tx_commit_ec S s False no_error of (t, c, e) \<Rightarrow> fst (tx_end S t c)) =
           roll (\<not> bad) s'"
  by (auto simp: assms tx_commit_def tx_commit_ec_def tx_end_def connector_commit_def
      connector_autocommit_def throwing_def throw_error_def Let_def
      split: prod.splits sum.splits if_splits)

end
