(* ===== verification/Result_Stream.thy ===== *)
theory Result_Stream
  imports Connector
begin

text \<open>
  The path a user takes through the library: a query, then the iteration over its result
  sets with \<open>basic_results_iterator\<close>, on \<open>mysql_service\<close>.

  The contract of the client library for one statement is a list of deliveries, one for
  each result in the order of the server: a table with its handle, its field descriptions
  and its rows, or the absence of a table (an \<open>UPDATE\<close>, say).
\<close>

datatype delivery =
    Table res_ptr "mysql_field list" "(mysql_row \<times> u64 list) list"
  | No_table

fun delivered_handle :: "delivery \<Rightarrow> res_ptr option" where
  "delivered_handle (Table r _ _) = Some r"
| "delivered_handle No_table = None"

text \<open>The state of the library after the descriptions, or the rows, have been fetched.\<close>

fun fields_end :: "('m, 'a) mysql_api_scheme \<Rightarrow> 'm \<Rightarrow> res_ptr \<Rightarrow> 'e list \<Rightarrow> 'm" where
  "fields_end A m r [] = fst (c_mysql_fetch_field A m r)"
| "fields_end A m r (_ # fs) = fields_end A (fst (c_mysql_fetch_field A m r)) r fs"

fun rows_end :: "('m, 'a) mysql_api_scheme \<Rightarrow> 'm \<Rightarrow> res_ptr \<Rightarrow> 'e list \<Rightarrow> 'm" where
  "rows_end A m r [] = fst (c_mysql_fetch_row A m r)"
| "rows_end A m r (_ # xs) = rows_end A (fst (c_mysql_fetch_row A m r)) r xs"

fun taken_state :: "('m, 'a) mysql_api_scheme \<Rightarrow> 'm \<Rightarrow> delivery \<Rightarrow> 'm" where
  "taken_state A m No_table = fst (c_mysql_store_result A m)"
| "taken_state A m (Table r infos xs) =
     (let m1 = fst (c_mysql_store_result A m)
      in if xs = [] then m1 else rows_end A (fields_end A m1 r infos) r xs)"

text \<open>
  \<open>gives A m d\<close>: the result that is current in the state \<open>m\<close> is \<open>d\<close>, and storing and
  fetching it reports no error.
\<close>

fun gives :: "('m, 'a) mysql_api_scheme \<Rightarrow> 'm \<Rightarrow> delivery \<Rightarrow> bool" where
  "gives A m No_table \<longleftrightarrow>
     snd (c_mysql_store_result A m) = None \<and> c_mysql_errno A (taken_state A m No_table) = 0"
| "gives A m (Table r infos xs) \<longleftrightarrow>
     (let m1 = fst (c_mysql_store_result A m); m2 = fields_end A m1 r infos
      in snd (c_mysql_store_result A m) = Some r \<and>
         (if xs = [] then c_mysql_num_rows A m1 r = 0
          else c_mysql_num_rows A m1 r \<noteq> 0 \<and> field_sequence A m1 r infos m2 \<and>
               row_sequence A m2 r xs (rows_end A m2 r xs) \<and>
               c_mysql_errno A (rows_end A m2 r xs) = 0))"

fun freed_state :: "('m, 'a) mysql_api_scheme \<Rightarrow> 'm \<Rightarrow> res_ptr option \<Rightarrow> 'm" where
  "freed_state A m None = m"
| "freed_state A m (Some r) = c_mysql_free_result A m r"

text \<open>
  How the results of a statement end: regularly, or with an error.  \<open>mysql_next_result\<close> reports the
  error of a later part of the statement, \<open>mysql_store_result\<close> returns null for a result that should
  be there, or the rows of the table that \<open>mysql_store_result\<close> returned end with an error.
\<close>

datatype stream_end =
    Finished
  | Next_fails u32
  | Store_fails u32
  | Fetch_fails res_ptr "mysql_field list" "(mysql_row \<times> u64 list) list" u32

fun end_code :: "stream_end \<Rightarrow> u32 option" where
  "end_code Finished = None"
| "end_code (Next_fails e) = Some e"
| "end_code (Store_fails e) = Some e"
| "end_code (Fetch_fails r infos xs e) = Some e"

text \<open>\<open>breaks A m fin\<close>: the result that is current in the state \<open>m\<close> cannot be taken over.\<close>

fun breaks :: "('m, 'a) mysql_api_scheme \<Rightarrow> 'm \<Rightarrow> stream_end \<Rightarrow> bool" where
  "breaks A m Finished \<longleftrightarrow> False"
| "breaks A m (Next_fails e) \<longleftrightarrow> False"
| "breaks A m (Store_fails e) \<longleftrightarrow>
     snd (c_mysql_store_result A m) = None \<and>
     c_mysql_errno A (fst (c_mysql_store_result A m)) = e \<and> e \<noteq> 0"
| "breaks A m (Fetch_fails r infos xs e) \<longleftrightarrow>
     (let m1 = fst (c_mysql_store_result A m); m2 = fields_end A m1 r infos
      in snd (c_mysql_store_result A m) = Some r \<and> c_mysql_num_rows A m1 r \<noteq> 0 \<and>
         field_sequence A m1 r infos m2 \<and> row_sequence A m2 r xs (rows_end A m2 r xs) \<and>
         c_mysql_errno A (rows_end A m2 r xs) = e \<and> e \<noteq> 0)"

text \<open>
  \<open>gives_rest A m p ds fin\<close>: after a result with the handle \<open>p\<close> has been taken, the results
  \<open>ds\<close> follow and then \<open>fin\<close>.  \<open>mysql_more_results\<close> says whether there is more, before and
  after the last result is freed, and \<open>mysql_next_result\<close> succeeds until the end.
\<close>

fun gives_rest ::
  "('m, 'a) mysql_api_scheme \<Rightarrow> 'm \<Rightarrow> res_ptr option \<Rightarrow> delivery list \<Rightarrow> stream_end \<Rightarrow> bool" where
  "gives_rest A m p [] fin \<longleftrightarrow>
     (if fin = Finished then \<not> c_mysql_more_results A m
      else c_mysql_more_results A m \<and>
           (let m1 = freed_state A m p; m2 = fst (c_mysql_next_result A m1)
            in c_mysql_more_results A m1 \<and>
               (case fin of
                  Next_fails e \<Rightarrow>
                    snd (c_mysql_next_result A m1) \<noteq> 0 \<and> c_mysql_errno A m2 = e \<and> e \<noteq> 0
                | _ \<Rightarrow> snd (c_mysql_next_result A m1) = 0 \<and> breaks A m2 fin)))"
| "gives_rest A m p (d # ds) fin \<longleftrightarrow>
     c_mysql_more_results A m \<and>
     (let m1 = freed_state A m p; m2 = fst (c_mysql_next_result A m1)
      in c_mysql_more_results A m1 \<and> snd (c_mysql_next_result A m1) = 0 \<and> gives A m2 d \<and>
         gives_rest A (taken_state A m2 d) (delivered_handle d) ds fin)"

text \<open>All results of a statement: the first one is there without \<open>mysql_next_result\<close>.\<close>

fun gives_all :: "('m, 'a) mysql_api_scheme \<Rightarrow> 'm \<Rightarrow> delivery list \<Rightarrow> stream_end \<Rightarrow> bool" where
  "gives_all A m [] fin \<longleftrightarrow> breaks A m fin"
| "gives_all A m (d # ds) fin \<longleftrightarrow>
     gives A m d \<and> gives_rest A (taken_state A m d) (delivered_handle d) ds fin"

text \<open>What the user sees of a delivery while the connection is in the state \<open>h\<close>.\<close>

fun seen_as :: "'z cpp_heap_scheme \<times> result_set \<Rightarrow> delivery \<Rightarrow> bool" where
  "seen_as (h, rs) No_table \<longleftrightarrow> rs = empty_set"
| "seen_as (h, rs) (Table r infos xs) \<longleftrightarrow>
     rs_native rs h = Some r \<and> rs_rows rs = Inr (map (row_of r infos) xs) \<and>
     rs_get_fields_info rs h = Inr (if xs = [] then [] else infos)"

section \<open>One result\<close>

lemma take_result_gives:
  assumes "gives A (mysql s) d" and "last_result s = Empty_ptr" and "impl_inv s"
  obtains s' rs ec' where
    "ms_take_result A s ec = Some (s', rs, ec')" and "\<not> failed ec'" and
    "mysql s' = taken_state A (mysql s) d" and "seen_as (s', rs) d" and
    "sp_get (last_result s') = delivered_handle d" and "impl_inv s'" and
    "initialized s' = initialized s" and "flags s' = flags s" and
    "first_result_stored s' = first_result_stored s"
proof -
  obtain m1 r where st: "c_mysql_store_result A (mysql s) = (m1, r)" by fastforce
  define ec1 where "ec1 = error_wrapper_ptr A (r = None) m1 no_error"
  define s1 where "s1 = reset_last_result A r (s\<lparr>mysql := m1\<rparr>)"
  have m1: "mysql s1 = m1"
    using assms(2) by (simp add: s1_def reset_last_result_def sp_make_def result_set_deleter_def)
  have inv: "impl_inv s1"
    using assms(3) by (simp add: s1_def reset_last_result_inv frame_simps)
  have live: "use_count s1 (next_block s) \<noteq> 0"
    using assms(2) by (simp add: s1_def reset_last_result_def sp_make_def result_set_deleter_def)
  have frame: "last_result s1 = Shared (next_block s) r" "initialized s1 = initialized s"
      "flags s1 = flags s" "first_result_stored s1 = first_result_stored s"
    by (simp_all add: s1_def frame_simps)
  have step: "ms_take_result A s ec =
      (case result_set_assign A m1 result_set_default (Shared (next_block s) r) ec1 of
         None \<Rightarrow> None | Some (m', rs, ec2) \<Rightarrow> Some (s1\<lparr>mysql := m'\<rparr>, rs, ec2))"
    using m1 frame(1) unfolding s1_def ec1_def
    by (simp add: ms_take_result_def mysql_store_result_def clear_error_def st Let_def)
  show thesis
  proof (cases d)
    case No_table
    then have "r = None" and "\<not> failed ec1"
      using assms(1) st by (simp_all add: ec1_def failed_wrappers)
    then show thesis
      using that step inv frame No_table st
      by (simp add: assign_null_target frame_simps result_set_default_def empty_set_def)
  next
    case (Table q infos xs)
    then have r: "r = Some q" and ec1: "ec1 = no_error"
      using assms(1) st by (auto simp: ec1_def Let_def error_wrapper_ptr_def)
    show thesis
    proof (cases "xs = []")
      case True
      then show thesis
        using that step inv frame Table r ec1 assms(1) st live
        by (simp add: result_set_assign_def result_set_default_def rs_native_def rs_rows_def
            rs_get_fields_info_def rs_expired_def frame_simps)
    next
      case False
      let ?m2 = "fields_end A m1 q infos"
      have g: "c_mysql_num_rows A m1 q \<noteq> 0" "field_sequence A m1 q infos ?m2"
          "row_sequence A ?m2 q xs (rows_end A ?m2 q xs)"
          "c_mysql_errno A (rows_end A ?m2 q xs) = 0"
        using assms(1) st False Table by (simp_all add: Let_def)
      obtain ec' where "result_set_assign A m1 result_set_default (Shared (next_block s) (Some q))
          ec1 = Some (rows_end A ?m2 q xs,
            \<lparr>rs_mysql = True, rs_weak = Weak (next_block s) (Some q),
             rs_values = Some (map (row_of q infos) xs), rs_fields_info = Some infos\<rparr>, ec')"
        and "\<not> failed ec'"
        using g by (auto simp: result_set_assign_def fetch_fields_sequence fetch_rows_sequence
            result_set_default_def)
      then show thesis
        using that step inv frame Table r st live False
        by (simp add: rs_native_def rs_rows_def rs_get_fields_info_def rs_expired_def frame_simps)
    qed
  qed
qed

lemma take_result_breaks:
  assumes "breaks A (mysql s) fin" and "last_result s = Empty_ptr" and "end_code fin = Some e"
  shows "e \<noteq> 0 \<and> (\<exists>s' rs. ms_take_result A s ec = Some (s', rs, Error_code e Client_category))"
proof -
  obtain m1 r where st: "c_mysql_store_result A (mysql s) = (m1, r)" by fastforce
  define ec1 where "ec1 = error_wrapper_ptr A (r = None) m1 no_error"
  define s1 where "s1 = reset_last_result A r (s\<lparr>mysql := m1\<rparr>)"
  have m1: "mysql s1 = m1"
    using assms(2) by (simp add: s1_def reset_last_result_def sp_make_def result_set_deleter_def)
  have last: "last_result s1 = Shared (next_block s) r" by (simp add: s1_def frame_simps)
  have step: "ms_take_result A s ec =
      (case result_set_assign A m1 result_set_default (Shared (next_block s) r) ec1 of
         None \<Rightarrow> None | Some (m', rs, ec2) \<Rightarrow> Some (s1\<lparr>mysql := m'\<rparr>, rs, ec2))"
    using m1 last unfolding s1_def ec1_def
    by (simp add: ms_take_result_def mysql_store_result_def clear_error_def st Let_def)
  show ?thesis
  proof (cases fin)
    case (Store_fails e')
    then have "r = None" "ec1 = Error_code e Client_category" "e \<noteq> 0"
      using assms(1,3) st by (auto simp: ec1_def error_wrapper_ptr_def last_client_error_def)
    then show ?thesis using step by (simp add: assign_null_target)
  next
    case (Fetch_fails q infos xs e')
    let ?m2 = "fields_end A m1 q infos"
    have "r = Some q" "e' = e" "e \<noteq> 0" "c_mysql_num_rows A m1 q \<noteq> 0"
        "field_sequence A m1 q infos ?m2" "row_sequence A ?m2 q xs (rows_end A ?m2 q xs)"
        "c_mysql_errno A (rows_end A ?m2 q xs) = e"
      using assms(1,3) st Fetch_fails by (auto simp: Let_def)
    then show ?thesis
      using step by (simp add: result_set_assign_def fetch_fields_sequence fetch_rows_sequence
          result_set_default_def last_client_error_def failed_def Let_def)
  qed (use assms(1) in simp_all)
qed

section \<open>Walking over all of them\<close>

lemma free_result_mysql:
  assumes "impl_inv s"
  shows "mysql (free_result A s) = freed_state A (mysql s) (sp_get (last_result s))"
  using assms
  by (cases "last_result s")
     (auto simp: free_result_def result_set_deleter_def impl_inv_def split: option.splits)

lemma multi_more:
  "ms_is_open s \<Longrightarrow> multi_results_enabled A (flags s) \<Longrightarrow> first_result_stored s \<Longrightarrow>
   ms_has_more_results A s = c_mysql_more_results A (mysql s)"
  by (simp add: ms_has_more_results_def mysql_more_results_def)

lemma next_result_gives:
  assumes "gives_rest A (mysql s) (sp_get (last_result s)) (d # ds) fin"
    and "impl_inv s" and "ms_is_open s" and "multi_results_enabled A (flags s)"
    and "first_result_stored s"
  defines "m2 \<equiv> fst (c_mysql_next_result A (mysql (free_result A s)))"
  obtains s' where "ms_next_result A s no_error = (s', no_error)" and "mysql s' = m2" and
    "gives A m2 d" and "gives_rest A (taken_state A m2 d) (delivered_handle d) ds fin" and
    "impl_inv s'" and "last_result s' = Empty_ptr" and "initialized s'" and
    "flags s' = flags s" and "first_result_stored s'"
proof -
  let ?s1 = "free_result A s"
  have more: "ms_has_more_results A ?s1"
    using assms free_result_mysql [OF assms(2), of A]
    by (simp add: multi_more ms_is_open_def frame_simps Let_def)
  then have "ms_next_result A s no_error = (?s1\<lparr>mysql := m2\<rparr>, no_error)"
    using assms free_result_mysql [OF assms(2), of A]
    by (simp add: ms_next_result_def mysql_next_result_def clear_error_def error_wrapper_int_def
        Let_def case_prod_unfold)
  then show thesis
    using that assms free_result_mysql [OF assms(2), of A] free_result_inv [OF assms(2), of A]
    by (simp add: frame_simps Let_def ms_is_open_def)
qed

text \<open>The state of an iteration that has reached a result.\<close>

definition at_result ::
  "('m, 'a) mysql_api_scheme \<Rightarrow> ('m, 'z) implementation_scheme \<Rightarrow> results_iterator \<Rightarrow> delivery \<Rightarrow>
     delivery list \<Rightarrow> stream_end \<Rightarrow> bool" where
  "at_result A s it d ds fin \<longleftrightarrow>
     impl_inv s \<and> ms_is_open s \<and> first_result_stored s \<and>
     sp_get (last_result s) = delivered_handle d \<and> \<not> it_end it \<and>
     seen_as (s, it_result it) d \<and> gives_rest A (mysql s) (delivered_handle d) ds fin"

lemma store_result_reaches:
  assumes "ms_next_result A s no_error = (s1, no_error)" and "impl_inv s1" and "ms_is_open s1"
    and "first_result_stored s1" and "last_result s1 = Empty_ptr" and "gives A (mysql s1) d"
    and "gives_rest A (taken_state A (mysql s1) d) (delivered_handle d) ds fin" and "\<not> it_end it"
    and "svc_has_more_results (mysql_service_ops A) s"
  shows "\<exists>s' it'. it_increment (mysql_service_ops A) s it = Some (s', Inr it') \<and>
           at_result A s' it' d ds fin \<and> flags s' = flags s1"
proof -
  obtain s' rs ec' where t: "ms_take_result A s1 no_error = Some (s', rs, ec')"
      "\<not> failed ec'" "mysql s' = taken_state A (mysql s1) d" "seen_as (s', rs) d"
      "sp_get (last_result s') = delivered_handle d" "impl_inv s'"
      "initialized s' = initialized s1" "flags s' = flags s1"
      "first_result_stored s' = first_result_stored s1"
    using take_result_gives [OF assms(6,5,2), of no_error] by metis
  then have "it_increment (mysql_service_ops A) s it = Some (s', Inr (it\<lparr>it_result := rs\<rparr>))"
    using assms(1,9)
    by (simp add: it_increment_def connector_store_result_def mysql_service_ops_def
        ms_store_result_def throw_error_def)
  then show ?thesis
    using t assms by (auto simp: at_result_def ms_is_open_def)
qed

text \<open>How the walk comes to its end: an error is thrown with the text that the library has for it.\<close>

definition thrown_end ::
  "('m, 'a) mysql_api_scheme \<Rightarrow> ('m, 'z) implementation_scheme \<Rightarrow> stream_end \<Rightarrow>
     system_error + unit" where
  "thrown_end A s fin =
     (case end_code fin of
        None \<Rightarrow> Inr ()
      | Some e \<Rightarrow> Inl (System_error (Error_code e Client_category) (c_mysql_error A (mysql s))))"

lemma increment_throws:
  assumes "ms_store_result A s no_error = Some (s', rs, Error_code e Client_category)" and "e \<noteq> 0"
    and "end_code fin = Some e" and "ms_has_more_results A s"
  shows "\<exists>x. it_increment (mysql_service_ops A) s it = Some (s', Inl x) \<and>
           thrown_end A s' fin = Inl x"
  using assms
  by (simp add: it_increment_def mysql_service_ops_def connector_store_result_def throw_error_def
      thrown_end_def failed_def)

lemma breaking_increment:
  assumes "ms_next_result A s no_error = (s1, no_error)" and "last_result s1 = Empty_ptr"
    and "breaks A (mysql s1) fin" and "ms_has_more_results A s"
  shows "\<exists>s' x. it_increment (mysql_service_ops A) s it = Some (s', Inl x) \<and>
           thrown_end A s' fin = Inl x"
proof -
  obtain e where e: "end_code fin = Some e" using assms(3) by (cases fin) simp_all
  obtain s' rs where t: "e \<noteq> 0" "ms_take_result A s1 no_error = Some (s', rs, Error_code e Client_category)"
    using take_result_breaks [OF assms(3,2) e, of no_error] by blast
  then have "ms_store_result A s no_error = Some (s', rs, Error_code e Client_category)"
    using assms(1) by (simp add: ms_store_result_def)
  from increment_throws [OF this t(1) e assms(4)] show ?thesis by blast
qed

lemma broken_increment:
  assumes "at_result A s it d [] fin" and "fin \<noteq> Finished" and "multi_results_enabled A (flags s)"
  shows "\<exists>s' x. it_increment (mysql_service_ops A) s it = Some (s', Inl x) \<and>
           thrown_end A s' fin = Inl x"
proof -
  let ?s1 = "free_result A s" and ?m2 = "fst (c_mysql_next_result A (mysql (free_result A s)))"
  have a: "impl_inv s" "ms_is_open s" "first_result_stored s"
      "gives_rest A (mysql s) (sp_get (last_result s)) [] fin"
    using assms(1) by (simp_all add: at_result_def)
  have more: "ms_has_more_results A s" "ms_has_more_results A ?s1"
    using a assms(2,3) free_result_mysql [OF a(1), of A]
    by (simp_all add: multi_more ms_is_open_def frame_simps Let_def)
  then have n: "ms_next_result A s no_error =
      (?s1\<lparr>mysql := ?m2\<rparr>,
       error_wrapper_int A (snd (c_mysql_next_result A (mysql ?s1))) ?m2 no_error)"
    using a(3)
    by (simp add: ms_next_result_def mysql_next_result_def clear_error_def Let_def case_prod_unfold)
  show ?thesis
  proof (cases fin)
    case (Next_fails e)
    then have e: "snd (c_mysql_next_result A (mysql ?s1)) \<noteq> 0" "c_mysql_errno A ?m2 = e" "e \<noteq> 0"
      using a(4) free_result_mysql [OF a(1), of A] by (simp_all add: Let_def)
    then have "ms_store_result A s no_error =
        Some (?s1\<lparr>mysql := ?m2\<rparr>, empty_set, Error_code e Client_category)"
      using n by (simp add: ms_store_result_def error_wrapper_int_def last_client_error_def failed_def)
    from increment_throws [OF this e(3) _ more(1), of fin it] Next_fails show ?thesis by auto
  next
    case Finished
    then show ?thesis using assms(2) by simp
  next
    case (Store_fails e)
    then have "breaks A ?m2 fin" "snd (c_mysql_next_result A (mysql ?s1)) = 0"
      using a(4) free_result_mysql [OF a(1), of A] by (simp_all add: Let_def)
    then show ?thesis
      using breaking_increment [of A s "?s1\<lparr>mysql := ?m2\<rparr>" fin it] n more(1)
      by (simp add: error_wrapper_int_def frame_simps)
  next
    case (Fetch_fails r infos xs e)
    then have "breaks A ?m2 fin" "snd (c_mysql_next_result A (mysql ?s1)) = 0"
      using a(4) free_result_mysql [OF a(1), of A] by (simp_all add: Let_def)
    then show ?thesis
      using breaking_increment [of A s "?s1\<lparr>mysql := ?m2\<rparr>" fin it] n more(1)
      by (simp add: error_wrapper_int_def frame_simps)
  qed
qed

lemma walk_all:
  assumes "at_result A s it d ds fin" and "multi_results_enabled A (flags s)"
  shows "\<exists>s' seen. walk_results (mysql_service_ops A) s it acc =
             Some (s', acc @ seen, thrown_end A s' fin) \<and>
           list_all2 seen_as seen (d # ds)"
  using assms
proof (induction ds arbitrary: s it d acc)
  case Nil
  let ?S = "mysql_service_ops A"
  have v: "\<not> it_end it" "seen_as (s, it_result it) d"
    using Nil by (simp_all add: at_result_def)
  have w: "\<exists>s'. walk_results ?S s it acc = Some (s', acc @ [(s, it_result it)], thrown_end A s' fin)"
  proof (cases "fin = Finished")
    case True
    then have "it_increment ?S s it = Some (s, Inr (it\<lparr>it_end := True\<rparr>))"
      using Nil by (simp add: it_increment_def mysql_service_ops_def at_result_def multi_more)
    then show ?thesis
      using v True by (simp add: walk_results.simps [of ?S s] thrown_end_def
          walk_results.simps [of ?S s "it\<lparr>it_end := True\<rparr>"] it_equal_def results_end_def)
  next
    case False
    then show ?thesis
      using broken_increment [OF Nil(1) False Nil(2)] v
      by (auto simp: walk_results.simps [of ?S s] it_equal_def results_end_def)
  qed
  moreover have "list_all2 seen_as [(s, it_result it)] [d]" using v by simp
  ultimately show ?case by blast
next
  case (Cons e ds)
  let ?S = "mysql_service_ops A"
  have a: "impl_inv s" "ms_is_open s" "first_result_stored s"
      "gives_rest A (mysql s) (sp_get (last_result s)) (e # ds) fin" "\<not> it_end it"
      "seen_as (s, it_result it) d"
    using Cons.prems by (simp_all add: at_result_def)
  obtain s1 where n: "ms_next_result A s no_error = (s1, no_error)" "gives A (mysql s1) e"
      "gives_rest A (taken_state A (mysql s1) e) (delivered_handle e) ds fin" "impl_inv s1"
      "last_result s1 = Empty_ptr" "ms_is_open s1" "flags s1 = flags s" "first_result_stored s1"
    using next_result_gives [OF a(4,1,2) Cons.prems(2) a(3)] unfolding ms_is_open_def by metis
  have "svc_has_more_results ?S s"
    using a multi_more [OF a(2) Cons.prems(2) a(3)] by (simp add: mysql_service_ops_def)
  then obtain s2 it2 where i: "it_increment ?S s it = Some (s2, Inr it2)"
      "at_result A s2 it2 e ds fin" "flags s2 = flags s"
    using store_result_reaches [OF n(1,4,6,8,5,2,3) a(5)] n(7) by metis
  obtain s' seen where w:
      "walk_results ?S s2 it2 (acc @ [(s, it_result it)]) =
         Some (s', (acc @ [(s, it_result it)]) @ seen, thrown_end A s' fin)"
      "list_all2 seen_as seen (e # ds)"
    using Cons.IH [OF i(2), of "acc @ [(s, it_result it)]"] Cons.prems(2) i(3) by metis
  have "walk_results ?S s it acc =
      Some (s', acc @ (s, it_result it) # seen, thrown_end A s' fin)"
    using i(1) w(1) a(5) by (simp add: walk_results.simps [of ?S s] it_equal_def results_end_def)
  then show ?case
    using w(2) a(6) by (metis list_all2_Cons2)
qed

text \<open>
  The loop of a user: from \<open>begin\<close>, whose construction may throw already, to the end.
\<close>

definition visit_results ::
  "'s service_ops \<Rightarrow> 's \<Rightarrow> ('s \<times> ('s \<times> result_set) list \<times> (system_error + unit)) option" where
  "visit_results S s =
     (case results_begin S s of
        None \<Rightarrow> None
      | Some (s', r) \<Rightarrow>
          (case r of Inl e \<Rightarrow> Some (s', [], Inl e) | Inr it \<Rightarrow> walk_results S s' it []))"

text \<open>The connection after a query that did not throw.\<close>

lemma queried_state:
  assumes "impl_inv s" and "ms_is_open s"
    and "connector_query (mysql_service_ops A) s stmt = (s1, Inr ())"
  shows "impl_inv s1" and "ms_is_open s1" and "flags s1 = flags s"
    and "\<not> first_result_stored s1" and "last_result s1 = Empty_ptr"
proof -
  have s1: "s1 = fst (ms_query A s stmt no_error)"
    using assms(3) by (simp add: connector_query_def throwing_def mysql_service_ops_def
        split: prod.splits)
  show "impl_inv s1"
    using keepsD(1) [OF keeps_query assms(1)] by (simp add: s1)
  show "ms_is_open s1" and "flags s1 = flags s" and "\<not> first_result_stored s1"
    and "last_result s1 = Empty_ptr"
    using assms(2) unfolding s1
    by (simp_all add: ms_query_def ms_is_open_def frame_simps Let_def split: prod.splits)
qed

section \<open>Properties\<close>

text \<open>
  C1. End to end: after a successful query in a mode with multiple results, the loop over the
  iterator visits exactly the results of the statement, in their order, each once, up to the first
  that cannot be had.  At each visit the result set shows the result the server sent at that
  position: the native handle is live and all rows and descriptions are there; a part of the
  statement without a table shows as an empty result set.  The loop always returns: at the end
  iterator when the library says that there is no more; and if \<open>mysql_next_result\<close>,
  \<open>mysql_store_result\<close> or the fetching of the rows fails, for the first result or a later one, by
  the exception with the code and the text of the library, after the results before it.
\<close>

theorem query_then_iterate:
  fixes A :: "('m, 'a) mysql_api_scheme" and s s1 :: "('m, 'z) implementation_scheme"
  defines "S \<equiv> mysql_service_ops A"
  assumes "impl_inv s" and "ms_is_open s" and "multi_results_enabled A (flags s)"
    and "connector_query S s stmt = (s1, Inr ())" and "gives_all A (mysql s1) ds fin"
  shows "\<exists>s' seen. visit_results S s1 = Some (s', seen, thrown_end A s' fin) \<and>
           list_all2 seen_as seen ds"
proof -
  let ?it = "\<lparr>it_connector = True, it_result = result_set_default, it_end = False\<rparr>"
  note q = queried_state [OF assms(2,3) assms(5) [unfolded S_def]]
  let ?t = "s1\<lparr>first_result_stored := True\<rparr>"
  have n: "ms_next_result A s1 no_error = (?t, no_error)"
    using q by (simp add: ms_next_result_def)
  have more: "ms_has_more_results A s1"
    using q assms(4) by (simp add: ms_has_more_results_def)
  have b: "results_begin S s1 = it_increment S s1 ?it"
    using q(2) by (simp add: results_begin_def S_def mysql_service_ops_def)
  show ?thesis
  proof (cases ds)
    case Nil
    then obtain s' x where "it_increment S s1 ?it = Some (s', Inl x)" "thrown_end A s' fin = Inl x"
      using breaking_increment [OF n _ _ more, of fin ?it] q(5) assms(6) by (auto simp: S_def)
    then show ?thesis using b Nil by (simp add: visit_results_def)
  next
    case (Cons d rest)
    then obtain s2 it where i: "it_increment S s1 ?it = Some (s2, Inr it)"
        "at_result A s2 it d rest fin" "flags s2 = flags s"
      using store_result_reaches [of A s1 ?t d rest fin ?it] n more q assms(6)
      by (auto simp: S_def frame_simps ms_is_open_def mysql_service_ops_def)
    then show ?thesis
      using b walk_all [OF i(2), of "[]"] i(3) assms(4) Cons by (simp add: S_def visit_results_def)
  qed
qed

text \<open>A connection that accepts several statements, and a query of three parts.\<close>

definition sample_multi :: "sample_result list list \<Rightarrow> sample_server implementation" where
  "sample_multi script =
     fst (ms_connect sample_api (sample_connection script) Null_endpoint auth_info_default ''''
            (client_multi_statements sample_api) no_error)"

definition sample_multi_queried :: "sample_server implementation" where
  "sample_multi_queried =
     fst (connector_query (mysql_service_ops sample_api)
            (sample_multi [[Done 1, sample_table, Rows [] []]]) ''CALL p()'')"

text \<open>The same library, but that the connection is lost when the rows of a table run out.\<close>

definition lossy_api :: "sample_server mysql_api" where
  "lossy_api = sample_api
     \<lparr>c_mysql_fetch_row := (\<lambda>s r. case sample_fetch_row s r of
         (s', None) \<Rightarrow> (s'\<lparr>sv_errno := 2013\<rparr>, None) | x \<Rightarrow> x)\<rparr>"

definition lossy_queried :: "sample_server implementation" where
  "lossy_queried =
     fst (connector_query (mysql_service_ops lossy_api)
            (sample_multi [[Done 1, sample_table]]) ''CALL p()'')"

definition refused_queried :: "sample_server implementation" where
  "refused_queried =
     fst (connector_query (mysql_service_ops sample_api)
            (sample_multi [[sample_table, Fail 1064]]) ''SELECT 1; SELEC'')"

text \<open>
  Three results to the end; a part without a table and then rows that are lost; a table and then a
  part that the server refuses.
\<close>

theorem query_then_iterate_witness:
  "(\<exists>s' seen. visit_results (mysql_service_ops sample_api) sample_multi_queried = Some (s', seen, Inr ()) \<and>
      list_all2 seen_as seen
        [No_table, Table 1 [sample_column] [([c_str ''17''], [2]), ([None], [0])], Table 2 [] []]) \<and>
   (\<exists>s' seen t. visit_results (mysql_service_ops lossy_api) lossy_queried =
        Some (s', seen, Inl (System_error (Error_code 2013 Client_category) t)) \<and>
      list_all2 seen_as seen [No_table]) \<and>
   (\<exists>s' seen t. visit_results (mysql_service_ops sample_api) refused_queried =
        Some (s', seen, Inl (System_error (Error_code 1064 Client_category) t)) \<and>
      list_all2 seen_as seen [Table 1 [sample_column] [([c_str ''17''], [2]), ([None], [0])]])"
proof -
  let ?A = sample_api and ?B = lossy_api and ?xs = "[([c_str ''17''], [2]), ([None], [0])]"
  have inv: "impl_inv (sample_multi script)" for script
    unfolding sample_multi_def by (rule keepsD(1) [OF keeps_connect sample_connection_inv])
  have h: "ms_is_open (sample_multi [[Done 1, sample_table, Rows [] []]])"
    "multi_results_enabled ?A (flags (sample_multi [[Done 1, sample_table, Rows [] []]]))"
    "ms_is_open (sample_multi [[Done 1, sample_table]])"
    "multi_results_enabled ?B (flags (sample_multi [[Done 1, sample_table]]))"
    "ms_is_open (sample_multi [[sample_table, Fail 1064]])"
    "multi_results_enabled ?A (flags (sample_multi [[sample_table, Fail 1064]]))"
    by code_simp+
  have "snd (connector_query (mysql_service_ops ?A) (sample_multi [[Done 1, sample_table, Rows [] []]])
      ''CALL p()'') = Inr ()"
    "snd (connector_query (mysql_service_ops ?B) (sample_multi [[Done 1, sample_table]]) ''CALL p()'') =
      Inr ()"
    "snd (connector_query (mysql_service_ops ?A) (sample_multi [[sample_table, Fail 1064]])
      ''SELECT 1; SELEC'') = Inr ()"
    by code_simp+
  then have q: "connector_query (mysql_service_ops ?A) (sample_multi [[Done 1, sample_table, Rows [] []]])
      ''CALL p()'' = (sample_multi_queried, Inr ())"
    "connector_query (mysql_service_ops ?B) (sample_multi [[Done 1, sample_table]]) ''CALL p()'' =
      (lossy_queried, Inr ())"
    "connector_query (mysql_service_ops ?A) (sample_multi [[sample_table, Fail 1064]])
      ''SELECT 1; SELEC'' = (refused_queried, Inr ())"
    by (simp_all add: sample_multi_queried_def lossy_queried_def refused_queried_def prod_eq_iff)
  have g: "gives_all ?A (mysql sample_multi_queried)
      [No_table, Table 1 [sample_column] ?xs, Table 2 [] []] Finished"
    "gives_all ?B (mysql lossy_queried) [No_table] (Fetch_fails 1 [sample_column] ?xs 2013)"
    "gives_all ?A (mysql refused_queried) [Table 1 [sample_column] ?xs] (Next_fails 1064)"
    by code_simp+
  from query_then_iterate [OF inv h(1,2) q(1) g(1)] query_then_iterate [OF inv h(3,4) q(2) g(2)]
    query_then_iterate [OF inv h(5,6) q(3) g(3)]
  show ?thesis by (simp add: thrown_end_def) blast
qed

text \<open>
  Without multiple results the iteration is exact as well: it visits the result of the
  statement once if the statement has columns, and nothing otherwise.
\<close>

theorem single_result_iteration:
  fixes A :: "('m, 'a) mysql_api_scheme" and s s1 :: "('m, 'z) implementation_scheme"
  defines "S \<equiv> mysql_service_ops A"
  assumes "impl_inv s" and "ms_is_open s" and "\<not> multi_results_enabled A (flags s)"
    and "connector_query S s stmt = (s1, Inr ())" and "gives A (mysql s1) d"
  shows "\<exists>s2 it s' seen. results_begin S s1 = Some (s2, Inr it) \<and>
           walk_results S s2 it [] = Some (s', seen, Inr ()) \<and>
           list_all2 seen_as seen (if c_mysql_field_count A (mysql s1) = 0 then [] else [d])"
proof -
  let ?it = "\<lparr>it_connector = True, it_result = result_set_default, it_end = False\<rparr>"
  note q = queried_state [OF assms(2,3) assms(5) [unfolded S_def]]
  have b: "results_begin S s1 = it_increment S s1 ?it"
    using q(2) by (simp add: results_begin_def S_def mysql_service_ops_def)
  have more: "svc_has_more_results S s1 = (c_mysql_field_count A (mysql s1) \<noteq> 0)"
    using q assms(4) by (simp add: S_def mysql_service_ops_def ms_has_more_results_def
        mysql_field_count_def)
  show ?thesis
  proof (cases "c_mysql_field_count A (mysql s1) = 0")
    case True
    then show ?thesis
      using b more by (simp add: it_increment_def walk_results.simps it_equal_def
          results_end_def)
  next
    case False
    let ?t = "s1\<lparr>first_result_stored := True\<rparr>"
    have "gives A (mysql ?t) d" and "last_result ?t = Empty_ptr" and "impl_inv ?t"
      using assms(6) q by (simp_all add: frame_simps)
    then obtain s2 rs ec' where t: "ms_take_result A ?t no_error = Some (s2, rs, ec')"
        "\<not> failed ec'" "seen_as (s2, rs) d" "flags s2 = flags s1" "first_result_stored s2"
      by (rule take_result_gives [where ec = no_error]) (rule that; simp)
    then have "it_increment S s1 ?it = Some (s2, Inr (?it\<lparr>it_result := rs\<rparr>))"
      using more False q by (simp add: it_increment_def connector_store_result_def S_def
          mysql_service_ops_def ms_store_result_def ms_next_result_def throw_error_def)
    moreover have "\<not> svc_has_more_results S s2"
      using t q assms(4) by (simp add: S_def mysql_service_ops_def ms_has_more_results_def)
    ultimately show ?thesis
      using b False t(3)
      by (auto simp: walk_results.simps [of S s2] it_increment_def it_equal_def results_end_def)
  qed
qed

theorem single_result_iteration_witness:
  "\<exists>s2 it s' seen.
     results_begin (mysql_service_ops sample_api)
       (fst (connector_query (mysql_service_ops sample_api) (sample_connection [[sample_table]])
               ''SELECT'')) = Some (s2, Inr it) \<and>
     walk_results (mysql_service_ops sample_api) s2 it [] = Some (s', seen, Inr ()) \<and>
     list_all2 seen_as seen [Table 1 [sample_column] [([c_str ''17''], [2]), ([None], [0])]]"
proof -
  let ?s = "sample_connection [[sample_table]]"
  let ?q = "connector_query (mysql_service_ops sample_api) ?s ''SELECT''"
  have 1: "ms_is_open ?s" by code_simp
  have 2: "\<not> multi_results_enabled sample_api (flags ?s)" by code_simp
  have "snd ?q = Inr ()" by code_simp
  then have 3: "?q = (fst ?q, Inr ())" by (simp add: prod_eq_iff)
  have 4: "gives sample_api (mysql (fst ?q))
      (Table 1 [sample_column] [([c_str ''17''], [2]), ([None], [0])])"
    by code_simp
  have 5: "c_mysql_field_count sample_api (mysql (fst ?q)) \<noteq> 0" by code_simp
  from single_result_iteration [OF sample_connection_inv 1 2 3 4] 5 show ?thesis by simp
qed

end
