(* ===== verification/Library_Init.thy ===== *)
theory Library_Init
  imports Errors Shared_Ptr
begin

text \<open>
  The initialisation of the client library, \<open>include/amy/detail/mysql_lib_init.hpp\<close>.  Each
  service has a member \<open>mysql_lib_init\<close>, which shares one object \<open>do_init\<close> with a function-local
  static of \<open>do_init::instance\<close>; the constructor of \<open>do_init\<close> initialises the library and its
  destructor ends it.

  \<open>do_init\<close> is its member \<open>result_\<close>.  What \<open>mysql_library_init\<close> returns is the parameter \<open>rc\<close>;
  \<open>lib_calls\<close> records the calls of the library.
\<close>

datatype lib_call = Library_init | Library_end

record lib_state = cpp_heap +
  static_init :: "i32 shared_ptr option"
  exited :: bool
  users :: "i32 shared_ptr list"
  lib_calls :: "lib_call list"

definition lib_start :: lib_state where
  "lib_start = \<lparr>next_block = 0, use_count = \<lambda>_. 0, static_init = None, exited = False, users = [],
                lib_calls = []\<rparr>"

fun sp_copy :: "'a shared_ptr \<Rightarrow> 'z cpp_heap_scheme \<Rightarrow> 'z cpp_heap_scheme" where
  "sp_copy Empty_ptr h = h"
| "sp_copy (Shared b p) h = h\<lparr>use_count := (use_count h)(b := Suc (use_count h b))\<rparr>"

text \<open>\<open>new do_init()\<close>, owned by the static, on the first call only.\<close>

definition lib_static :: "i32 \<Rightarrow> lib_state \<Rightarrow> i32 shared_ptr \<times> lib_state" where
  "lib_static rc s =
     (case static_init s of
        Some p \<Rightarrow> (p, s)
      | None \<Rightarrow>
          let (p, s1) = sp_make (Some rc) (s\<lparr>lib_calls := lib_calls s @ [Library_init]\<rparr>)
          in (p, s1\<lparr>static_init := Some p\<rparr>))"

definition lib_instance ::
  "i32 \<Rightarrow> lib_state \<Rightarrow> lib_state \<times> (error_code \<times> string + i32 shared_ptr)" where
  "lib_instance rc s =
     (let (p, s1) = lib_static rc s
      in case sp_get p of
           Some r \<Rightarrow>
             if 0 \<noteq> r then (s1, Inl (Error_code r System_category, ''mysql_library_init()''))
             else (sp_copy p s1, Inr p)
         | None \<Rightarrow> (sp_copy p s1, Inr p))"

text \<open>The constructor of \<open>mysql_lib_init\<close>; when it throws there is no object.\<close>

definition lib_construct :: "i32 \<Rightarrow> lib_state \<Rightarrow> lib_state" where
  "lib_construct rc s =
     (case lib_instance rc s of
        (s1, Inl e) \<Rightarrow> s1
      | (s1, Inr p) \<Rightarrow> s1\<lparr>users := users s1 @ [p]\<rparr>)"

text \<open>Giving up a reference; the last one runs \<open>~do_init\<close>.\<close>

definition lib_release :: "i32 shared_ptr \<Rightarrow> lib_state \<Rightarrow> lib_state" where
  "lib_release p s =
     (case sp_release p s of
        (s1, Some _) \<Rightarrow> s1\<lparr>lib_calls := lib_calls s1 @ [Library_end]\<rparr>
      | (s1, None) \<Rightarrow> s1)"

text \<open>At the end of the program the static is destroyed, if it has been constructed.\<close>

definition lib_exit :: "lib_state \<Rightarrow> lib_state" where
  "lib_exit s =
     (case static_init s of
        Some p \<Rightarrow> (lib_release p s)\<lparr>exited := True\<rparr>
      | None \<Rightarrow> s\<lparr>exited := True\<rparr>)"

text \<open>
  Objects come and go in any order; after the static is gone none may be constructed.
\<close>

inductive lib_run :: "i32 \<Rightarrow> lib_state \<Rightarrow> bool" for rc where
  lib_run_start: "lib_run rc lib_start"
| lib_run_construct: "lib_run rc s \<Longrightarrow> \<not> exited s \<Longrightarrow> lib_run rc (lib_construct rc s)"
| lib_run_destroy:
    "lib_run rc s \<Longrightarrow> users s = ps @ p # qs \<Longrightarrow>
     lib_run rc (lib_release p (s\<lparr>users := ps @ qs\<rparr>))"
| lib_run_exit: "lib_run rc s \<Longrightarrow> \<not> exited s \<Longrightarrow> lib_run rc (lib_exit s)"

section \<open>The invariant\<close>

text \<open>
  The owners of the shared object are the users and, until the program ends, the static.
\<close>

definition lib_owners :: "lib_state \<Rightarrow> nat" where
  "lib_owners s = length (users s) + (if exited s then 0 else 1)"

definition lib_inv :: "i32 \<Rightarrow> lib_state \<Rightarrow> bool" where
  "lib_inv rc s \<longleftrightarrow>
     (case static_init s of
        None \<Rightarrow> users s = [] \<and> lib_calls s = []
      | Some p \<Rightarrow>
          (\<exists>b. p = Shared b (Some rc) \<and> set (users s) \<subseteq> {p} \<and> (rc \<noteq> 0 \<longrightarrow> users s = []) \<and>
               use_count s b = lib_owners s \<and>
               lib_calls s =
                 (if lib_owners s = 0 then [Library_init, Library_end] else [Library_init])))"

lemma lib_inv_construct:
  assumes "lib_inv rc s" and "\<not> exited s"
  shows "lib_inv rc (lib_construct rc s)"
  using assms
  by (cases "static_init s"; cases "rc = 0")
     (auto simp: lib_inv_def lib_construct_def lib_instance_def lib_static_def lib_owners_def
       sp_make_def)

lemma lib_inv_release:
  assumes "lib_inv rc s" and "users s = ps @ p # qs"
  shows "lib_inv rc (lib_release p (s\<lparr>users := ps @ qs\<rparr>))"
  using assms
  by (cases "static_init s")
     (auto simp: lib_inv_def lib_release_def lib_owners_def split: if_splits)

lemma lib_inv_exit:
  assumes "lib_inv rc s" and "\<not> exited s"
  shows "lib_inv rc (lib_exit s)"
  using assms
  by (cases "static_init s")
     (auto simp: lib_inv_def lib_exit_def lib_release_def lib_owners_def split: if_splits)

lemma lib_run_inv: "lib_run rc s \<Longrightarrow> lib_inv rc s"
proof (induction rule: lib_run.induct)
  case lib_run_start
  then show ?case by (simp add: lib_inv_def lib_start_def)
qed (auto intro: lib_inv_construct lib_inv_release lib_inv_exit)

text \<open>
  C38. The client library is initialised at most once and ended at most once, after every
  service is gone: while a service lives the library is initialised and not ended, and when
  the program has ended and the last service is destroyed it has been ended.  When the
  initialisation fails no service is ever constructed.
\<close>

theorem library_initialised_once:
  assumes "lib_run rc s"
  shows "lib_calls s \<in> {[], [Library_init], [Library_init, Library_end]} \<and>
         (users s \<noteq> [] \<longrightarrow> lib_calls s = [Library_init] \<and> rc = 0) \<and>
         (exited s \<and> users s = [] \<longrightarrow> lib_calls s \<noteq> [Library_init])"
  using lib_run_inv [OF assms]
  by (cases "static_init s") (auto simp: lib_inv_def lib_owners_def split: if_splits)

theorem library_initialised_once_witness:
  "lib_calls (lib_construct 0 (lib_construct 0 lib_start)) = [Library_init]"
proof -
  have "\<not> exited lib_start" "\<not> exited (lib_construct 0 lib_start)" by code_simp+
  then have "lib_run 0 (lib_construct 0 (lib_construct 0 lib_start))"
    by (intro lib_run_construct lib_run_start)
  moreover have "users (lib_construct 0 (lib_construct 0 lib_start)) \<noteq> []" by code_simp
  ultimately show ?thesis using library_initialised_once by blast
qed

end
