(* ===== verification/Mariadb_Ops.thy ===== *)
theory Mariadb_Ops
  imports Sample_Library
begin

text \<open>
  The non-blocking routines of the MariaDB client library and the layer around them,
  \<open>include/amy/detail/mariadb_ops.hpp\<close>.

  A routine \<open>f_start\<close> takes the address of the variable for its result; the variable goes in
  and comes out as an argument of its own.  The last component returned is the status: zero
  when the operation is complete, else the bitmask of the events it waits for, with which
  \<open>f_cont\<close> has to be called.
\<close>

record 'm mariadb_api = "'m mysql_api" +
  bad_descriptor_value :: i32
  c_mysql_get_socket :: "'m \<Rightarrow> i32"
  c_mysql_get_timeout_value_ms :: "'m \<Rightarrow> u32"
  c_mysql_real_connect_start ::
    "bool \<Rightarrow> 'm \<Rightarrow> char_ptr \<Rightarrow> char_ptr \<Rightarrow> char_ptr \<Rightarrow> char_ptr \<Rightarrow> u32 \<Rightarrow> char_ptr \<Rightarrow> u64 \<Rightarrow>
       'm \<times> bool \<times> i32"
  c_mysql_real_connect_cont :: "bool \<Rightarrow> 'm \<Rightarrow> i32 \<Rightarrow> 'm \<times> bool \<times> i32"
  c_mysql_real_query_start :: "i32 \<Rightarrow> 'm \<Rightarrow> char_ptr \<Rightarrow> u64 \<Rightarrow> 'm \<times> i32 \<times> i32"
  c_mysql_real_query_cont :: "i32 \<Rightarrow> 'm \<Rightarrow> i32 \<Rightarrow> 'm \<times> i32 \<times> i32"
  c_mysql_store_result_start :: "res_ptr option \<Rightarrow> 'm \<Rightarrow> 'm \<times> res_ptr option \<times> i32"
  c_mysql_store_result_cont :: "res_ptr option \<Rightarrow> 'm \<Rightarrow> i32 \<Rightarrow> 'm \<times> res_ptr option \<times> i32"
  c_mysql_next_result_start :: "i32 \<Rightarrow> 'm \<Rightarrow> 'm \<times> i32 \<times> i32"
  c_mysql_next_result_cont :: "i32 \<Rightarrow> 'm \<Rightarrow> i32 \<Rightarrow> 'm \<times> i32 \<times> i32"
  c_mysql_fetch_row_start :: "mysql_row option \<Rightarrow> 'm \<Rightarrow> res_ptr \<Rightarrow> 'm \<times> mysql_row option \<times> i32"
  c_mysql_fetch_row_cont ::
    "mysql_row option \<Rightarrow> 'm \<Rightarrow> res_ptr \<Rightarrow> i32 \<Rightarrow> 'm \<times> mysql_row option \<times> i32"

text \<open>
  \<open>bad_descriptor_value\<close> is the value of Asio's error for a descriptor that is not open.
  As in \<open>Client_Lib\<close>, a \<open>MYSQL*\<close> result is null or not, a \<open>bool\<close>.
\<close>

section \<open>Wait events\<close>

definition wait_finish :: i32 where
  "wait_finish = 0"

definition read_or_write :: "'h mysql_headers_scheme \<Rightarrow> i32" where
  "read_or_write H = MYSQL_WAIT_READ H OR MYSQL_WAIT_WRITE H"

definition has_event :: "i32 \<Rightarrow> i32 \<Rightarrow> bool" where
  "has_event status e \<longleftrightarrow> status AND e \<noteq> 0"

section \<open>Starting and continuing\<close>

text \<open>
  The templates \<open>mysql_start\<close> and \<open>mysql_continue\<close>; \<open>call\<close> is what \<open>f\<close> returned, and
  \<open>wrap\<close> the overload of \<open>error_wrapper\<close> for the type of its result.  The source tests
  \<open>status | wait_type::except\<close>, with the bitwise disjunction.
\<close>

definition mysql_start ::
  "'h mysql_headers_scheme \<Rightarrow> ('r \<Rightarrow> 'm \<Rightarrow> error_code \<Rightarrow> error_code) \<Rightarrow> 'm \<times> 'r \<times> i32 \<Rightarrow>
     error_code \<Rightarrow> 'm \<times> 'r \<times> i32 \<times> error_code" where
  "mysql_start H wrap call ec =
     (let ec0 = clear_error ec; (m', r, status) = call
      in (m', r, status,
          if status = wait_finish then wrap r m' ec0
          else if status OR MYSQL_WAIT_EXCEPT H \<noteq> 0 then wrap r m' (misc_error_code Unknown_misc)
          else ec0))"

definition mysql_continue ::
  "'h mysql_headers_scheme \<Rightarrow> ('r \<Rightarrow> 'm \<Rightarrow> error_code \<Rightarrow> error_code) \<Rightarrow> 'm \<times> 'r \<times> i32 \<Rightarrow>
     error_code \<Rightarrow> 'm \<times> 'r \<times> i32 \<times> error_code" where
  "mysql_continue H wrap call ec =
     (let ec0 = clear_error ec; (m', r, status2) = call
      in (m', r, status2,
          if status2 = wait_finish then wrap r m' ec0
          else if status2 OR MYSQL_WAIT_EXCEPT H \<noteq> 0 then wrap r m' (misc_error_code Unknown_misc)
          else ec0))"

definition wrap_handle ::
  "('m, 'a) mysql_api_scheme \<Rightarrow> bool \<Rightarrow> 'm \<Rightarrow> error_code \<Rightarrow> error_code" where
  "wrap_handle A r m ec = error_wrapper_ptr A (\<not> r) m ec"

definition wrap_result ::
  "('m, 'a) mysql_api_scheme \<Rightarrow> res_ptr option \<Rightarrow> 'm \<Rightarrow> error_code \<Rightarrow> error_code" where
  "wrap_result A r m ec = error_wrapper_ptr A (r = None) m ec"

definition mysql_real_connect_start ::
  "('m, 'a) mariadb_api_scheme \<Rightarrow> bool \<Rightarrow> 'm \<Rightarrow> char_ptr \<Rightarrow> char_ptr \<Rightarrow> char_ptr \<Rightarrow> char_ptr \<Rightarrow> u32 \<Rightarrow>
     char_ptr \<Rightarrow> u64 \<Rightarrow> error_code \<Rightarrow> 'm \<times> bool \<times> i32 \<times> error_code" where
  "mysql_real_connect_start A r m host user password database port unix_socket client_flag ec =
     mysql_start A (wrap_handle A)
       (c_mysql_real_connect_start A r m host user password database port unix_socket client_flag)
       ec"

definition mysql_real_connect_cont ::
  "('m, 'a) mariadb_api_scheme \<Rightarrow> bool \<Rightarrow> 'm \<Rightarrow> i32 \<Rightarrow> error_code \<Rightarrow> 'm \<times> bool \<times> i32 \<times> error_code"
where
  "mysql_real_connect_cont A r m status ec =
     mysql_continue A (wrap_handle A) (c_mysql_real_connect_cont A r m status) ec"

definition mysql_real_query_start ::
  "('m, 'a) mariadb_api_scheme \<Rightarrow> i32 \<Rightarrow> 'm \<Rightarrow> char_ptr \<Rightarrow> u64 \<Rightarrow> error_code \<Rightarrow>
     'm \<times> i32 \<times> i32 \<times> error_code" where
  "mysql_real_query_start A r m stmt_str len ec =
     mysql_start A (error_wrapper_int A) (c_mysql_real_query_start A r m stmt_str len) ec"

definition mysql_real_query_cont ::
  "('m, 'a) mariadb_api_scheme \<Rightarrow> i32 \<Rightarrow> 'm \<Rightarrow> i32 \<Rightarrow> error_code \<Rightarrow> 'm \<times> i32 \<times> i32 \<times> error_code"
where
  "mysql_real_query_cont A r m status ec =
     mysql_continue A (error_wrapper_int A) (c_mysql_real_query_cont A r m status) ec"

definition mysql_store_result_start ::
  "('m, 'a) mariadb_api_scheme \<Rightarrow> res_ptr option \<Rightarrow> 'm \<Rightarrow> error_code \<Rightarrow>
     'm \<times> res_ptr option \<times> i32 \<times> error_code" where
  "mysql_store_result_start A r m ec =
     mysql_start A (wrap_result A) (c_mysql_store_result_start A r m) ec"

definition mysql_store_result_cont ::
  "('m, 'a) mariadb_api_scheme \<Rightarrow> res_ptr option \<Rightarrow> 'm \<Rightarrow> i32 \<Rightarrow> error_code \<Rightarrow>
     'm \<times> res_ptr option \<times> i32 \<times> error_code" where
  "mysql_store_result_cont A r m status ec =
     mysql_continue A (wrap_result A) (c_mysql_store_result_cont A r m status) ec"

definition mysql_next_result_start ::
  "('m, 'a) mariadb_api_scheme \<Rightarrow> i32 \<Rightarrow> 'm \<Rightarrow> error_code \<Rightarrow> 'm \<times> i32 \<times> i32 \<times> error_code" where
  "mysql_next_result_start A r m ec =
     mysql_start A (error_wrapper_int A) (c_mysql_next_result_start A r m) ec"

definition mysql_next_result_cont ::
  "('m, 'a) mariadb_api_scheme \<Rightarrow> i32 \<Rightarrow> 'm \<Rightarrow> i32 \<Rightarrow> error_code \<Rightarrow> 'm \<times> i32 \<times> i32 \<times> error_code"
where
  "mysql_next_result_cont A r m status ec =
     mysql_continue A (error_wrapper_int A) (c_mysql_next_result_cont A r m status) ec"

text \<open>The two wrappers for rows repeat the body of the templates.\<close>

definition mysql_fetch_row_start ::
  "('m, 'a) mariadb_api_scheme \<Rightarrow> mysql_row option \<Rightarrow> 'm \<Rightarrow> res_ptr \<Rightarrow> error_code \<Rightarrow>
     'm \<times> mysql_row option \<times> i32 \<times> error_code" where
  "mysql_fetch_row_start A ret m rs ec =
     (let ec0 = clear_error ec; (m', r, status) = c_mysql_fetch_row_start A ret m rs
      in (m', r, status,
          if status = 0 then error_wrapper_ptr A (r = None) m' ec0
          else if status OR MYSQL_WAIT_EXCEPT A \<noteq> 0
          then error_wrapper_ptr A (r = None) m' (misc_error_code Unknown_misc) else ec0))"

definition mysql_fetch_row_cont ::
  "('m, 'a) mariadb_api_scheme \<Rightarrow> mysql_row option \<Rightarrow> 'm \<Rightarrow> res_ptr \<Rightarrow> i32 \<Rightarrow> error_code \<Rightarrow>
     'm \<times> mysql_row option \<times> i32 \<times> error_code" where
  "mysql_fetch_row_cont A ret m rs status ec =
     (let ec0 = clear_error ec; (m', r, status2) = c_mysql_fetch_row_cont A ret m rs status
      in (m', r, status2,
          if status2 = 0 then error_wrapper_ptr A (r = None) m' ec0
          else if status2 OR MYSQL_WAIT_EXCEPT A \<noteq> 0
          then error_wrapper_ptr A (r = None) m' (misc_error_code Unknown_misc) else ec0))"

lemmas nb_op_defs =
  mysql_real_connect_start_def mysql_real_connect_cont_def mysql_real_query_start_def
  mysql_real_query_cont_def mysql_store_result_start_def mysql_store_result_cont_def
  mysql_next_result_start_def mysql_next_result_cont_def

section \<open>Transactions\<close>

text \<open>
  The wrappers for transactions, which no service calls.  Their result is a \<open>my_bool\<close>, for which
  \<open>error_wrapper\<close> is declared but not defined: the function that would have to be linked is the
  parameter \<open>wrap\<close>.
\<close>

record 'm mariadb_transaction_api = "'m mariadb_api" +
  c_mysql_autocommit_start :: "bool \<Rightarrow> 'm \<Rightarrow> bool \<Rightarrow> 'm \<times> bool \<times> i32"
  c_mysql_autocommit_cont :: "bool \<Rightarrow> 'm \<Rightarrow> i32 \<Rightarrow> 'm \<times> bool \<times> i32"
  c_mysql_commit_start :: "bool \<Rightarrow> 'm \<Rightarrow> 'm \<times> bool \<times> i32"
  c_mysql_commit_cont :: "bool \<Rightarrow> 'm \<Rightarrow> i32 \<Rightarrow> 'm \<times> bool \<times> i32"
  c_mysql_rollback_start :: "bool \<Rightarrow> 'm \<Rightarrow> 'm \<times> bool \<times> i32"
  c_mysql_rollback_cont :: "bool \<Rightarrow> 'm \<Rightarrow> i32 \<Rightarrow> 'm \<times> bool \<times> i32"

definition mysql_autocommit_start ::
  "('m, 'a) mariadb_transaction_api_scheme \<Rightarrow> (bool \<Rightarrow> 'm \<Rightarrow> error_code \<Rightarrow> error_code) \<Rightarrow> bool \<Rightarrow>
     'm \<Rightarrow> bool \<Rightarrow> error_code \<Rightarrow> 'm \<times> bool \<times> i32 \<times> error_code" where
  "mysql_autocommit_start A wrap r m mode ec =
     mysql_start A wrap (c_mysql_autocommit_start A r m mode) ec"

definition mysql_autocommit_cont ::
  "('m, 'a) mariadb_transaction_api_scheme \<Rightarrow> (bool \<Rightarrow> 'm \<Rightarrow> error_code \<Rightarrow> error_code) \<Rightarrow> bool \<Rightarrow>
     'm \<Rightarrow> i32 \<Rightarrow> error_code \<Rightarrow> 'm \<times> bool \<times> i32 \<times> error_code" where
  "mysql_autocommit_cont A wrap r m status ec =
     mysql_continue A wrap (c_mysql_autocommit_cont A r m status) ec"

definition mysql_commit_start ::
  "('m, 'a) mariadb_transaction_api_scheme \<Rightarrow> (bool \<Rightarrow> 'm \<Rightarrow> error_code \<Rightarrow> error_code) \<Rightarrow> bool \<Rightarrow>
     'm \<Rightarrow> error_code \<Rightarrow> 'm \<times> bool \<times> i32 \<times> error_code" where
  "mysql_commit_start A wrap r m ec = mysql_start A wrap (c_mysql_commit_start A r m) ec"

definition mysql_commit_cont ::
  "('m, 'a) mariadb_transaction_api_scheme \<Rightarrow> (bool \<Rightarrow> 'm \<Rightarrow> error_code \<Rightarrow> error_code) \<Rightarrow> bool \<Rightarrow>
     'm \<Rightarrow> i32 \<Rightarrow> error_code \<Rightarrow> 'm \<times> bool \<times> i32 \<times> error_code" where
  "mysql_commit_cont A wrap r m status ec =
     mysql_continue A wrap (c_mysql_commit_cont A r m status) ec"

definition mysql_rollback_start ::
  "('m, 'a) mariadb_transaction_api_scheme \<Rightarrow> (bool \<Rightarrow> 'm \<Rightarrow> error_code \<Rightarrow> error_code) \<Rightarrow> bool \<Rightarrow>
     'm \<Rightarrow> error_code \<Rightarrow> 'm \<times> bool \<times> i32 \<times> error_code" where
  "mysql_rollback_start A wrap r m ec = mysql_start A wrap (c_mysql_rollback_start A r m) ec"

definition mysql_rollback_cont ::
  "('m, 'a) mariadb_transaction_api_scheme \<Rightarrow> (bool \<Rightarrow> 'm \<Rightarrow> error_code \<Rightarrow> error_code) \<Rightarrow> bool \<Rightarrow>
     'm \<Rightarrow> i32 \<Rightarrow> error_code \<Rightarrow> 'm \<times> bool \<times> i32 \<times> error_code" where
  "mysql_rollback_cont A wrap r m status ec =
     mysql_continue A wrap (c_mysql_rollback_cont A r m status) ec"

section \<open>The error code of a call that waits\<close>

lemma status_or_except:
  fixes status e :: i32
  shows "status \<noteq> 0 \<Longrightarrow> status OR e \<noteq> 0"
  by (simp add: or_eq_0_iff)

text \<open>
  The disjunction is never zero, so both templates have two cases.  A call that waits
  replaces the code by \<open>unknown\<close>; a wrapper that finds the result variable untouched, null
  or \<open>-1\<close>, replaces it once more by the error of the handle.
\<close>

lemma mysql_start_cases:
  "mysql_start H wrap (m, r, status) ec =
     (m, r, status, wrap r m (if status = 0 then no_error else misc_error_code Unknown_misc))"
  by (simp add: mysql_start_def clear_error_def wait_finish_def status_or_except)

lemma mysql_continue_cases:
  "mysql_continue H wrap (m, r, status) ec =
     (m, r, status, wrap r m (if status = 0 then no_error else misc_error_code Unknown_misc))"
  by (simp add: mysql_continue_def clear_error_def wait_finish_def status_or_except)

text \<open>
  So what a transaction call reports while it waits is up to the missing function: it starts
  from \<open>unknown\<close>, whatever the call is for.
\<close>

lemma transaction_wait_code:
  assumes "c_mysql_commit_start A r m = (m1, r1, st)" and "st \<noteq> 0"
    and "c_mysql_commit_cont A r m e = (m2, r2, st2)" and "st2 \<noteq> 0"
  shows "mysql_commit_start A wrap r m ec = (m1, r1, st, wrap r1 m1 (misc_error_code Unknown_misc))"
    and "mysql_commit_cont A wrap r m e ec = (m2, r2, st2, wrap r2 m2 (misc_error_code Unknown_misc))"
  using assms
  by (simp_all add: mysql_commit_start_def mysql_commit_cont_def mysql_start_cases
      mysql_continue_cases)

section \<open>An instance\<close>

text \<open>
  The scripted library of \<open>Sample_Library\<close> with waits: a query waits until it can write and
  then until it can read, the other calls wait once.  The status tells how far a call is, and
  the blocking routine does the work at the end.
\<close>

definition wait_once :: "i32 \<Rightarrow> ('m \<Rightarrow> 'm \<times> 'r) \<Rightarrow> 'm \<Rightarrow> 'm \<times> 'r \<times> i32" where
  "wait_once e f m = (case f m of (m', r) \<Rightarrow> (m', r, 0))"

definition sample_mariadb :: "sample_server mariadb_api" where
  "sample_mariadb = mysql_api.extend sample_api
     (mariadb_api.fields 9 (\<lambda>m. 5) (\<lambda>m. 1000)
        (\<lambda>r m host user password database port unix_socket fl. (m, r, 10))
        (\<lambda>r m e. wait_once e (\<lambda>m. (sample_call ''connect'' m, True)) m)
        (\<lambda>r m stmt len. (m, r, 2))
        (\<lambda>r m e. if e = 2 then (m, r, 1) else wait_once e sample_query m)
        (\<lambda>r m. (m, r, 1)) (\<lambda>r m e. wait_once e sample_store m)
        (\<lambda>r m. (m, r, 1))
        (\<lambda>r m e. wait_once e (\<lambda>m. sample_arrive (sv_more m) (sample_call ''next'' m)) m)
        (\<lambda>r m q. wait_once 0 (\<lambda>m. sample_fetch_row m q) m)
        (\<lambda>r m q e. wait_once e (\<lambda>m. sample_fetch_row m q) m))"

end
