(* ===== verification/Mariadb_Service.thy ===== *)
theory Mariadb_Service
  imports Async_Service Connector Mariadb_Ops
begin

text \<open>
  The service for MariaDB (\<open>mariadb_service.hpp\<close>, \<open>impl/mariadb_service.ipp\<close>): its
  connection, its blocking operations and its composed asynchronous operations.

  There is no work thread.  An asynchronous operation is an object with a state machine; a
  step of it calls a \<open>_start\<close> or \<open>_cont\<close> routine of the library and, if that has to wait,
  registers the object with the descriptor or the timer of the connection.
\<close>

section \<open>Composed operations\<close>

text \<open>
  The structs \<open>state\<close> of the four handler classes, with the user's callback.  The step is a
  number in the first two and one of the enumerators in the others.
\<close>

record 'k connect_op =
  co_callback :: 'k
  co_step :: nat
  co_token :: "unit weak_ptr"
  co_endpoint :: endpoint
  co_auth :: auth_info
  co_database :: string
  co_flags :: u64
  co_result :: bool

record 'k query_op =
  qo_callback :: 'k
  qo_step :: nat
  qo_token :: "unit weak_ptr"
  qo_stmt :: string
  qo_result :: i32

datatype store_step =
  Store_entry | Store_cont_store | Store_error | Store_store_start | Store_cont_next
| Store_wait_next

record 'k store_op =
  so_callback :: 'k
  so_step :: store_step
  so_token :: "unit weak_ptr"
  so_next_result :: i32
  so_result :: "res_ptr option"

datatype query_step =
  Query_entry | Query_error | Query_store_start | Query_cont_store | Query_wait_query
| Query_cont_query

record 'k query_result_op =
  ro_callback :: 'k
  ro_step :: query_step
  ro_token :: "unit weak_ptr"
  ro_stmt :: string
  ro_query_result :: i32
  ro_result :: "res_ptr option"

datatype 'k composed_op =
  Connect_op "'k connect_op"
| Query_op "'k query_op"
| Store_op "'k store_op"
| Query_result_op "'k query_result_op"

fun op_callback :: "'k composed_op \<Rightarrow> 'k" where
  "op_callback (Connect_op p) = co_callback p"
| "op_callback (Query_op p) = qo_callback p"
| "op_callback (Store_op p) = so_callback p"
| "op_callback (Query_result_op p) = ro_callback p"

fun op_token :: "'k composed_op \<Rightarrow> unit weak_ptr" where
  "op_token (Connect_op p) = co_token p"
| "op_token (Query_op p) = qo_token p"
| "op_token (Store_op p) = so_token p"
| "op_token (Query_result_op p) = ro_token p"

section \<open>The connection and the io_service\<close>

text \<open>
  \<open>ev_fd\<close> is the native handle of \<open>*ev_\<close>, \<open>-1\<close> when none is assigned; \<open>timer_set\<close> says
  that \<open>timer_\<close> is not null.  The other members are what Asio holds for this connection: the
  operations that wait, those that are ready to run with the arguments bound for them, the
  callbacks that were posted, and those that have been invoked.
\<close>

datatype wait_source = Wait_read | Wait_write | Wait_timer u32

record 'k ready_op =
  rdy_code :: error_code
  rdy_status :: i32
  rdy_op :: "'k composed_op"

record ('m, 'k) mariadb_connection = "'m implementation" +
  ev_fd :: i32
  timer_set :: bool
  waits :: "(wait_source \<times> 'k composed_op) list"
  ready :: "'k ready_op list"
  posted :: "'k completion list"
  invoked :: "'k completion list"

type_synonym ('m, 'k, 'z) connection = "('m, 'k, 'z) mariadb_connection_scheme"

fun on_timer :: "wait_source \<times> 'k composed_op \<Rightarrow> bool" where
  "on_timer (Wait_timer _, _) \<longleftrightarrow> True"
| "on_timer (_, _) \<longleftrightarrow> False"

text \<open>The bit of the event that is bound to the operation when it is registered.\<close>

fun event_bit :: "'h mysql_headers_scheme \<Rightarrow> wait_source \<Rightarrow> i32" where
  "event_bit H Wait_read = MYSQL_WAIT_READ H"
| "event_bit H Wait_write = MYSQL_WAIT_WRITE H"
| "event_bit H (Wait_timer _) = MYSQL_WAIT_TIMEOUT H"

definition resume_with ::
  "'h mysql_headers_scheme \<Rightarrow> error_code \<Rightarrow> wait_source \<times> 'k composed_op \<Rightarrow> 'k ready_op" where
  "resume_with H ec w = \<lparr>rdy_code = ec, rdy_status = event_bit H (fst w), rdy_op = snd w\<rparr>"

text \<open>
  Cancelling a descriptor or a timer makes the operations that wait on it ready with
  \<open>operation_aborted\<close>; releasing a descriptor cancels it and leaves it closed.
\<close>

definition cancel_waits ::
  "'h mysql_headers_scheme \<Rightarrow> (wait_source \<times> 'k composed_op \<Rightarrow> bool) \<Rightarrow>
     ('m, 'k, 'z) connection \<Rightarrow> ('m, 'k, 'z) connection" where
  "cancel_waits H P s =
     s\<lparr>waits := filter (\<lambda>w. \<not> P w) (waits s),
       ready := ready s @ map (resume_with H (operation_aborted H)) (filter P (waits s))\<rparr>"

definition ev_cancel ::
  "'h mysql_headers_scheme \<Rightarrow> ('m, 'k, 'z) connection \<Rightarrow> ('m, 'k, 'z) connection" where
  "ev_cancel H s = cancel_waits H (\<lambda>w. \<not> on_timer w) s"

definition ev_release ::
  "'h mysql_headers_scheme \<Rightarrow> ('m, 'k, 'z) connection \<Rightarrow> ('m, 'k, 'z) connection" where
  "ev_release H s = (ev_cancel H s)\<lparr>ev_fd := - 1\<rparr>"

definition timer_cancel ::
  "'h mysql_headers_scheme \<Rightarrow> ('m, 'k, 'z) connection \<Rightarrow> ('m, 'k, 'z) connection" where
  "timer_cancel H s = cancel_waits H on_timer s"

text \<open>Waiting on a descriptor that is not open completes at once with an error.\<close>

definition ev_async_wait ::
  "('m, 'a) mariadb_api_scheme \<Rightarrow> wait_source \<Rightarrow> 'k composed_op \<Rightarrow> ('m, 'k, 'z) connection \<Rightarrow>
     ('m, 'k, 'z) connection" where
  "ev_async_wait A src p s =
     (if ev_fd s = - 1
      then s\<lparr>ready := ready s @
               [resume_with A (Error_code (bad_descriptor_value A) System_category) (src, p)]\<rparr>
      else s\<lparr>waits := waits s @ [(src, p)]\<rparr>)"

definition timer_async_wait ::
  "u32 \<Rightarrow> 'k composed_op \<Rightarrow> ('m, 'k, 'z) connection \<Rightarrow> ('m, 'k, 'z) connection" where
  "timer_async_wait ms p s = s\<lparr>waits := waits s @ [(Wait_timer ms, p)]\<rparr>"

text \<open>
  \<open>async_wait_mysql\<close> first points the descriptor to the socket of the library, if the status
  asks for one, and then cancels whatever waits on the timer or the descriptor.
\<close>

definition assign_socket ::
  "('m, 'a) mariadb_api_scheme \<Rightarrow> i32 \<Rightarrow> ('m, 'k, 'z) connection \<Rightarrow> ('m, 'k, 'z) connection" where
  "assign_socket A status s =
     (if has_event status (read_or_write A) \<and> ev_fd s \<noteq> c_mysql_get_socket A (mysql s)
      then (ev_release A s)\<lparr>ev_fd := c_mysql_get_socket A (mysql s)\<rparr> else s)"

text \<open>
  \<open>assign\<close> throws when there is no socket: Asio cannot register the descriptor \<open>-1\<close>.  It has been
  released then, and the exception leaves the handler, which destroys the operation and its callback.
\<close>

definition assign_throws ::
  "('m, 'a) mariadb_api_scheme \<Rightarrow> i32 \<Rightarrow> ('m, 'k, 'z) connection \<Rightarrow> bool" where
  "assign_throws A status s \<longleftrightarrow>
     has_event status (read_or_write A) \<and> ev_fd s \<noteq> c_mysql_get_socket A (mysql s) \<and>
     c_mysql_get_socket A (mysql s) = - 1"

definition stop_waits ::
  "'h mysql_headers_scheme \<Rightarrow> ('m, 'k, 'z) connection \<Rightarrow> ('m, 'k, 'z) connection" where
  "stop_waits H s =
     (let s1 = (if timer_set s then timer_cancel H s else s)
      in if ev_fd s1 \<noteq> - 1 then ev_cancel H s1 else s1)"

text \<open>
  Unless that throws it registers the operation for one of the events only; when the status has none of
  the three bits it registers nothing, and the operation is destroyed with its callback.
\<close>

definition async_wait_mysql ::
  "('m, 'a) mariadb_api_scheme \<Rightarrow> i32 \<Rightarrow> 'k composed_op \<Rightarrow> ('m, 'k, 'z) connection \<Rightarrow>
     ('m, 'k, 'z) connection" where
  "async_wait_mysql A status p s =
     (if assign_throws A status s then ev_release A s
      else let s1 = stop_waits A (assign_socket A status s)
           in if has_event status (MYSQL_WAIT_READ A) then ev_async_wait A Wait_read p s1
              else if has_event status (MYSQL_WAIT_WRITE A) then ev_async_wait A Wait_write p s1
              else if has_event status (MYSQL_WAIT_TIMEOUT A)
              then let s2 = (if \<not> timer_set s1 then s1\<lparr>timer_set := True\<rparr> else s1)
                   in timer_async_wait (c_mysql_get_timeout_value_ms A (mysql s2)) p
                        (timer_cancel A s2)
              else s1)"

text \<open>
  \<open>handler_ptr::invoke\<close> calls the callback at once; \<open>post_callback\<close> is \<open>asio::post\<close> of the
  bound callback.
\<close>

definition invoke_callback ::
  "'k completion \<Rightarrow> ('m, 'k, 'z) connection \<Rightarrow> ('m, 'k, 'z) connection" where
  "invoke_callback c s = s\<lparr>invoked := invoked s @ [c]\<rparr>"

definition post_callback ::
  "'k completion \<Rightarrow> ('m, 'k, 'z) connection \<Rightarrow> ('m, 'k, 'z) connection" where
  "post_callback c s = s\<lparr>posted := posted s @ [c]\<rparr>"

section \<open>The blocking operations\<close>

text \<open>
  The service has its own copy of each blocking operation.  Its deleter of results, its
  \<open>free_result\<close> and its \<open>cancel\<close> turn out to be those of \<open>mysql_service\<close>, which the other
  definitions use.
\<close>

definition mdb_result_set_deleter ::
  "('m, 'a) mysql_api_scheme \<Rightarrow> res_ptr option \<Rightarrow> ('m, 'z) implementation_scheme \<Rightarrow>
     ('m, 'z) implementation_scheme" where
  "mdb_result_set_deleter A p s =
     (case p of None \<Rightarrow> s | Some r \<Rightarrow> s\<lparr>mysql := c_mysql_free_result A (mysql s) r\<rparr>)"

definition mdb_implementation_free_result ::
  "('m, 'a) mysql_api_scheme \<Rightarrow> ('m, 'z) implementation_scheme \<Rightarrow>
     ('m, 'z) implementation_scheme" where
  "mdb_implementation_free_result A s =
     (let (s1, dropped) = sp_release (last_result s) s
      in mdb_result_set_deleter A dropped (s1\<lparr>last_result := Empty_ptr\<rparr>))"

definition mdb_implementation_cancel ::
  "('m, 'z) implementation_scheme \<Rightarrow> ('m, 'z) implementation_scheme" where
  "mdb_implementation_cancel s =
     (let (ct, s1) = sp_make None s;
          (s2, dropped) = sp_release (cancelation_token s1) s1
      in s2\<lparr>cancelation_token := ct\<rparr>)"

lemma mdb_members_same:
  "mdb_result_set_deleter = result_set_deleter"
  "mdb_implementation_free_result = free_result"
  "mdb_implementation_cancel = cancel"
  by (intro ext; simp add: mdb_result_set_deleter_def mdb_implementation_free_result_def
      mdb_implementation_cancel_def result_set_deleter_def free_result_def cancel_def)+

text \<open>
  The constructor leaves the descriptor and the timer null; \<open>construct\<close> makes them, the descriptor
  without a handle.  \<open>new_connection\<close> is an implementation after both.
\<close>

definition mdb_construct :: "('m, 'k, 'z) connection \<Rightarrow> ('m, 'k, 'z) connection" where
  "mdb_construct s = s\<lparr>ev_fd := - 1, timer_set := True\<rparr>"

definition mdb_new_implementation :: "'m \<Rightarrow> cpp_heap \<Rightarrow> ('m, 'k) mariadb_connection" where
  "mdb_new_implementation m h =
     (let (lr, h1) = sp_make None h; (ct, h2) = sp_make None h1
      in \<lparr>next_block = next_block h2, use_count = use_count h2,
          mysql = m, flags = default_flags, initialized = False, first_result_stored = False,
          last_result = lr, cancelation_token = ct,
          ev_fd = - 1, timer_set = False, waits = [], ready = [], posted = [], invoked = []\<rparr>)"

definition new_connection :: "'m \<Rightarrow> cpp_heap \<Rightarrow> ('m, 'k) mariadb_connection" where
  "new_connection m h = mdb_construct (mdb_new_implementation m h)"

lemmas new_connection_defs = new_connection_def mdb_construct_def mdb_new_implementation_def

definition mdb_close_implementation ::
  "('m, 'a) mariadb_api_scheme \<Rightarrow> ('m, 'k, 'z) connection \<Rightarrow> ('m, 'k, 'z) connection" where
  "mdb_close_implementation A s =
     (let s1 = (if initialized s
                then s\<lparr>mysql := c_mysql_close A (mysql s), initialized := False\<rparr> else s);
          s2 = ev_release A s1;
          s3 = (if timer_set s2 then timer_cancel A s2 else s2)
      in cancel (free_result A (s3\<lparr>first_result_stored := False\<rparr>)))"

definition mdb_is_open :: "('m, 'k, 'z) connection \<Rightarrow> bool" where
  "mdb_is_open s \<longleftrightarrow> initialized s"

definition mdb_error_message ::
  "('m, 'a) mysql_api_scheme \<Rightarrow> (i32 \<Rightarrow> string) \<Rightarrow> ('m, 'k, 'z) connection \<Rightarrow> error_code \<Rightarrow>
     string option" where
  "mdb_error_message A sys s ec =
     (if c_mysql_errno A (mysql s) = ec_value ec then Some (c_mysql_error A (mysql s))
      else ec_message A sys ec)"

definition mdb_open ::
  "('m, 'a) mysql_api_scheme \<Rightarrow> ('m, 'k, 'z) connection \<Rightarrow> error_code \<Rightarrow>
     ('m, 'k, 'z) connection \<times> error_code" where
  "mdb_open A s ec =
     (let ec0 = clear_error ec
      in if \<not> mdb_is_open s
         then let (m, ok, ec1) = mysql_init A (mysql s) ec0
              in (s\<lparr>mysql := m, initialized := ok\<rparr>, ec1)
         else (s, ec0))"

definition mdb_close ::
  "('m, 'a) mariadb_api_scheme \<Rightarrow> ('m, 'k, 'z) connection \<Rightarrow> ('m, 'k, 'z) connection" where
  "mdb_close A s = (if mdb_is_open s then mdb_close_implementation A s else s)"

definition mdb_destroy ::
  "('m, 'a) mariadb_api_scheme \<Rightarrow> ('m, 'k, 'z) connection \<Rightarrow> ('m, 'k, 'z) connection" where
  "mdb_destroy A s = mdb_close A s"

definition mdb_cancel :: "('m, 'k, 'z) connection \<Rightarrow> ('m, 'k, 'z) connection" where
  "mdb_cancel s = cancel s"

definition mdb_set_option ::
  "('m, 'a) mysql_api_scheme \<Rightarrow> ('m, 'k, 'z) connection \<Rightarrow> mysql_option \<Rightarrow> error_code \<Rightarrow>
     ('m, 'k, 'z) connection \<times> error_code" where
  "mdb_set_option A s opt ec =
     (if \<not> mdb_is_open s then (s, misc_error_code Not_initialized)
      else let (m, ec1) =
             mysql_options A (mysql s) (option_number opt) (option_data opt) ec
           in (s\<lparr>mysql := m\<rparr>, ec1))"

definition mdb_connect ::
  "('m, 'a) mysql_api_scheme \<Rightarrow> ('m, 'k, 'z) connection \<Rightarrow> endpoint \<Rightarrow> auth_info \<Rightarrow> string \<Rightarrow>
     u64 \<Rightarrow> error_code \<Rightarrow> ('m, 'k, 'z) connection \<times> error_code" where
  "mdb_connect A s ep auth database client_flag ec =
     (let (s1, ec1, stop) =
            (if \<not> mdb_is_open s then let (s', ec') = mdb_open A s ec in (s', ec', failed ec')
             else (s, ec, False))
      in if stop then (s1, ec1)
         else let (m, _, ec2) =
                mysql_real_connect A (mysql s1) (ep_host ep) (user auth) (password auth)
                  (c_str database) (ep_port ep) (ep_unix_socket ep) client_flag ec1
              in (s1\<lparr>mysql := m, flags := client_flag\<rparr>, ec2))"

definition mdb_query ::
  "('m, 'a) mysql_api_scheme \<Rightarrow> ('m, 'k, 'z) connection \<Rightarrow> string \<Rightarrow> error_code \<Rightarrow>
     ('m, 'k, 'z) connection \<times> error_code" where
  "mdb_query A s stmt ec =
     (if \<not> mdb_is_open s then (s, misc_error_code Not_initialized)
      else let s1 = (free_result A s)\<lparr>first_result_stored := False\<rparr>;
               (m, _, ec1) =
                 mysql_real_query A (mysql s1) (c_str stmt) (of_nat (length stmt)) ec
           in (s1\<lparr>mysql := m\<rparr>, ec1))"

definition mdb_has_more_results ::
  "('m, 'a) mysql_api_scheme \<Rightarrow> ('m, 'k, 'z) connection \<Rightarrow> bool" where
  "mdb_has_more_results A s \<longleftrightarrow>
     (if \<not> mdb_is_open s then False
      else if multi_results_enabled A (flags s)
           then \<not> first_result_stored s \<or> mysql_more_results A (mysql s)
           else \<not> first_result_stored s \<and> mysql_field_count A (mysql s) \<noteq> 0)"

definition mdb_store_result ::
  "('m, 'a) mysql_api_scheme \<Rightarrow> ('m, 'k, 'z) connection \<Rightarrow> error_code \<Rightarrow>
     (('m, 'k, 'z) connection \<times> result_set \<times> error_code) option" where
  "mdb_store_result A s ec =
     (let (s1, ec1) =
            (if first_result_stored s
             then let t = free_result A s
                  in if \<not> mdb_has_more_results A t then (t, misc_error_code No_more_results)
                     else let (m, _, ec') = mysql_next_result A (mysql t) ec
                          in (t\<lparr>mysql := m\<rparr>, ec')
             else (s\<lparr>first_result_stored := True\<rparr>, ec))
      in if failed ec1 then Some (s1, empty_set, ec1)
         else let (m, r, ec2) = mysql_store_result A (mysql s1) ec1;
                  s2 = reset_last_result A r (s1\<lparr>mysql := m\<rparr>)
              in case result_set_assign A (mysql s2) result_set_default (last_result s2) ec2 of
                   None \<Rightarrow> None
                 | Some (m', rs, ec3) \<Rightarrow> Some (s2\<lparr>mysql := m'\<rparr>, rs, ec3))"

definition mdb_autocommit ::
  "('m, 'a) mysql_api_scheme \<Rightarrow> ('m, 'k, 'z) connection \<Rightarrow> bool \<Rightarrow> error_code \<Rightarrow>
     ('m, 'k, 'z) connection \<times> error_code" where
  "mdb_autocommit A s mode ec =
     (let (m, ec1) = mysql_autocommit A (mysql s) mode ec in (s\<lparr>mysql := m\<rparr>, ec1))"

definition mdb_commit ::
  "('m, 'a) mysql_api_scheme \<Rightarrow> ('m, 'k, 'z) connection \<Rightarrow> error_code \<Rightarrow>
     ('m, 'k, 'z) connection \<times> error_code" where
  "mdb_commit A s ec =
     (if \<not> mdb_is_open s then (s, misc_error_code Not_initialized)
      else let (m, ec1) = mysql_commit A (mysql s) ec in (s\<lparr>mysql := m\<rparr>, ec1))"

definition mdb_rollback ::
  "('m, 'a) mysql_api_scheme \<Rightarrow> ('m, 'k, 'z) connection \<Rightarrow> error_code \<Rightarrow>
     ('m, 'k, 'z) connection \<times> error_code" where
  "mdb_rollback A s ec =
     (if \<not> mdb_is_open s then (s, misc_error_code Not_initialized)
      else let (m, ec1) = mysql_rollback A (mysql s) ec in (s\<lparr>mysql := m\<rparr>, ec1))"

definition mdb_affected_rows ::
  "('m, 'a) mysql_api_scheme \<Rightarrow> ('m, 'k, 'z) connection \<Rightarrow> u64" where
  "mdb_affected_rows A s = c_mysql_affected_rows A (mysql s)"

definition mariadb_service_ops ::
  "('m, 'a) mariadb_api_scheme \<Rightarrow> ('m, 'k, 'z) connection service_ops" where
  "mariadb_service_ops A =
     \<lparr>svc_mysql_error = (\<lambda>s. c_mysql_error A (mysql s)),
      svc_open = mdb_open A, svc_is_open = mdb_is_open, svc_close = mdb_close A,
      svc_set_option = mdb_set_option A, svc_cancel = mdb_cancel, svc_connect = mdb_connect A,
      svc_query = mdb_query A, svc_has_more_results = mdb_has_more_results A,
      svc_store_result = mdb_store_result A, svc_autocommit = mdb_autocommit A,
      svc_commit = mdb_commit A, svc_rollback = mdb_rollback A,
      svc_affected_rows = mdb_affected_rows A\<rparr>"

section \<open>The blocking operations are those of the other service\<close>

lemma mdb_same_simple:
  "mdb_is_open = ms_is_open" "mdb_error_message = ms_error_message" "mdb_open = ms_open"
  "mdb_cancel = ms_cancel" "mdb_connect = ms_connect" "mdb_query = ms_query"
  "mdb_has_more_results = ms_has_more_results" "mdb_autocommit = ms_autocommit"
  "mdb_commit = ms_commit" "mdb_rollback = ms_rollback" "mdb_affected_rows = ms_affected_rows"
  by (intro ext; simp add: mdb_is_open_def ms_is_open_def mdb_error_message_def
      ms_error_message_def mdb_open_def ms_open_def mdb_cancel_def ms_cancel_def mdb_connect_def
      ms_connect_def mdb_query_def ms_query_def mdb_has_more_results_def ms_has_more_results_def
      mdb_autocommit_def ms_autocommit_def mdb_commit_def ms_commit_def mdb_rollback_def
      ms_rollback_def mdb_affected_rows_def ms_affected_rows_def)+

lemma mdb_store_result_same: "mdb_store_result = ms_store_result"
  unfolding mdb_store_result_def ms_store_result_def ms_next_result_def ms_take_result_def
    mdb_same_simple
  by (rule refl)

lemmas mdb_same = mdb_same_simple mdb_store_result_same

interpretation mariadb_guarded: guarded_service "mariadb_service_ops A" for A
  by unfold_locales
     (auto simp: mariadb_service_ops_def mdb_same ms_query_def ms_commit_def ms_rollback_def
       ms_has_more_results_def ms_autocommit_def ms_is_open_def Let_def frame_simps
       split: prod.splits)

end
