(* ===== verification/Mariadb_Async.thy ===== *)
theory Mariadb_Async
  imports Mariadb_Service
begin

text \<open>
  The composed operations of \<open>mariadb_service\<close>: the four handler classes of
  \<open>impl/mariadb_service.ipp\<close>, the operations that start them, and the steps of a connection
  on which they run.

  Each handler definition is the body of \<open>operator()\<close> with the error code and the status it
  is called with.  A handler that fetches a result set has the result \<open>None\<close> where
  \<open>result_set_assign\<close> has.
\<close>

section \<open>Connecting and querying\<close>

definition abort_if_expired ::
  "'h mysql_headers_scheme \<Rightarrow> unit weak_ptr \<Rightarrow> 'z cpp_heap_scheme \<Rightarrow> error_code \<Rightarrow> error_code" where
  "abort_if_expired H token h ec = (if expired token h then operation_aborted H else ec)"

text \<open>The end of the two simple handlers: wait, or invoke the callback.\<close>

definition connect_wait ::
  "('m, 'a) mariadb_api_scheme \<Rightarrow> ('m, 'k, 'z) connection \<Rightarrow> 'k connect_op \<Rightarrow> error_code \<Rightarrow> i32 \<Rightarrow>
     ('m, 'k, 'z) connection" where
  "connect_wait A s p ec status =
     (let p1 = p\<lparr>co_step := 1\<rparr>
      in if status = wait_finish \<or> failed ec
         then invoke_callback (Completion (co_callback p1) ec None) s
         else async_wait_mysql A status (Connect_op p1) s)"

definition connect_handler ::
  "('m, 'a) mariadb_api_scheme \<Rightarrow> ('m, 'k, 'z) connection \<Rightarrow> 'k connect_op \<Rightarrow> error_code \<Rightarrow> i32 \<Rightarrow>
     ('m, 'k, 'z) connection" where
  "connect_handler A s p ec status =
     (let ec0 = abort_if_expired A (co_token p) s ec; ep = co_endpoint p
      in if failed ec0 then invoke_callback (Completion (co_callback p) ec0 None) s
         else if co_step p = 0
         then let (m, r, status1, ec1) =
                mysql_real_connect_start A (co_result p) (mysql s) (ep_host ep)
                  (user (co_auth p)) (password (co_auth p)) (c_str (co_database p)) (ep_port ep)
                  (ep_unix_socket ep) (co_flags p) ec0
              in connect_wait A (s\<lparr>mysql := m, flags := co_flags p\<rparr>) (p\<lparr>co_result := r\<rparr>) ec1
                   status1
         else if co_step p = 1
         then let (m, r, status1, ec1) =
                mysql_real_connect_cont A (co_result p) (mysql s) status ec0
              in connect_wait A (s\<lparr>mysql := m\<rparr>) (p\<lparr>co_result := r\<rparr>) ec1 status1
         else invoke_callback (Completion (co_callback p) ec0 None) s)"

definition query_wait ::
  "('m, 'a) mariadb_api_scheme \<Rightarrow> ('m, 'k, 'z) connection \<Rightarrow> 'k query_op \<Rightarrow> error_code \<Rightarrow> i32 \<Rightarrow>
     ('m, 'k, 'z) connection" where
  "query_wait A s p ec status =
     (let p1 = p\<lparr>qo_step := 1\<rparr>
      in if status = wait_finish \<or> failed ec
         then invoke_callback (Completion (qo_callback p1) ec None) s
         else async_wait_mysql A status (Query_op p1) s)"

definition query_handler ::
  "('m, 'a) mariadb_api_scheme \<Rightarrow> ('m, 'k, 'z) connection \<Rightarrow> 'k query_op \<Rightarrow> error_code \<Rightarrow> i32 \<Rightarrow>
     ('m, 'k, 'z) connection" where
  "query_handler A s p ec status =
     (let ec0 = abort_if_expired A (qo_token p) s ec
      in if failed ec0 then invoke_callback (Completion (qo_callback p) ec0 None) s
         else if qo_step p = 0
         then let s1 = (free_result A s)\<lparr>first_result_stored := False\<rparr>;
                  (m, r, status1, ec1) =
                    mysql_real_query_start A (qo_result p) (mysql s1) (c_str (qo_stmt p))
                      (of_nat (length (qo_stmt p))) ec0
              in query_wait A (s1\<lparr>mysql := m\<rparr>) (p\<lparr>qo_result := r\<rparr>) ec1 status1
         else if qo_step p = 1
         then let (m, r, status1, ec1) =
                mysql_real_query_cont A (qo_result p) (mysql s) status ec0
              in query_wait A (s\<lparr>mysql := m\<rparr>) (p\<lparr>qo_result := r\<rparr>) ec1 status1
         else invoke_callback (Completion (qo_callback p) ec0 None) s)"

section \<open>Storing a result\<close>

text \<open>
  One pass through the loop ends with \<open>continue\<close>, with a wait (\<open>return\<close>), with \<open>break\<close> out
  of the switch, or with a failed assertion.
\<close>

datatype ('s, 'p) pass =
    Again 's 'p error_code i32
  | Waiting 's
  | Break 's 'p error_code
  | Assert_failed

text \<open>The three pieces of the switch of \<open>store_result_handler\<close>, each falling into the next.\<close>

definition store_cont ::
  "('m, 'a) mariadb_api_scheme \<Rightarrow> ('m, 'k, 'z) connection \<Rightarrow> 'k store_op \<Rightarrow> error_code \<Rightarrow> i32 \<Rightarrow>
     (('m, 'k, 'z) connection, 'k store_op) pass" where
  "store_cont A s p ec status =
     (let (s1, p1, ec1, status1) =
        (if so_step p = Store_store_start then (s, p\<lparr>so_step := Store_cont_store\<rparr>, ec, status)
         else if so_step p = Store_cont_store
         then let (m, r, st, e) = mysql_store_result_cont A (so_result p) (mysql s) status ec
              in (s\<lparr>mysql := m\<rparr>, p\<lparr>so_result := r\<rparr>, e, st)
         else if so_step p = Store_cont_next
         then let (m, r, st, e) = mysql_next_result_cont A (so_next_result p) (mysql s) status ec
              in (s\<lparr>mysql := m\<rparr>, p\<lparr>so_next_result := r\<rparr>, e, st)
         else if so_step p = Store_wait_next
         then (s, p\<lparr>so_step := Store_cont_next\<rparr>, ec, status)
         else (s, p, ec, status))
      in if failed ec1 then Break s1 p1 ec1
         else if status1 = wait_finish
         then if so_step p1 = Store_cont_next
              then Again s1 (p1\<lparr>so_step := Store_store_start\<rparr>) ec1 status1
              else if so_step p1 = Store_cont_store then Break s1 p1 ec1
              else Assert_failed
         else Waiting (async_wait_mysql A status1 (Store_op p1) s1))"

definition store_start ::
  "('m, 'a) mariadb_api_scheme \<Rightarrow> ('m, 'k, 'z) connection \<Rightarrow> 'k store_op \<Rightarrow> error_code \<Rightarrow> i32 \<Rightarrow>
     (('m, 'k, 'z) connection, 'k store_op) pass" where
  "store_start A s p ec status =
     (let p1 = p\<lparr>so_step := Store_store_start\<rparr>; s1 = free_result A s;
          (m, r, status1, ec1) = mysql_store_result_start A (so_result p1) (mysql s1) ec;
          s2 = s1\<lparr>mysql := m\<rparr>; p2 = p1\<lparr>so_result := r\<rparr>
      in if failed ec1 \<or> status1 = wait_finish then Break s2 p2 ec1
         else store_cont A s2 p2 ec1 status1)"

definition store_entry ::
  "('m, 'a) mariadb_api_scheme \<Rightarrow> ('m, 'k, 'z) connection \<Rightarrow> 'k store_op \<Rightarrow> error_code \<Rightarrow> i32 \<Rightarrow>
     (('m, 'k, 'z) connection, 'k store_op) pass" where
  "store_entry A s p ec status =
     (if first_result_stored s
      then let s1 = free_result A s
           in if \<not> mdb_has_more_results A s1
              then Break s1 p (misc_error_code No_more_results)
              else let (m, r, status1, ec1) =
                         mysql_next_result_start A (so_next_result p) (mysql s1) ec;
                       s2 = s1\<lparr>mysql := m\<rparr>; p2 = p\<lparr>so_next_result := r\<rparr>
                   in if failed ec1 then Break s2 p2 ec1
                      else if status1 \<noteq> wait_finish
                      then Again s2 (p2\<lparr>so_step := Store_wait_next\<rparr>) ec1 status1
                      else store_start A s2 p2 ec1 status1
      else store_start A (s\<lparr>first_result_stored := True\<rparr>) p ec status)"

definition store_pass ::
  "('m, 'a) mariadb_api_scheme \<Rightarrow> ('m, 'k, 'z) connection \<Rightarrow> 'k store_op \<Rightarrow> error_code \<Rightarrow> i32 \<Rightarrow>
     (('m, 'k, 'z) connection, 'k store_op) pass" where
  "store_pass A s p ec status =
     (let ec0 = abort_if_expired A (so_token p) s ec
      in case (if failed ec0 then Store_error else so_step p) of
           Store_entry \<Rightarrow> store_entry A s p ec0 status
         | Store_store_start \<Rightarrow> store_start A s p ec0 status
         | Store_wait_next \<Rightarrow> store_cont A s p ec0 status
         | Store_cont_next \<Rightarrow> store_cont A s p ec0 status
         | Store_cont_store \<Rightarrow> store_cont A s p ec0 status
         | Store_error \<Rightarrow> Break s p ec0)"

text \<open>What follows the switch, in both handlers that fetch a result.\<close>

definition finish_with_result ::
  "('m, 'a) mysql_api_scheme \<Rightarrow> ('m, 'k, 'z) connection \<Rightarrow> 'k \<Rightarrow> res_ptr option \<Rightarrow> error_code \<Rightarrow>
     ('m, 'k, 'z) connection option" where
  "finish_with_result A s k r ec =
     (if \<not> failed ec
      then let s1 = reset_last_result A r s
           in case result_set_assign A (mysql s1) result_set_default (last_result s1) ec of
                None \<Rightarrow> None
              | Some (m, rs, ec1) \<Rightarrow>
                  Some (invoke_callback (Completion k ec1 (Some rs)) (s1\<lparr>mysql := m\<rparr>))
      else Some (invoke_callback (Completion k ec (Some empty_set)) s))"

text \<open>
  The loop.  A pass that continues moves the step towards \<open>Store_cont_store\<close>, so that the
  loop ends.
\<close>

fun store_rank :: "store_step \<Rightarrow> nat" where
  "store_rank Store_entry = 2"
| "store_rank Store_wait_next = 1"
| "store_rank Store_cont_next = 1"
| "store_rank Store_store_start = 0"
| "store_rank Store_cont_store = 0"
| "store_rank Store_error = 0"

lemma store_cont_again:
  "store_cont A s p ec status = Again s' p' ec' status' \<Longrightarrow>
   so_step p' = Store_store_start \<and> so_step p \<in> {Store_wait_next, Store_cont_next}"
  by (auto simp: store_cont_def Let_def split: prod.splits if_splits)

lemma store_start_again: "store_start A s p ec status \<noteq> Again s' p' ec' status'"
  by (auto simp: store_start_def Let_def dest!: store_cont_again split: prod.splits if_splits)

lemma store_pass_again:
  assumes "store_pass A s p ec status = Again s' p' ec' status'"
  shows "store_rank (so_step p') < store_rank (so_step p)"
  using assms
  by (auto simp: store_pass_def store_entry_def Let_def store_start_again dest!: store_cont_again
      split: prod.splits if_splits store_step.splits)

function store_result_handler ::
  "('m, 'a) mariadb_api_scheme \<Rightarrow> ('m, 'k, 'z) connection \<Rightarrow> 'k store_op \<Rightarrow> error_code \<Rightarrow> i32 \<Rightarrow>
     ('m, 'k, 'z) connection option" where
  "store_result_handler A s p ec status =
     (case store_pass A s p ec status of
        Again s' p' ec' status' \<Rightarrow> store_result_handler A s' p' ec' status'
      | Waiting s' \<Rightarrow> Some s'
      | Break s' p' ec' \<Rightarrow> finish_with_result A s' (so_callback p') (so_result p') ec'
      | Assert_failed \<Rightarrow> None)"
  by pat_completeness auto
termination
  by (relation "measure (\<lambda>(A, s, p, ec, status). store_rank (so_step p))")
     (auto dest: store_pass_again)

declare store_result_handler.simps [simp del]

section \<open>Querying and storing\<close>

definition qr_cont ::
  "('m, 'a) mariadb_api_scheme \<Rightarrow> ('m, 'k, 'z) connection \<Rightarrow> 'k query_result_op \<Rightarrow> error_code \<Rightarrow>
     i32 \<Rightarrow> (('m, 'k, 'z) connection, 'k query_result_op) pass" where
  "qr_cont A s p ec status =
     (let (s1, p1, ec1, status1) =
        (if ro_step p = Query_wait_query
         then (s, p\<lparr>ro_step := Query_cont_query\<rparr>, ec, status)
         else if ro_step p = Query_cont_query
         then let (m, r, st, e) =
                mysql_real_query_cont A (ro_query_result p) (mysql s) status ec
              in (s\<lparr>mysql := m\<rparr>, p\<lparr>ro_query_result := r\<rparr>, e, st)
         else if ro_step p = Query_store_start
         then (s, p\<lparr>ro_step := Query_cont_store\<rparr>, ec, status)
         else if ro_step p = Query_cont_store
         then let (m, r, st, e) = mysql_store_result_cont A (ro_result p) (mysql s) status ec
              in (s\<lparr>mysql := m\<rparr>, p\<lparr>ro_result := r\<rparr>, e, st)
         else (s, p, ec, status))
      in if failed ec1 then Break s1 p1 ec1
         else if status1 = wait_finish
         then if ro_step p1 = Query_cont_query
              then Again s1 (p1\<lparr>ro_step := Query_store_start\<rparr>) ec1 status1
              else if ro_step p1 = Query_cont_store then Break s1 p1 ec1
              else Assert_failed
         else Waiting (async_wait_mysql A status1 (Query_result_op p1) s1))"

definition qr_store_start ::
  "('m, 'a) mariadb_api_scheme \<Rightarrow> ('m, 'k, 'z) connection \<Rightarrow> 'k query_result_op \<Rightarrow> error_code \<Rightarrow>
     i32 \<Rightarrow> (('m, 'k, 'z) connection, 'k query_result_op) pass" where
  "qr_store_start A s p ec status =
     (let s1 = (free_result A s)\<lparr>first_result_stored := True\<rparr>;
          (m, r, status1, ec1) = mysql_store_result_start A (ro_result p) (mysql s1) ec;
          s2 = s1\<lparr>mysql := m\<rparr>; p2 = p\<lparr>ro_result := r\<rparr>
      in if failed ec1 \<or> status1 = wait_finish then Break s2 p2 ec1
         else qr_cont A s2 p2 ec1 status1)"

definition qr_entry ::
  "('m, 'a) mariadb_api_scheme \<Rightarrow> ('m, 'k, 'z) connection \<Rightarrow> 'k query_result_op \<Rightarrow> error_code \<Rightarrow>
     i32 \<Rightarrow> (('m, 'k, 'z) connection, 'k query_result_op) pass" where
  "qr_entry A s p ec status =
     (let s1 = (free_result A s)\<lparr>first_result_stored := False\<rparr>;
          (m, r, status1, ec1) =
            mysql_real_query_start A (ro_query_result p) (mysql s1) (c_str (ro_stmt p))
              (of_nat (length (ro_stmt p))) ec;
          s2 = s1\<lparr>mysql := m\<rparr>; p2 = p\<lparr>ro_query_result := r\<rparr>
      in if failed ec1 then Break s2 p2 ec1
         else if status1 \<noteq> wait_finish
         then Again s2 (p2\<lparr>ro_step := Query_wait_query\<rparr>) ec1 status1
         else qr_store_start A s2 (p2\<lparr>ro_step := Query_store_start\<rparr>) ec1 status1)"

definition qr_pass ::
  "('m, 'a) mariadb_api_scheme \<Rightarrow> ('m, 'k, 'z) connection \<Rightarrow> 'k query_result_op \<Rightarrow> error_code \<Rightarrow>
     i32 \<Rightarrow> (('m, 'k, 'z) connection, 'k query_result_op) pass" where
  "qr_pass A s p ec status =
     (let ec0 = abort_if_expired A (ro_token p) s ec
      in case (if failed ec0 then Query_error else ro_step p) of
           Query_entry \<Rightarrow> qr_entry A s p ec0 status
         | Query_store_start \<Rightarrow> qr_store_start A s p ec0 status
         | Query_wait_query \<Rightarrow> qr_cont A s p ec0 status
         | Query_cont_query \<Rightarrow> qr_cont A s p ec0 status
         | Query_cont_store \<Rightarrow> qr_cont A s p ec0 status
         | Query_error \<Rightarrow> Break s p ec0)"

fun query_rank :: "query_step \<Rightarrow> nat" where
  "query_rank Query_entry = 2"
| "query_rank Query_wait_query = 1"
| "query_rank Query_cont_query = 1"
| "query_rank Query_store_start = 0"
| "query_rank Query_cont_store = 0"
| "query_rank Query_error = 0"

lemma qr_cont_again:
  "qr_cont A s p ec status = Again s' p' ec' status' \<Longrightarrow>
   ro_step p' = Query_store_start \<and> ro_step p \<in> {Query_wait_query, Query_cont_query}"
  by (auto simp: qr_cont_def Let_def split: prod.splits if_splits)

lemma qr_store_start_again:
  "qr_store_start A s p ec status = Again s' p' ec' status' \<Longrightarrow>
   ro_step p' = Query_store_start \<and> ro_step p \<in> {Query_wait_query, Query_cont_query}"
  by (auto simp: qr_store_start_def Let_def dest!: qr_cont_again split: prod.splits if_splits)

lemma qr_pass_again:
  assumes "qr_pass A s p ec status = Again s' p' ec' status'"
  shows "query_rank (ro_step p') < query_rank (ro_step p)"
  using assms
  by (auto simp: qr_pass_def qr_entry_def Let_def dest!: qr_cont_again qr_store_start_again
      split: prod.splits if_splits query_step.splits)

function query_result_handler ::
  "('m, 'a) mariadb_api_scheme \<Rightarrow> ('m, 'k, 'z) connection \<Rightarrow> 'k query_result_op \<Rightarrow> error_code \<Rightarrow>
     i32 \<Rightarrow> ('m, 'k, 'z) connection option" where
  "query_result_handler A s p ec status =
     (case qr_pass A s p ec status of
        Again s' p' ec' status' \<Rightarrow> query_result_handler A s' p' ec' status'
      | Waiting s' \<Rightarrow> Some s'
      | Break s' p' ec' \<Rightarrow> finish_with_result A s' (ro_callback p') (ro_result p') ec'
      | Assert_failed \<Rightarrow> None)"
  by pat_completeness auto
termination
  by (relation "measure (\<lambda>(A, s, p, ec, status). query_rank (ro_step p))")
     (auto dest: qr_pass_again)

declare query_result_handler.simps [simp del]

section \<open>Running and starting an operation\<close>

fun run_op ::
  "('m, 'a) mariadb_api_scheme \<Rightarrow> ('m, 'k, 'z) connection \<Rightarrow> 'k composed_op \<Rightarrow> error_code \<Rightarrow> i32 \<Rightarrow>
     ('m, 'k, 'z) connection option" where
  "run_op A s (Connect_op p) ec status = Some (connect_handler A s p ec status)"
| "run_op A s (Query_op p) ec status = Some (query_handler A s p ec status)"
| "run_op A s (Store_op p) ec status = store_result_handler A s p ec status"
| "run_op A s (Query_result_op p) ec status = query_result_handler A s p ec status"

text \<open>The constructors of the handlers: the state of an operation that has not run.\<close>

definition new_connect_op ::
  "('m, 'k, 'z) connection \<Rightarrow> 'k \<Rightarrow> endpoint \<Rightarrow> auth_info \<Rightarrow> string \<Rightarrow> u64 \<Rightarrow> 'k connect_op" where
  "new_connect_op s k ep auth database fl =
     \<lparr>co_callback = k, co_step = 0, co_token = wp_of (cancelation_token s), co_endpoint = ep,
      co_auth = auth_info_copy auth, co_database = database, co_flags = fl, co_result = False\<rparr>"

definition new_query_op :: "('m, 'k, 'z) connection \<Rightarrow> 'k \<Rightarrow> string \<Rightarrow> 'k query_op" where
  "new_query_op s k stmt =
     \<lparr>qo_callback = k, qo_step = 0, qo_token = wp_of (cancelation_token s), qo_stmt = stmt,
      qo_result = - 1\<rparr>"

definition new_store_op :: "('m, 'k, 'z) connection \<Rightarrow> 'k \<Rightarrow> 'k store_op" where
  "new_store_op s k =
     \<lparr>so_callback = k, so_step = Store_entry, so_token = wp_of (cancelation_token s),
      so_next_result = - 1, so_result = None\<rparr>"

definition new_query_result_op ::
  "('m, 'k, 'z) connection \<Rightarrow> 'k \<Rightarrow> string \<Rightarrow> 'k query_result_op" where
  "new_query_result_op s k stmt =
     \<lparr>ro_callback = k, ro_step = Query_entry, ro_token = wp_of (cancelation_token s),
      ro_stmt = stmt, ro_query_result = - 1, ro_result = None\<rparr>"

lemmas new_op_defs [simp] =
  new_connect_op_def new_query_op_def new_store_op_def new_query_result_op_def

definition mdb_async_connect ::
  "('m, 'a) mariadb_api_scheme \<Rightarrow> ('m, 'k, 'z) connection \<Rightarrow> endpoint \<Rightarrow> auth_info \<Rightarrow> string \<Rightarrow>
     u64 \<Rightarrow> 'k \<Rightarrow> ('m, 'k, 'z) connection option" where
  "mdb_async_connect A s ep auth database fl k =
     (let (s1, ec) = (if \<not> mdb_is_open s then mdb_open A s no_error else (s, no_error))
      in if failed ec then Some (post_callback (Completion k ec None) s1)
         else let (s2, ec2) = mdb_set_option A s1 (nonblock_default A) no_error
              in if failed ec2 then Some (post_callback (Completion k ec2 None) s2)
                 else run_op A s2 (Connect_op (new_connect_op s2 k ep auth database fl)) ec2 0)"

definition mdb_async_query ::
  "('m, 'a) mariadb_api_scheme \<Rightarrow> ('m, 'k, 'z) connection \<Rightarrow> string \<Rightarrow> 'k \<Rightarrow>
     ('m, 'k, 'z) connection option" where
  "mdb_async_query A s stmt k =
     (if \<not> mdb_is_open s
      then Some (post_callback (Completion k (misc_error_code Not_initialized) None) s)
      else run_op A s (Query_op (new_query_op s k stmt)) no_error 0)"

definition mdb_async_store_result ::
  "('m, 'a) mariadb_api_scheme \<Rightarrow> ('m, 'k, 'z) connection \<Rightarrow> 'k \<Rightarrow>
     ('m, 'k, 'z) connection option" where
  "mdb_async_store_result A s k =
     (if \<not> mdb_is_open s
      then Some (post_callback
                   (Completion k (misc_error_code Not_initialized) (Some empty_set)) s)
      else run_op A s (Store_op (new_store_op s k)) no_error 0)"

definition mdb_async_query_result ::
  "('m, 'a) mariadb_api_scheme \<Rightarrow> ('m, 'k, 'z) connection \<Rightarrow> string \<Rightarrow> 'k \<Rightarrow>
     ('m, 'k, 'z) connection option" where
  "mdb_async_query_result A s stmt k =
     (if \<not> mdb_is_open s
      then Some (post_callback
                   (Completion k (misc_error_code Not_initialized) (Some empty_set)) s)
      else run_op A s (Query_result_op (new_query_result_op s k stmt)) no_error 0)"

section \<open>Steps\<close>

text \<open>
  What may happen next to a connection: the user calls or starts an operation, an event that
  an operation waits for occurs, the \<open>io_service\<close> runs an operation that is ready, or it
  delivers a callback that was posted.
\<close>

inductive mdb_step ::
  "('m, 'a) mariadb_api_scheme \<Rightarrow> ('m, 'k) mariadb_connection \<Rightarrow> 'k option \<Rightarrow>
     ('m, 'k) mariadb_connection \<Rightarrow> bool" for A where
  mdb_step_open: "mdb_step A s None (fst (mdb_open A s ec))"
| mdb_step_close: "mdb_step A s None (mdb_close A s)"
| mdb_step_cancel: "mdb_step A s None (mdb_cancel s)"
| mdb_step_set_option: "mdb_step A s None (fst (mdb_set_option A s opt ec))"
| mdb_step_connect: "mdb_step A s None (fst (mdb_connect A s ep au db fl ec))"
| mdb_step_query: "mdb_step A s None (fst (mdb_query A s stmt ec))"
| mdb_step_store_result:
    "mdb_store_result A s ec = Some (s', rs, ec') \<Longrightarrow> mdb_step A s None s'"
| mdb_step_autocommit: "mdb_step A s None (fst (mdb_autocommit A s mode ec))"
| mdb_step_commit: "mdb_step A s None (fst (mdb_commit A s ec))"
| mdb_step_rollback: "mdb_step A s None (fst (mdb_rollback A s ec))"
| mdb_step_async_connect:
    "mdb_async_connect A s ep au db fl k = Some s' \<Longrightarrow> mdb_step A s (Some k) s'"
| mdb_step_async_query: "mdb_async_query A s stmt k = Some s' \<Longrightarrow> mdb_step A s (Some k) s'"
| mdb_step_async_store_result: "mdb_async_store_result A s k = Some s' \<Longrightarrow> mdb_step A s (Some k) s'"
| mdb_step_async_query_result:
    "mdb_async_query_result A s stmt k = Some s' \<Longrightarrow> mdb_step A s (Some k) s'"
| mdb_step_event:
    "waits s = xs @ w # ys \<Longrightarrow>
     mdb_step A s None
       (s\<lparr>waits := xs @ ys, ready := ready s @ [resume_with A no_error w]\<rparr>)"
| mdb_step_run:
    "ready s = xs @ r # ys \<Longrightarrow>
     run_op A (s\<lparr>ready := xs @ ys\<rparr>) (rdy_op r) (rdy_code r) (rdy_status r) = Some s' \<Longrightarrow>
     mdb_step A s None s'"
| mdb_step_deliver:
    "posted s = xs @ c # ys \<Longrightarrow>
     mdb_step A s None (invoke_callback c (s\<lparr>posted := xs @ ys\<rparr>))"

text \<open>A run; the list holds the callbacks of the operations started in it.\<close>

inductive mdb_run ::
  "('m, 'a) mariadb_api_scheme \<Rightarrow> ('m, 'k) mariadb_connection \<Rightarrow> 'k list \<Rightarrow>
     ('m, 'k) mariadb_connection \<Rightarrow> bool" for A where
  mdb_run_start: "mdb_run A s [] s"
| mdb_run_call: "mdb_run A s ks s' \<Longrightarrow> mdb_step A s' None s'' \<Longrightarrow> mdb_run A s ks s''"
| mdb_run_issue: "mdb_run A s ks s' \<Longrightarrow> mdb_step A s' (Some k) s'' \<Longrightarrow> mdb_run A s (ks @ [k]) s''"

end
