(* ===== verification/Mariadb_Runs.thy ===== *)
theory Mariadb_Runs
  imports Mariadb_Async
begin

text \<open>
  What the composed operations do to a connection, whatever the interleaving: the invariant
  of the connection, the life of an operation, and the number of times a callback is
  invoked.
\<close>

section \<open>The events a status may ask for\<close>

definition supported :: "'h mysql_headers_scheme \<Rightarrow> i32 \<Rightarrow> bool" where
  "supported H status \<longleftrightarrow>
     has_event status (MYSQL_WAIT_READ H) \<or> has_event status (MYSQL_WAIT_WRITE H) \<or>
     has_event status (MYSQL_WAIT_TIMEOUT H)"

text \<open>A wait that \<open>async_wait_mysql\<close> can register: it has a socket, where it needs one.\<close>

definition can_wait :: "('m, 'a) mariadb_api_scheme \<Rightarrow> 'm \<Rightarrow> i32 \<Rightarrow> bool" where
  "can_wait A m status \<longleftrightarrow>
     supported A status \<and> (has_event status (read_or_write A) \<longrightarrow> c_mysql_get_socket A m \<noteq> - 1)"

definition status_ok :: "('m, 'a) mariadb_api_scheme \<Rightarrow> 'm \<times> 'y \<times> i32 \<Rightarrow> bool" where
  "status_ok A c \<longleftrightarrow> (case c of (m, _, status) \<Rightarrow> status = 0 \<or> can_wait A m status)"

text \<open>
  The library never waits for an exceptional condition alone, and has a socket when it waits to
  read or to write.  Its manual lists \<open>MYSQL_WAIT_EXCEPT\<close> among the events, so this is a hypothesis
  where a property needs it.
\<close>

definition waits_supported :: "('m, 'a) mariadb_api_scheme \<Rightarrow> bool" where
  "waits_supported A \<longleftrightarrow>
     (\<forall>r m h u p d port us fl.
        status_ok A (c_mysql_real_connect_start A r m h u p d port us fl)) \<and>
     (\<forall>r m e. status_ok A (c_mysql_real_connect_cont A r m e)) \<and>
     (\<forall>r m stmt len. status_ok A (c_mysql_real_query_start A r m stmt len)) \<and>
     (\<forall>r m e. status_ok A (c_mysql_real_query_cont A r m e)) \<and>
     (\<forall>r m. status_ok A (c_mysql_store_result_start A r m)) \<and>
     (\<forall>r m e. status_ok A (c_mysql_store_result_cont A r m e)) \<and>
     (\<forall>r m. status_ok A (c_mysql_next_result_start A r m)) \<and>
     (\<forall>r m e. status_ok A (c_mysql_next_result_cont A r m e))"

lemma start_status:
  assumes "mysql_start H wrap call ec = (m, r, status, ec')" and "status_ok A call"
  shows "status = 0 \<or> can_wait A m status"
  using assms by (cases call) (auto simp: mysql_start_cases status_ok_def)

lemma continue_status:
  assumes "mysql_continue H wrap call ec = (m, r, status, ec')" and "status_ok A call"
  shows "status = 0 \<or> can_wait A m status"
  using assms by (cases call) (auto simp: mysql_continue_cases status_ok_def)

text \<open>Every status that one of the wrappers returns, and the tuples they return it in.\<close>

lemma wrapper_status:
  assumes "waits_supported A"
  shows "mysql_real_connect_start A r m h u p d port us fl ec = (m', b, st, ec') \<Longrightarrow>
           st = 0 \<or> can_wait A m' st"
    and "mysql_real_connect_cont A r m e ec = (m', b, st, ec') \<Longrightarrow> st = 0 \<or> can_wait A m' st"
    and "mysql_real_query_start A i m stmt len ec = (m', i', st, ec') \<Longrightarrow>
           st = 0 \<or> can_wait A m' st"
    and "mysql_real_query_cont A i m e ec = (m', i', st, ec') \<Longrightarrow> st = 0 \<or> can_wait A m' st"
    and "mysql_store_result_start A q m ec = (m', q', st, ec') \<Longrightarrow> st = 0 \<or> can_wait A m' st"
    and "mysql_store_result_cont A q m e ec = (m', q', st, ec') \<Longrightarrow> st = 0 \<or> can_wait A m' st"
    and "mysql_next_result_start A i m ec = (m', i', st, ec') \<Longrightarrow> st = 0 \<or> can_wait A m' st"
    and "mysql_next_result_cont A i m e ec = (m', i', st, ec') \<Longrightarrow> st = 0 \<or> can_wait A m' st"
  using assms unfolding waits_supported_def nb_op_defs
  by - (erule start_status continue_status; simp)+

lemmas status_dest = wrapper_status [rotated]

section \<open>Operations and callbacks of a connection\<close>

definition ops :: "('m, 'k, 'z) connection \<Rightarrow> 'k composed_op list" where
  "ops s = map snd (waits s) @ map rdy_op (ready s)"

text \<open>The callbacks of the connection: still owned by it, or invoked.\<close>

definition held :: "('m, 'k, 'z) connection \<Rightarrow> 'k multiset" where
  "held s = mset (map op_callback (ops s)) + mset (map callback (posted s))"

definition settled :: "('m, 'k, 'z) connection \<Rightarrow> 'k multiset" where
  "settled s = held s + mset (map callback (invoked s))"

text \<open>An operation that waits is in a step in which it can be resumed.\<close>

fun parked :: "'k composed_op \<Rightarrow> bool" where
  "parked (Connect_op p) \<longleftrightarrow> co_step p = 1"
| "parked (Query_op p) \<longleftrightarrow> qo_step p = 1"
| "parked (Store_op p) \<longleftrightarrow> so_step p \<in> {Store_cont_store, Store_cont_next}"
| "parked (Query_result_op p) \<longleftrightarrow> ro_step p \<in> {Query_cont_store, Query_cont_query}"

definition same_io :: "('m, 'k, 'z) connection \<Rightarrow> ('m, 'k, 'z) connection \<Rightarrow> bool" where
  "same_io s s' \<longleftrightarrow>
     ev_fd s' = ev_fd s \<and> timer_set s' = timer_set s \<and> waits s' = waits s \<and>
     ready s' = ready s \<and> posted s' = posted s \<and> invoked s' = invoked s"

lemma same_io_refl [simp]: "same_io s s"
  by (simp add: same_io_def)

lemma same_io_update [simp]:
  "same_io s (s'\<lparr>mysql := m\<rparr>) = same_io s s'"
  "same_io s (s'\<lparr>flags := fl\<rparr>) = same_io s s'"
  "same_io s (s'\<lparr>initialized := b\<rparr>) = same_io s s'"
  "same_io s (s'\<lparr>first_result_stored := b\<rparr>) = same_io s s'"
  by (simp_all add: same_io_def)

lemma same_io_deleter [simp]: "same_io s (result_set_deleter A p s') = same_io s s'"
  by (cases p) (simp_all add: result_set_deleter_def same_io_def)

lemma same_io_free_result [simp]: "same_io s (free_result A s') = same_io s s'"
  by (cases "last_result s'") (simp_all add: free_result_def, simp_all add: same_io_def)

lemma same_io_reset [simp]: "same_io s (reset_last_result A r s') = same_io s s'"
  by (cases "last_result s'")
     (simp_all add: reset_last_result_def sp_make_def, simp_all add: same_io_def)

lemma same_io_cancel [simp]: "same_io s (cancel s') = same_io s s'"
  by (cases "cancelation_token s'") (simp_all add: cancel_def sp_make_def same_io_def)

lemma same_io_settled: "same_io s s' \<Longrightarrow> settled s' = settled s \<and> ops s' = ops s"
  by (simp add: same_io_def settled_def held_def ops_def)

text \<open>A piece of a handler that only works on the connection.\<close>

definition inner :: "('m, 'k, 'z) connection \<Rightarrow> ('m, 'k, 'z) connection \<Rightarrow> bool" where
  "inner s s' \<longleftrightarrow> keeps s s' \<and> initialized s' = initialized s \<and> same_io s s'"

lemma inner_refl [simp, intro]: "inner s s"
  by (simp add: inner_def)

lemma inner_trans: "inner s s' \<Longrightarrow> inner s' s'' \<Longrightarrow> inner s s''"
  by (auto simp: inner_def same_io_def intro: keeps_trans)

lemma inner_update [simp]:
  "inner s (s'\<lparr>mysql := m\<rparr>) = inner s s'"
  "inner s (s'\<lparr>flags := fl\<rparr>) = inner s s'"
  "inner s (s'\<lparr>first_result_stored := b\<rparr>) = inner s s'"
  by (simp_all add: inner_def)

lemma inner_free_result [simp]: "inner s s' \<Longrightarrow> inner s (free_result A s')"
  by (auto simp: inner_def frame_simps intro: keeps_trans)

lemma inner_reset [simp]: "inner s s' \<Longrightarrow> inner s (reset_last_result A r s')"
  by (simp add: inner_def frame_simps)

section \<open>The io_service keeps the connection\<close>

lemma io_frame [simp]:
  "impl_inv (s\<lparr>ev_fd := fd\<rparr>) = impl_inv s"
  "impl_inv (s\<lparr>timer_set := b\<rparr>) = impl_inv s"
  "impl_inv (s\<lparr>waits := w\<rparr>) = impl_inv s"
  "impl_inv (s\<lparr>ready := q\<rparr>) = impl_inv s"
  "impl_inv (s\<lparr>posted := c\<rparr>) = impl_inv s"
  "impl_inv (s\<lparr>invoked := d\<rparr>) = impl_inv s"
  by (cases "last_result s"; cases "cancelation_token s"; simp add: impl_inv_def heap_wf_def)+

lemma keeps_io [simp]:
  "keeps s (s'\<lparr>ev_fd := fd\<rparr>) = keeps s s'"
  "keeps s (s'\<lparr>timer_set := b\<rparr>) = keeps s s'"
  "keeps s (s'\<lparr>waits := w\<rparr>) = keeps s s'"
  "keeps s (s'\<lparr>ready := q\<rparr>) = keeps s s'"
  "keeps s (s'\<lparr>posted := c\<rparr>) = keeps s s'"
  "keeps s (s'\<lparr>invoked := d\<rparr>) = keeps s s'"
  by (simp_all add: keeps_def evolves_def)

lemma keeps_cancel_waits [simp]:
  "keeps s (cancel_waits H P s') = keeps s s'"
  "initialized (cancel_waits H P s') = initialized s'"
  by (simp_all add: cancel_waits_def)

lemma keeps_stop_waits [simp]:
  "keeps s (stop_waits H s') = keeps s s'"
  "initialized (stop_waits H s') = initialized s'"
  "keeps s (assign_socket A status s') = keeps s s'"
  "initialized (assign_socket A status s') = initialized s'"
  by (simp_all add: stop_waits_def assign_socket_def ev_release_def ev_cancel_def
      timer_cancel_def Let_def)

lemma keeps_register [simp]:
  "keeps s (ev_async_wait A src p s') = keeps s s'"
  "initialized (ev_async_wait A src p s') = initialized s'"
  "keeps s (timer_async_wait ms p s') = keeps s s'"
  "initialized (timer_async_wait ms p s') = initialized s'"
  by (simp_all add: ev_async_wait_def timer_async_wait_def)

lemma keeps_async_wait [simp]:
  "keeps s (async_wait_mysql A status p s') = keeps s s'"
  "initialized (async_wait_mysql A status p s') = initialized s'"
  by (simp_all add: async_wait_mysql_def timer_cancel_def ev_release_def ev_cancel_def Let_def)

lemma keeps_invoke [simp]: "keeps s (invoke_callback c s') = keeps s s'"
  by (simp add: invoke_callback_def)

lemma keeps_post_callback [simp]: "keeps s (post_callback c s') = keeps s s'"
  by (simp add: post_callback_def)

section \<open>Counting\<close>

lemma mset_filter_partition:
  "mset (map f (filter (\<lambda>x. \<not> P x) xs)) + mset (map f (filter P xs)) = mset (map f xs)"
  by (induction xs) auto

lemma settled_cancel_waits [simp]: "settled (cancel_waits H P s) = settled s"
proof -
  have r: "rdy_op \<circ> resume_with H ec = snd" for ec
    by (simp add: resume_with_def fun_eq_iff)
  have "mset (map (op_callback \<circ> snd) (waits s)) =
      mset (map (op_callback \<circ> snd) (filter (\<lambda>w. \<not> P w) (waits s))) +
      mset (map (op_callback \<circ> snd) (filter P (waits s)))"
    by (rule mset_filter_partition [symmetric])
  then show ?thesis
    by (simp add: settled_def held_def ops_def cancel_waits_def r union_ac)
qed

lemma ops_cancel_waits [simp]: "set (ops (cancel_waits H P s)) = set (ops s)"
  by (auto simp: ops_def cancel_waits_def resume_with_def)

lemma settled_fd [simp]:
  "settled (s\<lparr>ev_fd := fd\<rparr>) = settled s" "settled (s\<lparr>timer_set := b\<rparr>) = settled s"
  "ops (s\<lparr>ev_fd := fd\<rparr>) = ops s" "ops (s\<lparr>timer_set := b\<rparr>) = ops s"
  by (simp_all add: settled_def held_def ops_def)

lemma settled_waiting:
  "settled (s\<lparr>waits := waits s @ [w]\<rparr>) = add_mset (op_callback (snd w)) (settled s)"
  "settled (s\<lparr>ready := ready s @ [r]\<rparr>) = add_mset (op_callback (rdy_op r)) (settled s)"
  "set (ops (s\<lparr>waits := waits s @ [w]\<rparr>)) = insert (snd w) (set (ops s))"
  "set (ops (s\<lparr>ready := ready s @ [r]\<rparr>)) = insert (rdy_op r) (set (ops s))"
  by (simp_all add: settled_def held_def ops_def)

lemma settled_ev_async_wait:
  "settled (ev_async_wait A src p s) = add_mset (op_callback p) (settled s)"
  "set (ops (ev_async_wait A src p s)) = insert p (set (ops s))"
  by (simp_all add: ev_async_wait_def settled_waiting resume_with_def)

lemma settled_timer_async_wait:
  "settled (timer_async_wait ms p s) = add_mset (op_callback p) (settled s)"
  "set (ops (timer_async_wait ms p s)) = insert p (set (ops s))"
  by (simp_all add: timer_async_wait_def settled_waiting)

lemma settled_stop_waits [simp]:
  "settled (stop_waits H s) = settled s" "set (ops (stop_waits H s)) = set (ops s)"
  "settled (assign_socket A status s) = settled s"
  "set (ops (assign_socket A status s)) = set (ops s)"
  by (simp_all add: stop_waits_def assign_socket_def ev_release_def ev_cancel_def
      timer_cancel_def Let_def)

lemma settled_async_wait:
  "settled (async_wait_mysql A status p s) =
     (if supported A status \<and> \<not> assign_throws A status s
      then add_mset (op_callback p) (settled s) else settled s)"
  by (simp add: async_wait_mysql_def supported_def timer_cancel_def settled_ev_async_wait
      settled_timer_async_wait ev_release_def ev_cancel_def Let_def)

lemma ops_async_wait: "set (ops (async_wait_mysql A status p s)) \<subseteq> insert p (set (ops s))"
  by (simp add: async_wait_mysql_def timer_cancel_def settled_ev_async_wait
      settled_timer_async_wait ev_release_def ev_cancel_def Let_def subset_insertI)

lemma settled_invoke [simp]:
  "settled (invoke_callback c s) = add_mset (callback c) (settled s)"
  "ops (invoke_callback c s) = ops s"
  by (simp_all add: invoke_callback_def settled_def held_def ops_def)

lemma settled_post [simp]:
  "settled (post_callback c s) = add_mset (callback c) (settled s)"
  "ops (post_callback c s) = ops s"
  by (simp_all add: post_callback_def settled_def held_def ops_def)

section \<open>What one run of an operation does\<close>

text \<open>
  \<open>moves A s p s'\<close>: between \<open>s\<close> and \<open>s'\<close> the operation \<open>p\<close> ran, until it waits or ends.  Its
  callback is held or invoked once more, unless the library waits for an event that is not
  supported; the connection keeps its invariant and stays open or closed; the only operation
  that may have been added is \<open>p\<close> in a later step.
\<close>

definition moves ::
  "('m, 'a) mariadb_api_scheme \<Rightarrow> ('m, 'k, 'z) connection \<Rightarrow> 'k composed_op \<Rightarrow>
     ('m, 'k, 'z) connection \<Rightarrow> bool" where
  "moves A s p s' \<longleftrightarrow>
     keeps s s' \<and> initialized s' = initialized s \<and>
     (settled s' = add_mset (op_callback p) (settled s) \<or>
      settled s' = settled s \<and> \<not> waits_supported A) \<and>
     (\<forall>q \<in> set (ops s'). q \<in> set (ops s) \<or> parked q \<and> op_token q = op_token p)"

lemma moves_invoke:
  assumes "inner s t" and "callback c = op_callback p"
  shows "moves A s p (invoke_callback c t)"
  using assms same_io_settled [of s t]
  by (simp add: moves_def inner_def) (simp add: invoke_callback_def)

lemma moves_wait:
  assumes "inner s t" and "parked q" and "op_callback q = op_callback p"
    and "op_token q = op_token p" and "waits_supported A \<Longrightarrow> can_wait A (mysql t) status"
  shows "moves A s p (async_wait_mysql A status q t)"
proof -
  have io: "settled t = settled s" "set (ops t) = set (ops s)"
    using assms(1) same_io_settled [of s t] by (simp_all add: inner_def)
  have "r \<in> set (ops s) \<or> r = q" if "r \<in> set (ops (async_wait_mysql A status q t))" for r
    using that ops_async_wait [of A status q t] io by auto
  then show ?thesis
    using assms io by (auto simp: moves_def inner_def settled_async_wait can_wait_def assign_throws_def)
qed

lemma moves_after:
  assumes "inner s t" and "moves A t p s'"
  shows "moves A s p s'"
  using assms same_io_settled [of s t]
  by (auto simp: moves_def inner_def intro: keeps_trans)

lemma connect_wait_moves:
  assumes "inner s t" and "co_callback p = k" and "co_token p = w"
    and "waits_supported A \<Longrightarrow> status = 0 \<or> can_wait A (mysql t) status"
    and "op_callback q = k" and "op_token q = w"
  shows "moves A s q (connect_wait A t p ec status)"
  using assms
  by (auto simp: connect_wait_def Let_def wait_finish_def intro!: moves_invoke moves_wait)

lemma connect_handler_moves: "moves A s (Connect_op p) (connect_handler A s p ec status)"
  by (auto simp: connect_handler_def Let_def
      intro!: moves_invoke connect_wait_moves [where k = "co_callback p" and w = "co_token p"]
      dest: status_dest split: prod.splits)

lemma query_wait_moves:
  assumes "inner s t" and "qo_callback p = k" and "qo_token p = w"
    and "waits_supported A \<Longrightarrow> status = 0 \<or> can_wait A (mysql t) status"
    and "op_callback q = k" and "op_token q = w"
  shows "moves A s q (query_wait A t p ec status)"
  using assms
  by (auto simp: query_wait_def Let_def wait_finish_def intro!: moves_invoke moves_wait)

lemma query_handler_moves: "moves A s (Query_op p) (query_handler A s p ec status)"
  by (auto simp: query_handler_def Let_def
      intro!: moves_invoke query_wait_moves [where k = "qo_callback p" and w = "qo_token p"]
      dest: status_dest split: prod.splits)

text \<open>
  One pass of the loops, for any of the two handlers: \<open>cb\<close>, \<open>tok\<close> and \<open>wrap\<close> are its
  callback, its token and its constructor.
\<close>

definition pass_moves ::
  "('m, 'a) mariadb_api_scheme \<Rightarrow> ('p \<Rightarrow> 'k composed_op) \<Rightarrow> ('m, 'k, 'z) connection \<Rightarrow> 'p \<Rightarrow>
     (('m, 'k, 'z) connection, 'p) pass \<Rightarrow> bool" where
  "pass_moves A wrap s p res \<longleftrightarrow>
     (case res of
        Again s' p' ec status \<Rightarrow>
          inner s s' \<and> op_callback (wrap p') = op_callback (wrap p) \<and>
          op_token (wrap p') = op_token (wrap p) \<and>
          (waits_supported A \<longrightarrow> status = 0 \<or> can_wait A (mysql s') status)
      | Waiting s' \<Rightarrow> moves A s (wrap p) s'
      | Break s' p' ec \<Rightarrow> inner s s' \<and> op_callback (wrap p') = op_callback (wrap p)
      | Assert_failed \<Rightarrow> False)"

lemma finish_moves:
  assumes "finish_with_result A t k r ec = Some s'" and "inner s t" and "op_callback p = k"
  shows "moves A s p s'"
  using assms
  by (auto simp: finish_with_result_def Let_def intro!: moves_invoke split: if_splits option.splits)

lemma store_cont_moves:
  assumes "so_step p \<notin> {Store_entry, Store_error}"
    and "so_step p \<in> {Store_store_start, Store_wait_next} \<Longrightarrow> waits_supported A \<Longrightarrow>
         status = 0 \<or> can_wait A (mysql s) status"
    and "so_step p = Store_store_start \<Longrightarrow> status \<noteq> 0"
  shows "pass_moves A Store_op s p (store_cont A s p ec status)"
  using assms
  by (cases "so_step p")
     (auto simp: store_cont_def Let_def pass_moves_def wait_finish_def
       intro!: moves_wait dest: status_dest split: prod.splits)

lemma pass_moves_after:
  assumes "inner s t" and "pass_moves A wrap t p' res"
    and "op_callback (wrap p') = op_callback (wrap p)" and "op_token (wrap p') = op_token (wrap p)"
  shows "pass_moves A wrap s p res"
proof (cases res)
  case (Waiting s')
  then have "moves A s (wrap p') s'"
    using assms(1,2) by (auto simp: pass_moves_def intro: moves_after)
  then show ?thesis using Waiting assms(3,4) by (simp add: pass_moves_def moves_def)
qed (use assms in \<open>auto simp: pass_moves_def intro: inner_trans\<close>)

lemma store_start_moves: "pass_moves A Store_op s p (store_start A s p ec status)"
proof -
  let ?s1 = "free_result A s"
  obtain m r st e where c: "mysql_store_result_start A (so_result p) (mysql ?s1) ec = (m, r, st, e)"
    by (metis prod_cases4)
  let ?p2 = "p\<lparr>so_step := Store_store_start, so_result := r\<rparr>" and ?s2 = "?s1\<lparr>mysql := m\<rparr>"
  show ?thesis
  proof (cases "failed e \<or> st = 0")
    case True
    then show ?thesis
      by (simp add: store_start_def c pass_moves_def wait_finish_def)
  next
    case False
    have "pass_moves A Store_op ?s2 ?p2 (store_cont A ?s2 ?p2 e st)"
      using False c by (intro store_cont_moves) (auto dest: status_dest)
    then have "pass_moves A Store_op s p (store_cont A ?s2 ?p2 e st)"
      by (rule pass_moves_after [rotated]) simp_all
    then show ?thesis
      using False by (simp add: store_start_def c wait_finish_def)
  qed
qed

lemma store_entry_moves: "pass_moves A Store_op s p (store_entry A s p ec status)"
proof (cases "first_result_stored s")
  case False
  have "pass_moves A Store_op s p (store_start A (s\<lparr>first_result_stored := True\<rparr>) p ec status)"
    by (rule pass_moves_after [OF _ store_start_moves]) simp_all
  with False show ?thesis by (simp add: store_entry_def)
next
  case True
  let ?s1 = "free_result A s"
  obtain m r st e where c: "mysql_next_result_start A (so_next_result p) (mysql ?s1) ec = (m, r, st, e)"
    by (metis prod_cases4)
  have "pass_moves A Store_op s p
      (store_start A (?s1\<lparr>mysql := m\<rparr>) (p\<lparr>so_next_result := r\<rparr>) e st)"
    by (rule pass_moves_after [OF _ store_start_moves]) simp_all
  then show ?thesis
    using True c
    by (auto simp: store_entry_def Let_def pass_moves_def [of _ _ _ _ "Again _ _ _ _"]
        pass_moves_def [of _ _ _ _ "Break _ _ _"] dest: status_dest)
qed

lemma store_pass_moves:
  assumes "so_step p = Store_wait_next \<Longrightarrow> waits_supported A \<Longrightarrow> status = 0 \<or> can_wait A (mysql s) status"
  shows "pass_moves A Store_op s p (store_pass A s p ec status)"
  using assms
  by (auto simp: store_pass_def Let_def pass_moves_def [of _ _ _ _ "Break _ _ _"]
      intro!: store_entry_moves store_start_moves store_cont_moves
      split: store_step.splits)

lemma store_result_handler_moves:
  assumes "store_result_handler A s p ec status = Some s'"
    and "so_step p = Store_wait_next \<Longrightarrow> waits_supported A \<Longrightarrow> status = 0 \<or> can_wait A (mysql s) status"
  shows "moves A s (Store_op p) s'"
  using assms
proof (induction A s p ec status rule: store_result_handler.induct)
  case (1 A s p ec status)
  have pm: "pass_moves A Store_op s p (store_pass A s p ec status)"
    using "1.prems"(2) by (rule store_pass_moves)
  show ?case
  proof (cases "store_pass A s p ec status")
    case (Again t p' e st)
    then have h: "store_result_handler A t p' e st = Some s'"
      using "1.prems"(1) by (simp add: store_result_handler.simps [of A s])
    have t: "inner s t" "op_callback (Store_op p') = op_callback (Store_op p)"
        "op_token (Store_op p') = op_token (Store_op p)"
        "waits_supported A \<Longrightarrow> st = 0 \<or> can_wait A (mysql t) st"
      using pm Again by (simp_all add: pass_moves_def)
    have "moves A t (Store_op p') s'"
      using "1.IH" [OF Again h] t(4) by blast
    then have "moves A s (Store_op p') s'" by (rule moves_after [OF t(1)])
    then show ?thesis using t(2,3) by (simp add: moves_def)
  next
    case (Break t p' e)
    then show ?thesis
      using "1.prems"(1) pm
      by (auto simp: store_result_handler.simps [of A s] pass_moves_def intro: finish_moves)
  qed (use "1.prems"(1) pm in
      \<open>simp_all add: store_result_handler.simps [of A s] pass_moves_def\<close>)
qed

lemma qr_cont_moves:
  assumes "ro_step p \<notin> {Query_entry, Query_error}"
    and "ro_step p \<in> {Query_store_start, Query_wait_query} \<Longrightarrow> waits_supported A \<Longrightarrow>
         status = 0 \<or> can_wait A (mysql s) status"
    and "ro_step p = Query_store_start \<Longrightarrow> status \<noteq> 0"
  shows "pass_moves A Query_result_op s p (qr_cont A s p ec status)"
  using assms
  by (cases "ro_step p")
     (auto simp: qr_cont_def Let_def pass_moves_def wait_finish_def
       intro!: moves_wait dest: status_dest split: prod.splits)

lemma qr_store_start_moves:
  assumes "ro_step p = Query_store_start"
  shows "pass_moves A Query_result_op s p (qr_store_start A s p ec status)"
proof -
  let ?s1 = "(free_result A s)\<lparr>first_result_stored := True\<rparr>"
  obtain m r st e where c: "mysql_store_result_start A (ro_result p) (mysql ?s1) ec = (m, r, st, e)"
    by (metis prod_cases4)
  let ?p2 = "p\<lparr>ro_result := r\<rparr>" and ?s2 = "?s1\<lparr>mysql := m\<rparr>"
  show ?thesis
  proof (cases "failed e \<or> st = 0")
    case True
    then show ?thesis
      using c by (simp add: qr_store_start_def pass_moves_def wait_finish_def)
  next
    case False
    have "pass_moves A Query_result_op ?s2 ?p2 (qr_cont A ?s2 ?p2 e st)"
      using False c assms by (intro qr_cont_moves) (auto dest: status_dest)
    then have "pass_moves A Query_result_op s p (qr_cont A ?s2 ?p2 e st)"
      by (rule pass_moves_after [rotated]) simp_all
    then show ?thesis
      using False c by (simp add: qr_store_start_def wait_finish_def)
  qed
qed

lemma qr_entry_moves: "pass_moves A Query_result_op s p (qr_entry A s p ec status)"
proof -
  let ?s1 = "(free_result A s)\<lparr>first_result_stored := False\<rparr>"
  obtain m r st e where c: "mysql_real_query_start A (ro_query_result p) (mysql ?s1)
      (c_str (ro_stmt p)) (of_nat (length (ro_stmt p))) ec = (m, r, st, e)"
    by (metis prod_cases4)
  let ?p2 = "p\<lparr>ro_query_result := r, ro_step := Query_store_start\<rparr>"
  have "pass_moves A Query_result_op s p (qr_store_start A (?s1\<lparr>mysql := m\<rparr>) ?p2 e st)"
    by (rule pass_moves_after [OF _ qr_store_start_moves]) simp_all
  then show ?thesis
    using c
    by (auto simp: qr_entry_def Let_def pass_moves_def [of _ _ _ _ "Again _ _ _ _"]
        pass_moves_def [of _ _ _ _ "Break _ _ _"] dest: status_dest)
qed

lemma qr_pass_moves:
  assumes "ro_step p = Query_wait_query \<Longrightarrow> waits_supported A \<Longrightarrow> status = 0 \<or> can_wait A (mysql s) status"
  shows "pass_moves A Query_result_op s p (qr_pass A s p ec status)"
  using assms
  by (auto simp: qr_pass_def Let_def pass_moves_def [of _ _ _ _ "Break _ _ _"]
      intro!: qr_entry_moves qr_store_start_moves qr_cont_moves
      split: query_step.splits)

lemma query_result_handler_moves:
  assumes "query_result_handler A s p ec status = Some s'"
    and "ro_step p = Query_wait_query \<Longrightarrow> waits_supported A \<Longrightarrow> status = 0 \<or> can_wait A (mysql s) status"
  shows "moves A s (Query_result_op p) s'"
  using assms
proof (induction A s p ec status rule: query_result_handler.induct)
  case (1 A s p ec status)
  have pm: "pass_moves A Query_result_op s p (qr_pass A s p ec status)"
    using "1.prems"(2) by (rule qr_pass_moves)
  show ?case
  proof (cases "qr_pass A s p ec status")
    case (Again t p' e st)
    then have h: "query_result_handler A t p' e st = Some s'"
      using "1.prems"(1) by (simp add: query_result_handler.simps [of A s])
    have t: "inner s t" "op_callback (Query_result_op p') = op_callback (Query_result_op p)"
        "op_token (Query_result_op p') = op_token (Query_result_op p)"
        "waits_supported A \<Longrightarrow> st = 0 \<or> can_wait A (mysql t) st"
      using pm Again by (simp_all add: pass_moves_def)
    have "moves A t (Query_result_op p') s'"
      using "1.IH" [OF Again h] t(4) by blast
    then have "moves A s (Query_result_op p') s'" by (rule moves_after [OF t(1)])
    then show ?thesis using t(2,3) by (simp add: moves_def)
  next
    case (Break t p' e)
    then show ?thesis
      using "1.prems"(1) pm
      by (auto simp: query_result_handler.simps [of A s] pass_moves_def intro: finish_moves)
  qed (use "1.prems"(1) pm in
      \<open>simp_all add: query_result_handler.simps [of A s] pass_moves_def\<close>)
qed

text \<open>An operation that is about to run for the first time.\<close>

fun fresh_op :: "'k composed_op \<Rightarrow> bool" where
  "fresh_op (Connect_op p) \<longleftrightarrow> co_step p = 0"
| "fresh_op (Query_op p) \<longleftrightarrow> qo_step p = 0"
| "fresh_op (Store_op p) \<longleftrightarrow> so_step p = Store_entry"
| "fresh_op (Query_result_op p) \<longleftrightarrow> ro_step p = Query_entry"

lemma run_op_moves:
  assumes "run_op A s p ec status = Some s'" and "parked p \<or> fresh_op p"
  shows "moves A s p s'"
  using assms
  by (cases p)
     (auto intro: connect_handler_moves query_handler_moves store_result_handler_moves
       query_result_handler_moves)

section \<open>Invariant of a run\<close>

text \<open>A token that is not expired is the current one, and the connection is open.\<close>

definition tok_ok :: "('m, 'z) implementation_scheme \<Rightarrow> unit weak_ptr \<Rightarrow> bool" where
  "tok_ok s w \<longleftrightarrow>
     weak_allocated w s \<and>
     (\<not> expired w s \<longrightarrow> w = wp_of (cancelation_token s) \<and> initialized s)"

definition mdb_inv :: "('m, 'k, 'z) connection \<Rightarrow> bool" where
  "mdb_inv s \<longleftrightarrow>
     impl_inv s \<and> (\<forall>q \<in> set (ops s). parked q \<and> tok_ok s (op_token q))"

lemma tok_ok_keeps:
  assumes "tok_ok s w" and "keeps s s'" and "initialized s \<Longrightarrow> initialized s'"
  shows "tok_ok s' w"
  using assms evolves_expired [of s s' w] evolves_weak_allocated [of s s' w]
  by (auto simp: tok_ok_def keeps_def)

lemma tok_ok_current: "impl_inv s \<Longrightarrow> initialized s \<Longrightarrow> tok_ok s (wp_of (cancelation_token s))"
  by (simp add: tok_ok_def token_allocated)

lemma mdb_inv_keeps:
  assumes "mdb_inv s" and "keeps s s'" and "initialized s \<Longrightarrow> initialized s'"
    and "set (ops s') \<subseteq> set (ops s)"
  shows "mdb_inv s'"
proof -
  have "parked q \<and> tok_ok s' (op_token q)" if "q \<in> set (ops s')" for q
    using that assms tok_ok_keeps [OF _ assms(2,3)] by (auto simp: mdb_inv_def)
  then show ?thesis using assms(1,2) by (simp add: mdb_inv_def keeps_def)
qed

lemma moves_inv:
  assumes "mdb_inv s" and "tok_ok s (op_token p)" and "moves A s p s'"
  shows "mdb_inv s'"
proof -
  have k: "keeps s s'" "initialized s \<Longrightarrow> initialized s'"
    using assms(3) by (simp_all add: moves_def)
  have "parked q \<and> tok_ok s' (op_token q)" if "q \<in> set (ops s')" for q
  proof -
    from that assms(3) consider "q \<in> set (ops s)" | "parked q" "op_token q = op_token p"
      by (auto simp: moves_def)
    then show ?thesis
      using assms(1,2) tok_ok_keeps [OF _ k] by cases (auto simp: mdb_inv_def)
  qed
  then show ?thesis using assms(1) k(1) by (simp add: mdb_inv_def keeps_def)
qed

text \<open>How the callbacks of a connection change while those of \<open>ks\<close> are issued.\<close>

definition counts ::
  "('m, 'a) mariadb_api_scheme \<Rightarrow> ('m, 'k, 'z) connection \<Rightarrow> 'k multiset \<Rightarrow>
     ('m, 'k, 'z) connection \<Rightarrow> bool" where
  "counts A s ks s' \<longleftrightarrow>
     settled s' \<subseteq># settled s + ks \<and> (waits_supported A \<longrightarrow> settled s' = settled s + ks)"

lemma counts_same: "settled s' = settled s + ks \<Longrightarrow> counts A s ks s'"
  by (simp add: counts_def)

lemma counts_trans: "counts A s ks s' \<Longrightarrow> counts A s' ls s'' \<Longrightarrow> counts A s (ks + ls) s''"
  unfolding counts_def by (metis add.assoc subset_mset.add_right_mono subset_mset.order_trans)

lemma moves_counts: "moves A s p s' \<Longrightarrow> counts A s {#op_callback p#} s'"
  by (auto simp: moves_def counts_def)

lemma counts_shift:
  assumes "settled t = add_mset k (settled s)" and "counts A s {#k#} s'"
  shows "counts A t {#} s'"
  using assms by (simp add: counts_def)

text \<open>The blocking calls: they are those of \<open>mysql_service\<close>, and do not touch the io_service.\<close>

definition plain_call :: "('m, 'k, 'z) connection \<Rightarrow> ('m, 'k, 'z) connection \<Rightarrow> bool" where
  "plain_call s s' \<longleftrightarrow> keeps s s' \<and> (initialized s \<longrightarrow> initialized s') \<and> same_io s s'"

lemma plain_call_update [simp]:
  "plain_call s (s'\<lparr>mysql := m\<rparr>) = plain_call s s'"
  "plain_call s (s'\<lparr>flags := fl\<rparr>) = plain_call s s'"
  "plain_call s (s'\<lparr>first_result_stored := b\<rparr>) = plain_call s s'"
  by (simp_all add: plain_call_def)

lemma plain_call_refl [simp]: "plain_call s s"
  by (simp add: plain_call_def)

lemma plain_call_free [simp]: "plain_call s (free_result A s)"
  by (simp add: plain_call_def frame_simps)

lemma plain_call_trans: "plain_call s s' \<Longrightarrow> plain_call s' s'' \<Longrightarrow> plain_call s s''"
  by (auto simp: plain_call_def same_io_def intro: keeps_trans)

lemma plain_open: "plain_call s (fst (mdb_open A s ec))"
  by (simp add: plain_call_def mdb_open_def mdb_is_open_def Let_def split: prod.splits)

lemma plain_set_option: "plain_call s (fst (mdb_set_option A s opt ec))"
  by (simp add: mdb_set_option_def split: prod.splits)

lemma plain_connect: "plain_call s (fst (mdb_connect A s ep au db fl ec))"
  using plain_open [of s A ec]
  by (auto simp: mdb_connect_def Let_def split: prod.splits if_splits)

lemma plain_query: "plain_call s (fst (mdb_query A s stmt ec))"
  by (simp add: mdb_query_def Let_def split: prod.splits)

lemma plain_next_result: "plain_call s (fst (ms_next_result A s ec))"
  by (simp add: ms_next_result_def Let_def split: prod.splits)

lemma plain_take_result:
  "ms_take_result A s ec = Some (s', rs, ec') \<Longrightarrow> plain_call s s'"
  using keeps_take_result [of A s ec s' rs ec']
  by (auto simp: ms_take_result_def Let_def plain_call_def frame_simps
      split: prod.splits option.splits)

lemma plain_store_result:
  assumes "mdb_store_result A s ec = Some (s', rs, ec')"
  shows "plain_call s s'"
  using assms plain_next_result [of s A ec] plain_take_result plain_call_trans
  by (fastforce simp: mdb_same ms_store_result_def split: prod.splits if_splits)

lemma plain_autocommit: "plain_call s (fst (mdb_autocommit A s mode ec))"
  by (simp add: mdb_autocommit_def split: prod.splits)

lemma plain_commit: "plain_call s (fst (mdb_commit A s ec))"
  by (simp add: mdb_commit_def split: prod.splits)

lemma plain_rollback: "plain_call s (fst (mdb_rollback A s ec))"
  by (simp add: mdb_rollback_def split: prod.splits)

lemmas plain_calls =
  plain_open plain_set_option plain_connect plain_query plain_store_result plain_autocommit
  plain_commit plain_rollback

text \<open>The step contract: the invariant, the count, and the evolution of the heap.\<close>

definition step_ok ::
  "('m, 'a) mariadb_api_scheme \<Rightarrow> ('m, 'k, 'z) connection \<Rightarrow> 'k multiset \<Rightarrow>
     ('m, 'k, 'z) connection \<Rightarrow> bool" where
  "step_ok A s ks s' \<longleftrightarrow> (mdb_inv s \<longrightarrow> mdb_inv s' \<and> counts A s ks s' \<and> evolves s s')"

lemma plain_step: "plain_call s s' \<Longrightarrow> step_ok A s {#} s'"
  using same_io_settled [of s s'] mdb_inv_keeps [of s s']
  by (auto simp: step_ok_def plain_call_def counts_def keeps_def)

lemma step_ok_trans: "step_ok A s ks s' \<Longrightarrow> step_ok A s' ls s'' \<Longrightarrow> step_ok A s (ks + ls) s''"
  using counts_trans evolves_trans by (auto simp: step_ok_def)

lemma started_step:
  assumes "run_op A s p ec status = Some s'" and "fresh_op p"
    and "op_token p = wp_of (cancelation_token s)" and "initialized s"
  shows "step_ok A s {#op_callback p#} s'"
proof -
  have m: "moves A s p s'" using assms(1,2) run_op_moves by blast
  show ?thesis
    using moves_inv [OF _ _ m] moves_counts [OF m] m assms(3,4) tok_ok_current [of s]
    by (auto simp: step_ok_def mdb_inv_def moves_def keeps_def)
qed

lemma posted_step: "step_ok A s {#callback c#} (post_callback c s)"
proof -
  have "keeps s (post_callback c s)" and "initialized (post_callback c s) = initialized s"
    by (simp_all add: post_callback_def)
  then show ?thesis
    using mdb_inv_keeps [of s "post_callback c s"]
    by (auto simp: step_ok_def counts_def keeps_def)
qed

lemma async_connect_step:
  assumes "mdb_async_connect A s ep au db fl k = Some s'"
  shows "step_ok A s {#k#} s'"
proof -
  define p where "p = (if \<not> mdb_is_open s then mdb_open A s no_error else (s, no_error))"
  define q where "q = mdb_set_option A (fst p) (nonblock_default A) no_error"
  have p: "plain_call s (fst p)" and q: "plain_call (fst p) (fst q)"
    by (simp_all add: p_def q_def plain_open plain_set_option)
  have init: "initialized (fst p)" if "\<not> failed (snd p)"
    using that by (auto simp: p_def mdb_open_def mdb_is_open_def mysql_init_def Let_def
        split: prod.splits if_splits)
  have call: "mdb_async_connect A s ep au db fl k =
      (if failed (snd p) then Some (post_callback (Completion k (snd p) None) (fst p))
       else if failed (snd q) then Some (post_callback (Completion k (snd q) None) (fst q))
       else run_op A (fst q)
              (Connect_op
                 \<lparr>co_callback = k, co_step = 0, co_token = wp_of (cancelation_token (fst q)),
                  co_endpoint = ep, co_auth = auth_info_copy au, co_database = db,
                  co_flags = fl, co_result = False\<rparr>) (snd q) 0)"
    by (simp add: mdb_async_connect_def p_def q_def Let_def case_prod_unfold)
  have "step_ok A (if failed (snd p) then fst p else fst q) {#k#} s'"
    using assms init q
      posted_step [of A "fst p" "Completion k (snd p) None"]
      posted_step [of A "fst q" "Completion k (snd q) None"]
    by (auto simp: call plain_call_def simp del: run_op.simps split: if_splits
        dest!: started_step)
  moreover have "step_ok A s {#} (if failed (snd p) then fst p else fst q)"
    using plain_step [OF p, of A] plain_step [OF plain_call_trans [OF p q], of A] by simp
  ultimately show ?thesis using step_ok_trans by fastforce
qed

lemma fresh_ops_step:
  "mdb_async_query A s stmt k = Some s' \<Longrightarrow> step_ok A s {#k#} s'"
  "mdb_async_store_result A s k = Some s' \<Longrightarrow> step_ok A s {#k#} s'"
  "mdb_async_query_result A s stmt k = Some s' \<Longrightarrow> step_ok A s {#k#} s'"
  using posted_step [of A s "Completion k (misc_error_code Not_initialized) None"]
    posted_step [of A s "Completion k (misc_error_code Not_initialized) (Some empty_set)"]
  by (auto simp: mdb_async_query_def mdb_async_store_result_def mdb_async_query_result_def
      mdb_is_open_def simp del: run_op.simps split: if_splits dest!: started_step)

text \<open>Closing or cancelling expires the token of every operation of the connection.\<close>

lemma stopped_ops:
  assumes "mdb_inv s" and "evolves s s'" and "expired (wp_of (cancelation_token s)) s'"
    and "q \<in> set (ops s)"
  shows "expired (op_token q) s' \<and> weak_allocated (op_token q) s'"
proof -
  have "tok_ok s (op_token q)"
    using assms(1,4) by (simp add: mdb_inv_def)
  then show ?thesis
    using assms(2,3) evolves_expired evolves_weak_allocated unfolding tok_ok_def by metis
qed

lemma stopped_inv:
  assumes "mdb_inv s" and "evolves s s'" and "expired (wp_of (cancelation_token s)) s'"
    and "set (ops s') \<subseteq> set (ops s)" and "impl_inv s'"
  shows "mdb_inv s'"
  using assms stopped_ops [OF assms(1-3)] by (auto simp: mdb_inv_def tok_ok_def)

lemma close_stages:
  obtains t where "mdb_close_implementation A s = cancel (free_result A t)" and "keeps s t"
    and "settled t = settled s" and "set (ops t) = set (ops s)"
proof
  define u where
    "u = (if initialized s
          then s\<lparr>mysql := c_mysql_close A (mysql s), initialized := False\<rparr> else s)"
  have u: "keeps s u" "same_io s u" by (simp_all add: u_def)
  define v where "v = ev_release A u"
  have v: "keeps s v" "settled v = settled s" "set (ops v) = set (ops s)"
    using u same_io_settled [OF u(2)] by (simp_all add: v_def ev_release_def ev_cancel_def)
  define w where "w = (if timer_set v then timer_cancel A v else v)"
  have w: "keeps s w" "settled w = settled s" "set (ops w) = set (ops s)"
    using v by (simp_all add: w_def timer_cancel_def)
  let ?t = "w\<lparr>first_result_stored := False\<rparr>"
  show "mdb_close_implementation A s = cancel (free_result A ?t)"
    by (simp add: mdb_close_implementation_def u_def v_def w_def Let_def)
  show "keeps s ?t" and "settled ?t = settled s" and "set (ops ?t) = set (ops s)"
    using w by (simp_all add: settled_def held_def ops_def)
qed

lemma stop_step:
  assumes "s' = mdb_close A s \<and> mdb_is_open s \<or> s' = mdb_cancel s"
  shows "step_ok A s {#} s'" and "mdb_inv s \<Longrightarrow> expired (wp_of (cancelation_token s)) s'"
proof -
  obtain t where t: "s' = cancel t" "keeps s t" "settled t = settled s"
      "set (ops t) = set (ops s)"
  proof (cases "s' = mdb_cancel s")
    case True
    then show thesis using that [of s] by (simp add: mdb_cancel_def)
  next
    case False
    obtain u where u: "mdb_close_implementation A s = cancel (free_result A u)" "keeps s u"
        "settled u = settled s" "set (ops u) = set (ops s)"
      by (rule close_stages)
    have "keeps s (free_result A u)" using u(2) keeps_trans by blast
    then show thesis
      using that [of "free_result A u"] u False assms
        same_io_settled [of u "free_result A u"] by (simp add: mdb_close_def)
  qed
  have ev: "evolves s s'"
    using t(1,2) cancel_evolves evolves_trans by (auto simp: keeps_def)
  have io: "settled s' = settled s" "set (ops s') = set (ops s)"
    using t same_io_settled [of t "cancel t"] by simp_all
  show ex: "expired (wp_of (cancelation_token s)) s'" if "mdb_inv s"
    using that t(1,2) cancel_expires [of t] by (simp add: keeps_def mdb_inv_def)
  show "step_ok A s {#} s'"
    using stopped_inv [OF _ ev ex] ev io t(1,2)
    by (auto simp: step_ok_def mdb_inv_def keeps_def counts_def cancel_inv)
qed

lemma close_step: "step_ok A s {#} (mdb_close A s)"
  using stop_step(1) [of "mdb_close A s" A s]
  by (cases "mdb_is_open s") (simp_all add: mdb_close_def step_ok_def counts_def)

lemma event_step:
  assumes "waits s = xs @ w # ys"
  shows "step_ok A s {#} (s\<lparr>waits := xs @ ys, ready := ready s @ [resume_with A no_error w]\<rparr>)"
    (is "step_ok A s _ ?s'")
proof -
  have "settled ?s' = settled s" and "set (ops ?s') = set (ops s)"
    using assms by (auto simp: settled_def held_def ops_def resume_with_def)
  moreover have "keeps s ?s'" by simp
  ultimately show ?thesis
    using mdb_inv_keeps [of s ?s'] by (auto simp: step_ok_def counts_def keeps_def)
qed

lemma run_step:
  assumes "ready s = xs @ r # ys"
    and "run_op A (s\<lparr>ready := xs @ ys\<rparr>) (rdy_op r) (rdy_code r) (rdy_status r) = Some s'"
  shows "step_ok A s {#} s'"
proof -
  let ?t = "s\<lparr>ready := xs @ ys\<rparr>" and ?p = "rdy_op r"
  have t: "settled s = add_mset (op_callback ?p) (settled ?t)" "?p \<in> set (ops s)"
      "set (ops ?t) \<subseteq> set (ops s)"
    using assms(1) by (auto simp: settled_def held_def ops_def)
  show ?thesis
  proof (cases "mdb_inv s")
    case True
    then have p: "parked ?p" "tok_ok s (op_token ?p)"
      using t(2) by (simp_all add: mdb_inv_def)
    have inv: "mdb_inv ?t"
      using mdb_inv_keeps [OF True, of ?t] t(3) by simp
    have m: "moves A ?t ?p s'"
      using run_op_moves [OF assms(2)] p(1) by blast
    have "tok_ok ?t (op_token ?p)"
      using tok_ok_keeps [OF p(2), of ?t] by simp
    then have "mdb_inv s'" using moves_inv [OF inv _ m] by blast
    moreover have "counts A s {#} s'"
      using counts_shift [OF t(1) moves_counts [OF m]] .
    moreover have "evolves s s'"
      using m by (simp add: moves_def keeps_def evolves_def)
    ultimately show ?thesis by (simp add: step_ok_def)
  qed (simp add: step_ok_def)
qed

lemma deliver_step:
  assumes "posted s = xs @ c # ys"
  shows "step_ok A s {#} (invoke_callback c (s\<lparr>posted := xs @ ys\<rparr>))" (is "step_ok A s _ ?s'")
proof -
  have "settled ?s' = settled s" and "ops ?s' = ops s"
    using assms by (auto simp: settled_def held_def ops_def invoke_callback_def)
  moreover have "keeps s ?s'" and "initialized ?s' = initialized s"
    by (simp_all add: invoke_callback_def)
  ultimately show ?thesis
    using mdb_inv_keeps [of s ?s'] by (auto simp: step_ok_def counts_def keeps_def)
qed

lemma mdb_step_ok:
  assumes "mdb_step A s k s'"
  shows "step_ok A s (case k of None \<Rightarrow> {#} | Some i \<Rightarrow> {#i#}) s'"
  using assms
  by cases
     (auto intro: plain_step plain_calls close_step stop_step event_step run_step deliver_step
       async_connect_step fresh_ops_step)

lemma mdb_run_ok: "mdb_run A s ks s' \<Longrightarrow> step_ok A s (mset ks) s'"
proof (induction rule: mdb_run.induct)
  case (mdb_run_start s)
  then show ?case by (simp add: step_ok_def counts_def)
next
  case (mdb_run_call s ks s' s'')
  then show ?case using mdb_step_ok [of A s' None s''] step_ok_trans by fastforce
next
  case (mdb_run_issue s ks s' k s'')
  then show ?case using mdb_step_ok [of A s' "Some k" s''] step_ok_trans by fastforce
qed

lemma new_connection_inv:
  assumes "heap_wf h"
  shows "mdb_inv (new_connection m h)" and "settled (new_connection m h) = {#}"
  using assms
  by (auto simp: mdb_inv_def new_connection_defs settled_def held_def ops_def impl_inv_def
      sp_make_def heap_wf_def)

end
