(* ===== verification/Mariadb_Refinement.thy ===== *)
theory Mariadb_Refinement
  imports Mariadb_Runs Result_Stream Embedding
begin

text \<open>
  The composed operations against the blocking ones.  If the non-blocking calls of the
  library come to the same as its blocking calls, then an operation that is started on an
  idle connection and whose events occur one after the other ends with the state, the error
  code and the result set of the blocking operation.
\<close>

section \<open>The contract of the non-blocking calls\<close>

definition first_event :: "'h mysql_headers_scheme \<Rightarrow> i32 \<Rightarrow> i32" where
  "first_event H status =
     (if has_event status (MYSQL_WAIT_READ H) then MYSQL_WAIT_READ H
      else if has_event status (MYSQL_WAIT_WRITE H) then MYSQL_WAIT_WRITE H
      else MYSQL_WAIT_TIMEOUT H)"

text \<open>
  A call may wait if it waits for an event that the service knows, has a socket, and has not
  recorded an error.
\<close>

definition may_wait :: "('m, 'a) mariadb_api_scheme \<Rightarrow> 'm \<Rightarrow> i32 \<Rightarrow> bool" where
  "may_wait A m status \<longleftrightarrow>
     supported A status \<and> c_mysql_get_socket A m \<noteq> - 1 \<and> c_mysql_errno A m = 0"

text \<open>
  \<open>settles A cont r0 n call\<close>: what a call comes to that has returned \<open>call\<close> and is continued
  with the event it asks for, at most \<open>n\<close> times.  While it waits it does not touch its result
  variable, which has the value \<open>r0\<close>.
\<close>

fun settles ::
  "('m, 'a) mariadb_api_scheme \<Rightarrow> ('r \<Rightarrow> 'm \<Rightarrow> i32 \<Rightarrow> 'm \<times> 'r \<times> i32) \<Rightarrow> 'r \<Rightarrow> nat \<Rightarrow>
     'm \<times> 'r \<times> i32 \<Rightarrow> ('m \<times> 'r) option" where
  "settles A cont r0 0 (m, r, status) = (if status = 0 then Some (m, r) else None)"
| "settles A cont r0 (Suc n) (m, r, status) =
     (if status = 0 then Some (m, r)
      else if r = r0 \<and> may_wait A m status
      then settles A cont r0 n (cont r m (first_event A status)) else None)"

section \<open>Serving the events of a connection\<close>

text \<open>
  \<open>serve A n s\<close>: while exactly one operation waits and none is ready, its event occurs and it
  runs, up to \<open>n\<close> times.
\<close>

fun serve ::
  "('m, 'a) mariadb_api_scheme \<Rightarrow> nat \<Rightarrow> ('m, 'k, 'z) connection \<Rightarrow> ('m, 'k, 'z) connection option"
where
  "serve A 0 s = Some s"
| "serve A (Suc n) s =
     (case (waits s, ready s) of
        ([(src, p)], []) \<Rightarrow>
          Option.bind (run_op A (s\<lparr>waits := []\<rparr>) p no_error (event_bit A src)) (serve A n)
      | _ \<Rightarrow> Some s)"

lemma serve_add: "serve A (a + b) s = Option.bind (serve A a s) (serve A b)"
proof (induction a arbitrary: s)
  case (Suc a)
  have idle: "serve A b s = Some s" if "\<not> (\<exists>src p. waits s = [(src, p)] \<and> ready s = [])"
    using that by (cases b) (auto split: list.splits)
  show ?case
  proof (cases "\<exists>src p. waits s = [(src, p)] \<and> ready s = []")
    case True
    then obtain src p where w: "waits s = [(src, p)]" "ready s = []" by blast
    show ?thesis
      by (simp add: w Suc.IH bind_eq_Some_conv split: Option.bind_split)
  next
    case False
    then show ?thesis using idle by (auto split: list.splits)
  qed
qed simp

text \<open>What a call of the user, as a partial state, comes to by serving events.\<close>

definition comes_to ::
  "('m, 'a) mariadb_api_scheme \<Rightarrow> ('m, 'k, 'z) connection option \<Rightarrow> ('m, 'k, 'z) connection \<Rightarrow>
     bool" where
  "comes_to A x u \<longleftrightarrow> (\<exists>n. Option.bind x (serve A n) = Some u)"

lemma comes_to_now: "comes_to A (Some u) u"
  unfolding comes_to_def by (rule exI [of _ 0]) simp

lemma comes_to_served:
  assumes "waits t = [(src, p)]" and "ready t = []"
    and "comes_to A (run_op A (t\<lparr>waits := []\<rparr>) p no_error (event_bit A src)) u"
  shows "comes_to A (Some t) u"
proof -
  obtain n where "Option.bind (run_op A (t\<lparr>waits := []\<rparr>) p no_error (event_bit A src))
      (serve A n) = Some u"
    using assms(3) by (auto simp: comes_to_def)
  then have "serve A (Suc n) t = Some u" using assms(1,2) by simp
  then show ?thesis unfolding comes_to_def by (metis bind.bind_lunit)
qed

text \<open>Serving is a run of the connection.\<close>

lemma serve_run:
  assumes "mdb_run A s0 ks s" and "serve A n s = Some s'"
  shows "mdb_run A s0 ks s'"
  using assms
proof (induction n arbitrary: s)
  case (Suc n)
  show ?case
  proof (cases "\<exists>src p. waits s = [(src, p)] \<and> ready s = []")
    case True
    then obtain src p where w: "waits s = [(src, p)]" "ready s = []" by blast
    then obtain t where t: "run_op A (s\<lparr>waits := []\<rparr>) p no_error (event_bit A src) = Some t"
        "serve A n t = Some s'"
      using Suc.prems(2) by (auto simp: bind_eq_Some_conv)
    let ?r = "resume_with A no_error (src, p)"
    let ?s1 = "s\<lparr>waits := [], ready := [?r]\<rparr>"
    have "mdb_step A s None ?s1"
      using mdb_step_event [of s "[]" "(src, p)" "[]" A] w by simp
    moreover have "?s1\<lparr>ready := []\<rparr> = s\<lparr>waits := []\<rparr>"
      using w by (cases s) simp
    then have "mdb_step A ?s1 None t"
      using mdb_step_run [of ?s1 "[]" ?r "[]" A t] t(1) by (simp add: resume_with_def)
    ultimately have "mdb_run A s0 ks t"
      using Suc.prems(1) mdb_run_call by blast
    then show ?thesis using Suc.IH t(2) by blast
  next
    case False
    then have "s' = s" using Suc.prems(2) by (auto split: list.splits)
    then show ?thesis using Suc.prems(1) by simp
  qed
qed simp

section \<open>The connection without the io_service\<close>

lemma conn_io [simp]:
  "conn (s\<lparr>ev_fd := fd\<rparr>) = conn s" "conn (s\<lparr>timer_set := b\<rparr>) = conn s"
  "conn (s\<lparr>waits := w\<rparr>) = conn s" "conn (s\<lparr>ready := q\<rparr>) = conn s"
  "conn (s\<lparr>posted := c\<rparr>) = conn s" "conn (s\<lparr>invoked := d\<rparr>) = conn s"
  by (simp_all add: implementation.truncate_def)

lemma conn_invoke [simp]: "conn (invoke_callback c s) = conn s"
  by (simp add: invoke_callback_def)

text \<open>
  \<open>resumed b t\<close>: the idle state \<open>t\<close> differs from \<open>b\<close> in the state of the library, the
  descriptor and the timer only.
\<close>

definition resumed :: "('m, 'k, 'z) connection \<Rightarrow> ('m, 'k, 'z) connection \<Rightarrow> bool" where
  "resumed b t \<longleftrightarrow>
     waits t = [] \<and> ready t = [] \<and> posted t = posted b \<and> invoked t = invoked b \<and>
     conn (t\<lparr>mysql := mysql b\<rparr>) = conn b"

lemma resumed_self: "waits b = [] \<Longrightarrow> ready b = [] \<Longrightarrow> resumed b b"
  by (simp add: resumed_def)

lemma resumed_conn: "resumed b t \<Longrightarrow> (conn t)\<lparr>mysql := m\<rparr> = (conn b)\<lparr>mysql := m\<rparr>"
proof -
  assume "resumed b t"
  then have "(conn (t\<lparr>mysql := mysql b\<rparr>))\<lparr>mysql := m\<rparr> = (conn b)\<lparr>mysql := m\<rparr>"
    by (simp only: resumed_def)
  then show ?thesis by simp
qed

lemma resumed_token:
  assumes "resumed b t" and "impl_inv b"
  shows "\<not> expired (wp_of (cancelation_token b)) t"
proof -
  have "use_count (conn (t\<lparr>mysql := mysql b\<rparr>)) = use_count (conn b)"
    using assms(1) by (simp only: resumed_def)
  then have "use_count t = use_count b"
    by (simp only: conn_select) simp
  then show ?thesis
    using token_live [OF assms(2)] by (cases "cancelation_token b") auto
qed

section \<open>Waiting on an idle connection\<close>

lemma cancel_waits_idle: "waits s = [] \<Longrightarrow> cancel_waits H P s = s"
  by (cases s) (simp add: cancel_waits_def)

lemma timer_set_same: "timer_set s \<Longrightarrow> s\<lparr>timer_set := True\<rparr> = s"
  by (cases s) simp

lemma has_event_or: "has_event status (a OR b) \<longleftrightarrow> has_event status a \<or> has_event status b"
  by (simp add: has_event_def bit.conj_disj_distrib or_eq_0_iff)

lemma await_idle:
  assumes "resumed b t" and "may_wait A m status"
    and u_def: "u = async_wait_mysql A status p (t\<lparr>mysql := m\<rparr>)"
  obtains src where "waits u = [(src, p)]" and "ready u = []"
    and "event_bit A src = first_event A status" and "resumed b (u\<lparr>waits := []\<rparr>)"
    and "mysql u = m"
proof -
  define v where "v = assign_socket A status (t\<lparr>mysql := m\<rparr>)"
  have v: "resumed b v" "waits v = []" "ready v = []" "mysql v = m"
      "has_event status (read_or_write A) \<Longrightarrow> ev_fd v \<noteq> - 1"
    using assms(1,2)
    by (auto simp: v_def assign_socket_def ev_release_def ev_cancel_def cancel_waits_idle
        resumed_def may_wait_def)
  have socket: "\<not> assign_throws A status (t\<lparr>mysql := m\<rparr>)"
    using assms(2) by (simp add: assign_throws_def may_wait_def)
  have "stop_waits A v = v"
    using v(2) by (simp add: stop_waits_def ev_cancel_def timer_cancel_def cancel_waits_idle)
  then have u: "u = (if has_event status (MYSQL_WAIT_READ A) then ev_async_wait A Wait_read p v
      else if has_event status (MYSQL_WAIT_WRITE A) then ev_async_wait A Wait_write p v
      else timer_async_wait (c_mysql_get_timeout_value_ms A m) p (v\<lparr>timer_set := True\<rparr>))"
    using assms(2) v(2,4) socket
    by (auto simp: u_def async_wait_mysql_def v_def [symmetric] may_wait_def supported_def
        timer_cancel_def cancel_waits_idle timer_set_same)
  moreover have "has_event status (MYSQL_WAIT_READ A) \<or> has_event status (MYSQL_WAIT_WRITE A) \<Longrightarrow>
      ev_fd v \<noteq> - 1"
    using v(5) by (simp add: read_or_write_def has_event_or)
  ultimately obtain src w where w: "u = w\<lparr>waits := [(src, p)]\<rparr>" "event_bit A src = first_event A status"
      "w = v \<or> w = v\<lparr>timer_set := True\<rparr>"
    using v(2) by (auto simp: ev_async_wait_def timer_async_wait_def first_event_def
        split: if_splits)
  show thesis
  proof (rule that)
    show "waits u = [(src, p)]" and "ready u = []" and "event_bit A src = first_event A status"
      and "mysql u = m"
      using w v by auto
    show "resumed b (u\<lparr>waits := []\<rparr>)"
      using w(1,3) v(1,2) by (auto simp: resumed_def)
  qed
qed

section \<open>The law of a call that may wait\<close>

text \<open>
  A handler around one non-blocking call.  \<open>ret t c\<close> is what it does in the state \<open>t\<close> after
  the call has returned \<open>c\<close>.  The law: if the call waits, the handler registers itself, and
  when the event occurs it continues the call and goes on with what that returns.
\<close>

locale waiting_call =
  fixes A :: "('m, 'a) mariadb_api_scheme"
    and cont :: "'r \<Rightarrow> 'm \<Rightarrow> i32 \<Rightarrow> 'm \<times> 'r \<times> i32"
    and r0 :: 'r
    and b :: "('m, 'k, 'z) connection"
    and ret :: "('m, 'k, 'z) connection \<Rightarrow> 'm \<times> 'r \<times> i32 \<Rightarrow> ('m, 'k, 'z) connection option"
    and live :: bool
  assumes registers: "live \<Longrightarrow> resumed b t \<Longrightarrow> may_wait A m status \<Longrightarrow> status \<noteq> 0 \<Longrightarrow>
      \<exists>p. ret t (m, r0, status) = Some (async_wait_mysql A status p (t\<lparr>mysql := m\<rparr>)) \<and>
          (\<forall>t'. resumed b t' \<longrightarrow> mysql t' = m \<longrightarrow>
             run_op A t' p no_error (first_event A status) =
               ret t' (cont r0 m (first_event A status)))"
begin

text \<open>So the handler comes to what it does when the call returns its final result at once.\<close>

lemma settled_call:
  assumes "live" and "resumed b t" and "settles A cont r0 n c = Some (m', r')"
  shows "\<exists>t'. resumed b t' \<and>
           (\<forall>u. comes_to A (ret t' (m', r', 0)) u \<longrightarrow> comes_to A (ret t c) u)"
  using assms(2,3)
proof (induction n arbitrary: t c)
  case 0
  then show ?case by (cases c) (auto split: if_splits)
next
  case (Suc n)
  obtain m r status where c: "c = (m, r, status)" by (cases c)
  show ?case
  proof (cases "status = 0")
    case True
    then show ?thesis using Suc.prems c by auto
  next
    case False
    then have w: "r = r0" "may_wait A m status"
        "settles A cont r0 n (cont r0 m (first_event A status)) = Some (m', r')"
      using Suc.prems(2) c by (auto split: if_splits)
    obtain p where p: "ret t (m, r0, status) =
          Some (async_wait_mysql A status p (t\<lparr>mysql := m\<rparr>))"
        "\<And>t'. resumed b t' \<Longrightarrow> mysql t' = m \<Longrightarrow>
           run_op A t' p no_error (first_event A status) =
             ret t' (cont r0 m (first_event A status))"
      using registers [OF assms(1) Suc.prems(1) w(2) False] by blast
    let ?u = "async_wait_mysql A status p (t\<lparr>mysql := m\<rparr>)"
    obtain src where src: "waits ?u = [(src, p)]" "ready ?u = []"
        "event_bit A src = first_event A status" "resumed b (?u\<lparr>waits := []\<rparr>)" "mysql ?u = m"
      by (rule await_idle [OF Suc.prems(1) w(2) refl])
    obtain t' where t': "resumed b t'" "\<And>v. comes_to A (ret t' (m', r', 0)) v \<Longrightarrow>
        comes_to A (ret (?u\<lparr>waits := []\<rparr>) (cont r0 m (first_event A status))) v"
      using Suc.IH [OF src(4) w(3)] by blast
    have "comes_to A (ret t c) v" if "comes_to A (ret t' (m', r', 0)) v" for v
    proof -
      have "comes_to A (run_op A (?u\<lparr>waits := []\<rparr>) p no_error (event_bit A src)) v"
        using t'(2) [OF that] p(2) [OF src(4)] src(3,5) by simp
      then show ?thesis
        using comes_to_served [OF src(1,2)] p(1) c w(1) by simp
    qed
    then show ?thesis using t'(1) by blast
  qed
qed

end

section \<open>The handlers satisfy the law\<close>

lemma waiting_callI:
  assumes "\<And>t m status. live \<Longrightarrow> may_wait A m status \<Longrightarrow> status \<noteq> 0 \<Longrightarrow>
      ret t (m, r0, status) = Some (async_wait_mysql A status p (t\<lparr>mysql := m\<rparr>))"
    and "\<And>t e. live \<Longrightarrow> resumed b t \<Longrightarrow> run_op A t p no_error e = ret t (cont r0 (mysql t) e)"
  shows "waiting_call A cont r0 b ret live"
  by unfold_locales (use assms in blast)

text \<open>The error code after a call that has returned the status \<open>status\<close>.\<close>

definition call_code ::
  "('r \<Rightarrow> 'm \<Rightarrow> error_code \<Rightarrow> error_code) \<Rightarrow> 'm \<times> 'r \<times> i32 \<Rightarrow> error_code" where
  "call_code wrap c =
     (case c of (m, r, status) \<Rightarrow>
        wrap r m (if status = 0 then no_error else misc_error_code Unknown_misc))"

lemma nb_call_code:
  "mysql_start H wrap c ec = (fst c, fst (snd c), snd (snd c), call_code wrap c)"
  "mysql_continue H wrap c ec = (fst c, fst (snd c), snd (snd c), call_code wrap c)"
  by (cases c; simp add: mysql_start_cases mysql_continue_cases call_code_def)+

lemma waiting_code:
  assumes "may_wait A m status"
  shows "\<not> failed (call_code (error_wrapper_int A) (m, - 1, status))"
    and "\<not> failed (call_code (wrap_handle A) (m, False, status))"
    and "\<not> failed (call_code (wrap_result A) (m, None, status))"
  using assms
  by (simp_all add: call_code_def may_wait_def wrap_handle_def wrap_result_def failed_wrappers)

text \<open>The operation belongs to the connection: its token is the one of the connection.\<close>

definition owns :: "('m, 'k, 'z) connection \<Rightarrow> unit weak_ptr \<Rightarrow> bool" where
  "owns b w \<longleftrightarrow> impl_inv b \<and> w = wp_of (cancelation_token b)"

lemma abort_live:
  "owns b w \<Longrightarrow> resumed b t \<Longrightarrow> abort_if_expired H w t ec = ec"
  by (simp add: owns_def abort_if_expired_def resumed_token)

definition connect_ret ::
  "('m, 'a) mariadb_api_scheme \<Rightarrow> 'k connect_op \<Rightarrow> ('m, 'k, 'z) connection \<Rightarrow> 'm \<times> bool \<times> i32 \<Rightarrow>
     ('m, 'k, 'z) connection option" where
  "connect_ret A p t c =
     Some (connect_wait A (t\<lparr>mysql := fst c\<rparr>) (p\<lparr>co_result := fst (snd c)\<rparr>)
             (call_code (wrap_handle A) c) (snd (snd c)))"

interpretation connect_call: waiting_call A "c_mysql_real_connect_cont A" False b
  "connect_ret A p" "owns b (co_token p)" for A b p
  by (rule waiting_callI [where p = "Connect_op (p\<lparr>co_result := False, co_step := 1\<rparr>)"])
     (simp_all add: waiting_code abort_live nb_call_code wait_finish_def Let_def
       connect_ret_def connect_wait_def connect_handler_def mysql_real_connect_cont_def)

definition query_ret ::
  "('m, 'a) mariadb_api_scheme \<Rightarrow> 'k query_op \<Rightarrow> ('m, 'k, 'z) connection \<Rightarrow> 'm \<times> i32 \<times> i32 \<Rightarrow>
     ('m, 'k, 'z) connection option" where
  "query_ret A p t c =
     Some (query_wait A (t\<lparr>mysql := fst c\<rparr>) (p\<lparr>qo_result := fst (snd c)\<rparr>)
             (call_code (error_wrapper_int A) c) (snd (snd c)))"

interpretation query_call: waiting_call A "c_mysql_real_query_cont A" "- 1" b
  "query_ret A p" "owns b (qo_token p)" for A b p
  by (rule waiting_callI [where p = "Query_op (p\<lparr>qo_result := - 1, qo_step := 1\<rparr>)"])
     (simp_all add: waiting_code abort_live nb_call_code wait_finish_def Let_def
       query_ret_def query_wait_def query_handler_def mysql_real_query_cont_def)

definition store_ret ::
  "('m, 'a) mariadb_api_scheme \<Rightarrow> 'k store_op \<Rightarrow> ('m, 'k, 'z) connection \<Rightarrow>
     'm \<times> res_ptr option \<times> i32 \<Rightarrow> ('m, 'k, 'z) connection option" where
  "store_ret A p t c =
     (let t1 = t\<lparr>mysql := fst c\<rparr>; p1 = p\<lparr>so_step := Store_cont_store, so_result := fst (snd c)\<rparr>;
          ec = call_code (wrap_result A) c; status = snd (snd c)
      in if failed ec \<or> status = wait_finish
         then finish_with_result A t1 (so_callback p1) (so_result p1) ec
         else Some (async_wait_mysql A status (Store_op p1) t1))"

interpretation store_call: waiting_call A "c_mysql_store_result_cont A" None b
  "store_ret A p" "owns b (so_token p)" for A b p
  by (rule waiting_callI [where p = "Store_op (p\<lparr>so_step := Store_cont_store, so_result := None\<rparr>)"])
     (simp_all add: waiting_code abort_live nb_call_code wait_finish_def Let_def
       store_ret_def store_result_handler.simps [of A] store_pass_def store_cont_def
       mysql_store_result_cont_def)

definition next_ret ::
  "('m, 'a) mariadb_api_scheme \<Rightarrow> 'k store_op \<Rightarrow> ('m, 'k, 'z) connection \<Rightarrow> 'm \<times> i32 \<times> i32 \<Rightarrow>
     ('m, 'k, 'z) connection option" where
  "next_ret A p t c =
     (let t1 = t\<lparr>mysql := fst c\<rparr>; p1 = p\<lparr>so_step := Store_cont_next, so_next_result := fst (snd c)\<rparr>;
          ec = call_code (error_wrapper_int A) c; status = snd (snd c)
      in if failed ec then finish_with_result A t1 (so_callback p1) (so_result p1) ec
         else if status = wait_finish
         then store_result_handler A t1 (p1\<lparr>so_step := Store_store_start\<rparr>) ec status
         else Some (async_wait_mysql A status (Store_op p1) t1))"

interpretation next_call: waiting_call A "c_mysql_next_result_cont A" "- 1" b
  "next_ret A p" "owns b (so_token p)" for A b p
  by (rule waiting_callI [where p = "Store_op (p\<lparr>so_step := Store_cont_next, so_next_result := - 1\<rparr>)"])
     (simp_all add: waiting_code abort_live nb_call_code wait_finish_def Let_def
       next_ret_def store_result_handler.simps [of A] store_pass_def store_cont_def
       mysql_next_result_cont_def)

definition qr_store_ret ::
  "('m, 'a) mariadb_api_scheme \<Rightarrow> 'k query_result_op \<Rightarrow> ('m, 'k, 'z) connection \<Rightarrow>
     'm \<times> res_ptr option \<times> i32 \<Rightarrow> ('m, 'k, 'z) connection option" where
  "qr_store_ret A p t c =
     (let t1 = t\<lparr>mysql := fst c\<rparr>; p1 = p\<lparr>ro_step := Query_cont_store, ro_result := fst (snd c)\<rparr>;
          ec = call_code (wrap_result A) c; status = snd (snd c)
      in if failed ec \<or> status = wait_finish
         then finish_with_result A t1 (ro_callback p1) (ro_result p1) ec
         else Some (async_wait_mysql A status (Query_result_op p1) t1))"

interpretation qr_store_call: waiting_call A "c_mysql_store_result_cont A" None b
  "qr_store_ret A p" "owns b (ro_token p)" for A b p
  by (rule waiting_callI [where p =
        "Query_result_op (p\<lparr>ro_step := Query_cont_store, ro_result := None\<rparr>)"])
     (simp_all add: waiting_code abort_live nb_call_code wait_finish_def Let_def
       qr_store_ret_def query_result_handler.simps [of A] qr_pass_def qr_cont_def
       mysql_store_result_cont_def)

definition qr_query_ret ::
  "('m, 'a) mariadb_api_scheme \<Rightarrow> 'k query_result_op \<Rightarrow> ('m, 'k, 'z) connection \<Rightarrow>
     'm \<times> i32 \<times> i32 \<Rightarrow> ('m, 'k, 'z) connection option" where
  "qr_query_ret A p t c =
     (let t1 = t\<lparr>mysql := fst c\<rparr>;
          p1 = p\<lparr>ro_step := Query_cont_query, ro_query_result := fst (snd c)\<rparr>;
          ec = call_code (error_wrapper_int A) c; status = snd (snd c)
      in if failed ec then finish_with_result A t1 (ro_callback p1) (ro_result p1) ec
         else if status = wait_finish
         then query_result_handler A t1 (p1\<lparr>ro_step := Query_store_start\<rparr>) ec status
         else Some (async_wait_mysql A status (Query_result_op p1) t1))"

interpretation qr_query_call: waiting_call A "c_mysql_real_query_cont A" "- 1" b
  "qr_query_ret A p" "owns b (ro_token p)" for A b p
  by (rule waiting_callI [where p =
        "Query_result_op (p\<lparr>ro_step := Query_cont_query, ro_query_result := - 1\<rparr>)"])
     (simp_all add: waiting_code abort_live nb_call_code wait_finish_def Let_def
       qr_query_ret_def query_result_handler.simps [of A] qr_pass_def qr_cont_def
       mysql_real_query_cont_def)

section \<open>From the contract to the blocking operation\<close>

definition query_agrees ::
  "('m, 'a) mariadb_api_scheme \<Rightarrow> nat \<Rightarrow> 'm \<Rightarrow> string \<Rightarrow> bool" where
  "query_agrees A n m stmt \<longleftrightarrow>
     settles A (c_mysql_real_query_cont A) (- 1) n
       (c_mysql_real_query_start A (- 1) m (c_str stmt) (of_nat (length stmt))) =
     Some (c_mysql_real_query A m (c_str stmt) (of_nat (length stmt)))"

definition next_agrees :: "('m, 'a) mariadb_api_scheme \<Rightarrow> nat \<Rightarrow> 'm \<Rightarrow> bool" where
  "next_agrees A n m \<longleftrightarrow>
     settles A (c_mysql_next_result_cont A) (- 1) n (c_mysql_next_result_start A (- 1) m) =
     Some (c_mysql_next_result A m)"

definition store_agrees :: "('m, 'a) mariadb_api_scheme \<Rightarrow> nat \<Rightarrow> 'm \<Rightarrow> bool" where
  "store_agrees A n m \<longleftrightarrow>
     settles A (c_mysql_store_result_cont A) None n (c_mysql_store_result_start A None m) =
     Some (c_mysql_store_result A m)"

definition connect_agrees ::
  "('m, 'a) mariadb_api_scheme \<Rightarrow> nat \<Rightarrow> 'm \<Rightarrow> endpoint \<Rightarrow> auth_info \<Rightarrow> string \<Rightarrow> u64 \<Rightarrow> bool" where
  "connect_agrees A n m ep auth database fl \<longleftrightarrow>
     settles A (c_mysql_real_connect_cont A) False n
       (c_mysql_real_connect_start A False m (ep_host ep) (user auth) (password auth)
          (c_str database) (ep_port ep) (ep_unix_socket ep) fl) =
     Some (c_mysql_real_connect A m (ep_host ep) (user auth) (password auth)
             (c_str database) (ep_port ep) (ep_unix_socket ep) fl)"

text \<open>
  How an operation ends: nothing waits, the callback has been invoked once with \<open>ec\<close> and
  \<open>rs\<close>, and the connection is that of \<open>v\<close>.  Where the blocking operation fails to store a
  result it leaves a pointer to null behind, the composed one an empty pointer; then the two
  states agree in everything but the control blocks.
\<close>

definition view ::
  "('m, 'z) implementation_scheme \<Rightarrow> 'm \<times> u64 \<times> bool \<times> bool \<times> res_ptr option \<times> unit shared_ptr"
where
  "view s = (mysql s, flags s, initialized s, first_result_stored s, sp_get (last_result s),
             cancelation_token s)"

definition ends_as ::
  "('m, 'a) mariadb_api_scheme \<Rightarrow> ('m, 'k, 'z) connection option \<Rightarrow> ('m, 'k, 'z) connection \<Rightarrow>
     ('m, 'k, 'z) connection \<Rightarrow> 'k completion \<Rightarrow> bool" where
  "ends_as A x s v c \<longleftrightarrow>
     (\<exists>u. comes_to A x u \<and> waits u = [] \<and> ready u = [] \<and> posted u = posted s \<and>
          invoked u = invoked s @ [c] \<and>
          (conn u = conn v \<or> failed (comp_code c) \<and> view u = view v))"

lemma ends_now:
  assumes "resumed s t" and "conn (t\<lparr>mysql := m\<rparr>) = conn v"
  shows "ends_as A (Some (invoke_callback c (t\<lparr>mysql := m\<rparr>))) s v c"
  unfolding ends_as_def
proof (intro exI conjI)
  show "comes_to A (Some (invoke_callback c (t\<lparr>mysql := m\<rparr>))) (invoke_callback c (t\<lparr>mysql := m\<rparr>))"
    by (rule comes_to_now)
  show "conn (invoke_callback c (t\<lparr>mysql := m\<rparr>)) = conn v \<or>
      failed (comp_code c) \<and> view (invoke_callback c (t\<lparr>mysql := m\<rparr>)) = view v"
    using assms(2) by simp
qed (use assms(1) in \<open>simp_all add: resumed_def invoke_callback_def\<close>)

lemma ends_if:
  assumes "ends_as A x s v c" and "\<And>u. comes_to A x u \<Longrightarrow> comes_to A y u"
    and "posted s = posted s'" and "invoked s = invoked s'"
  shows "ends_as A y s' v c"
  using assms unfolding ends_as_def by metis

lemma io_free_result [simp]:
  "waits (free_result A s) = waits s" "ready (free_result A s) = ready s"
  "posted (free_result A s) = posted s" "invoked (free_result A s) = invoked s"
  using same_io_free_result [of s A s] unfolding same_io_refl same_io_def by simp_all

lemma owns_free: "owns b w \<Longrightarrow> owns (free_result A b) w"
  by (simp add: owns_def free_result_inv frame_simps)

lemma owns_update [simp]:
  "owns (s\<lparr>mysql := m\<rparr>) w = owns s w" "owns (s\<lparr>flags := fl\<rparr>) w = owns s w"
  "owns (s\<lparr>first_result_stored := b\<rparr>) w = owns s w"
  by (simp_all add: owns_def frame_simps)

section \<open>Storing\<close>

lemma ends_with:
  assumes "waits t = []" and "ready t = []" and "posted t = posted s" and "invoked t = invoked s"
    and "conn t = conn v \<or> failed (comp_code c) \<and> view t = view v"
  shows "ends_as A (Some (invoke_callback c t)) s v c"
proof -
  have "view (invoke_callback c t) = view t"
    by (simp add: view_def invoke_callback_def)
  then show ?thesis
    unfolding ends_as_def
    using assms comes_to_now [of A "invoke_callback c t"]
    by (intro exI [of _ "invoke_callback c t"]) (simp add: invoke_callback_def [of c t])
qed

lemma io_reset [simp]:
  "waits (reset_last_result A r s) = waits s" "ready (reset_last_result A r s) = ready s"
  "posted (reset_last_result A r s) = posted s" "invoked (reset_last_result A r s) = invoked s"
  using same_io_reset [of s A r s] unfolding same_io_refl same_io_def by simp_all

lemma conn_eqD:
  assumes "conn x = conn y"
  shows "mysql x = mysql y" and "flags x = flags y" and "initialized x = initialized y"
    and "first_result_stored x = first_result_stored y" and "last_result x = last_result y"
    and "cancelation_token x = cancelation_token y"
  using arg_cong [OF assms, of mysql] arg_cong [OF assms, of flags]
    arg_cong [OF assms, of initialized] arg_cong [OF assms, of first_result_stored]
    arg_cong [OF assms, of last_result] arg_cong [OF assms, of cancelation_token]
  by simp_all

text \<open>The end of both handlers, against the blocking \<open>take_result\<close> on an equal connection.\<close>

lemma finish_ends:
  assumes "resumed b t" and "last_result b = Empty_ptr" and "conn y = conn b"
    and "c_mysql_store_result A (mysql y) = (m, r)"
    and "ms_take_result A y old = Some (v, rs, ec)"
  shows "ends_as A
           (finish_with_result A (t\<lparr>mysql := m\<rparr>) k r (call_code (wrap_result A) (m, r, 0)))
           b v (Completion k ec (Some rs))"
proof -
  define e where "e = call_code (wrap_result A) (m, r, 0)"
  have e: "e = error_wrapper_ptr A (r = None) m no_error"
    by (simp add: e_def call_code_def wrap_result_def)
  define z where "z = reset_last_result A r (y\<lparr>mysql := m\<rparr>)"
  define x where "x = reset_last_result A r (t\<lparr>mysql := m\<rparr>)"
  have ct: "conn (t\<lparr>mysql := m\<rparr>) = conn (y\<lparr>mysql := m\<rparr>)"
    using resumed_conn [OF assms(1), of m] assms(3) by simp
  then have cx: "conn x = conn z"
    by (simp only: x_def z_def conn_reset_last_result)
  have ly: "last_result y = Empty_ptr"
    using conn_eqD(5) [OF assms(3)] assms(2) by simp
  then have z: "mysql z = m" "last_result z = Shared (next_block y) r"
    by (simp_all add: z_def reset_last_result_def sp_make_def result_set_deleter_def)
  obtain m2 where take: "result_set_assign A m result_set_default (last_result z) e = Some (m2, rs, ec)"
      "v = z\<lparr>mysql := m2\<rparr>"
    using assms(4,5) z
    by (auto simp: ms_take_result_def mysql_store_result_def clear_error_def Let_def
        z_def [symmetric] e [symmetric] split: option.splits)
  show ?thesis
  proof (cases "failed e")
    case True
    then have "r = None" by (simp add: e failed_wrappers split: if_splits)
    then have rs: "rs = empty_set" "ec = e" "m2 = m"
      using take(1) z(2) by (simp_all add: assign_null_target result_set_default_def empty_set_def)
    have "view (t\<lparr>mysql := m\<rparr>) = view v"
      using conn_eqD [OF ct] ly take(2) rs(3) \<open>r = None\<close>
      by (simp add: view_def z_def frame_simps reset_last_result_def sp_make_def)
    then show ?thesis
      using True assms(1) rs unfolding e_def [symmetric]
      by (auto simp: finish_with_result_def resumed_def intro!: ends_with)
  next
    case False
    have "conn (x\<lparr>mysql := m2\<rparr>) = conn v" using cx take(2) by simp
    moreover have "finish_with_result A (t\<lparr>mysql := m\<rparr>) k r e =
        Some (invoke_callback (Completion k ec (Some rs)) (x\<lparr>mysql := m2\<rparr>))"
      using False take(1) conn_eqD [OF cx] z(1)
      by (simp add: finish_with_result_def Let_def flip: x_def)
    ultimately show ?thesis
      using assms(1) unfolding e_def [symmetric]
      by (auto simp: resumed_def x_def intro!: ends_with)
  qed
qed

lemma store_ends:
  assumes "owns b (so_token p)" and "resumed b b" and "last_result b = Empty_ptr"
    and "conn y = conn b" and "store_agrees A n (mysql b)"
    and "ms_take_result A y old = Some (v, rs, ec)"
  shows "ends_as A (store_ret A p b (c_mysql_store_result_start A None (mysql b))) b v
           (Completion (so_callback p) ec (Some rs))"
proof -
  obtain m r where q: "c_mysql_store_result A (mysql b) = (m, r)" by fastforce
  then have "settles A (c_mysql_store_result_cont A) None n
      (c_mysql_store_result_start A None (mysql b)) = Some (m, r)"
    using assms(5) by (simp add: store_agrees_def)
  from store_call.settled_call [OF assms(1,2) this] obtain t where t: "resumed b t"
      "\<And>u. comes_to A (store_ret A p t (m, r, 0)) u \<Longrightarrow>
        comes_to A (store_ret A p b (c_mysql_store_result_start A None (mysql b))) u"
    by blast
  have "ends_as A (store_ret A p t (m, r, 0)) b v (Completion (so_callback p) ec (Some rs))"
    using finish_ends [OF t(1) assms(3,4) _ assms(6), of m r "so_callback p"] q
      conn_eqD(1) [OF assms(4)]
    by (simp add: store_ret_def wait_finish_def Let_def)
  from ends_if [OF this t(2)] show ?thesis by simp
qed

text \<open>The start of \<open>mysql_store_result\<close> in the loop.\<close>

lemma connect_order:
  "s\<lparr>mysql := m, flags := fl\<rparr> = s\<lparr>flags := fl, mysql := m\<rparr>"
  by (cases s) simp

lemma store_op_order [simp]:
  "p\<lparr>so_result := r, so_step := st\<rparr> = p\<lparr>so_step := st, so_result := r\<rparr>"
  "p\<lparr>so_next_result := i, so_step := st\<rparr> = p\<lparr>so_step := st, so_next_result := i\<rparr>"
  by (cases p; simp)+

lemma store_start_ret:
  assumes "owns b (so_token p)" and "resumed b t" and "so_step p = Store_store_start"
    and "\<not> failed ec"
  shows "store_result_handler A t p ec status =
           store_ret A p (free_result A t)
             (c_mysql_store_result_start A (so_result p) (mysql (free_result A t)))"
  using assms
  by (simp add: store_result_handler.simps [of A t] store_pass_def abort_live store_start_def
      store_cont_def mysql_store_result_start_def nb_call_code store_ret_def wait_finish_def
      Let_def)

lemma next_ret_settled:
  assumes "owns b (so_token p)" and "resumed b t" and "last_result b = Empty_ptr"
    and "so_result p = None"
  shows "next_ret A p t (m, r, 0) =
           (let ec = call_code (error_wrapper_int A) (m, r, 0);
                p1 = p\<lparr>so_step := Store_store_start, so_next_result := r\<rparr>
            in if failed ec
               then Some (invoke_callback (Completion (so_callback p) ec (Some empty_set))
                            (t\<lparr>mysql := m\<rparr>))
               else store_ret A p1 (t\<lparr>mysql := m\<rparr>) (c_mysql_store_result_start A None m))"
proof -
  let ?t = "t\<lparr>mysql := m\<rparr>" and ?b = "b\<lparr>mysql := m\<rparr>"
  have r: "resumed ?b ?t" "owns ?b (so_token p)"
    using assms(1,2) resumed_conn [OF assms(2), of m] by (simp_all add: resumed_def)
  have "last_result t = Empty_ptr"
    using conn_eqD(5) [of "t\<lparr>mysql := mysql b\<rparr>" b] assms(2,3) by (simp add: resumed_def)
  then have "free_result A ?t = ?t" by (simp add: free_result_empty)
  then show ?thesis
    using store_start_ret [OF _ r(1), of "p\<lparr>so_step := Store_store_start, so_next_result := r\<rparr>"
        "call_code (error_wrapper_int A) (m, r, 0)" A 0] r(2) assms(4)
    by (simp add: next_ret_def Let_def wait_finish_def finish_with_result_def)
qed

lemma store_entry_next:
  assumes "owns s (so_token p)" and "waits s = []" and "ready s = []"
    and "so_step p = Store_entry" and "so_next_result p = - 1"
    and "first_result_stored s" and "mdb_has_more_results A (free_result A s)"
  shows "store_result_handler A s p no_error status =
           next_ret A p (free_result A s)
             (c_mysql_next_result_start A (- 1) (mysql (free_result A s)))"
proof -
  let ?b = "free_result A s"
  obtain m r st where c: "c_mysql_next_result_start A (- 1) (mysql ?b) = (m, r, st)"
    by (metis prod_cases3)
  define e where "e = call_code (error_wrapper_int A) (m, r, st)"
  let ?t = "?b\<lparr>mysql := m\<rparr>"
  have o: "owns ?t (so_token p)" "resumed ?t ?t"
    using assms(1-3) owns_free [of s "so_token p" A] by (simp_all add: resumed_self)
  have pass: "store_pass A s p no_error status =
      (if failed e then Break ?t (p\<lparr>so_next_result := r\<rparr>) e
       else if st \<noteq> 0 then Again ?t (p\<lparr>so_next_result := r, so_step := Store_wait_next\<rparr>) e st
       else store_start A ?t (p\<lparr>so_next_result := r\<rparr>) e st)"
    using assms c
    by (simp add: store_pass_def abort_live [OF assms(1) resumed_self] store_entry_def
        mysql_next_result_start_def nb_call_code e_def wait_finish_def Let_def)
  have again: "store_result_handler A ?t (p\<lparr>so_next_result := r, so_step := Store_wait_next\<rparr>) e st =
      Some (async_wait_mysql A st
        (Store_op (p\<lparr>so_step := Store_cont_next, so_next_result := r\<rparr>)) ?t)"
    if "\<not> failed e" "st \<noteq> 0"
    using that
    by (simp add: store_result_handler.simps [of A ?t] store_pass_def abort_live [OF o] store_cont_def
        wait_finish_def Let_def)
  have first: "store_result_handler A ?t (p\<lparr>so_step := Store_store_start, so_next_result := r\<rparr>) e st =
      (case store_start A ?t (p\<lparr>so_next_result := r\<rparr>) e st of
         Again s' p' ec' status' \<Rightarrow> store_result_handler A s' p' ec' status'
       | Waiting s' \<Rightarrow> Some s'
       | Break s' p' ec' \<Rightarrow> finish_with_result A s' (so_callback p') (so_result p') ec'
       | Assert_failed \<Rightarrow> None)"
    if "\<not> failed e"
    using that
    by (simp add: store_result_handler.simps [of A ?t] store_pass_def abort_live [OF o]
        store_start_def)
  have "next_ret A p ?b (m, r, st) =
      (if failed e then finish_with_result A ?t (so_callback p) (so_result p) e
       else if st = 0
       then store_result_handler A ?t (p\<lparr>so_step := Store_store_start, so_next_result := r\<rparr>) e st
       else Some (async_wait_mysql A st
              (Store_op (p\<lparr>so_step := Store_cont_next, so_next_result := r\<rparr>)) ?t))"
    by (simp add: next_ret_def wait_finish_def Let_def flip: e_def)
  then show ?thesis
    using again first
    by (cases "st = 0") (simp_all add: store_result_handler.simps [of A s] pass c)
qed

section \<open>Querying and storing\<close>

lemma query_op_order [simp]:
  "p\<lparr>ro_result := r, ro_step := st\<rparr> = p\<lparr>ro_step := st, ro_result := r\<rparr>"
  "p\<lparr>ro_query_result := i, ro_step := st\<rparr> = p\<lparr>ro_step := st, ro_query_result := i\<rparr>"
  by (cases p; simp)+

lemma qr_store_ends:
  assumes "owns b (ro_token p)" and "resumed b b" and "last_result b = Empty_ptr"
    and "conn y = conn b" and "store_agrees A n (mysql b)"
    and "ms_take_result A y old = Some (v, rs, ec)"
  shows "ends_as A (qr_store_ret A p b (c_mysql_store_result_start A None (mysql b))) b v
           (Completion (ro_callback p) ec (Some rs))"
proof -
  obtain m r where q: "c_mysql_store_result A (mysql b) = (m, r)" by fastforce
  then have "settles A (c_mysql_store_result_cont A) None n
      (c_mysql_store_result_start A None (mysql b)) = Some (m, r)"
    using assms(5) by (simp add: store_agrees_def)
  from qr_store_call.settled_call [OF assms(1,2) this] obtain t where t: "resumed b t"
      "\<And>u. comes_to A (qr_store_ret A p t (m, r, 0)) u \<Longrightarrow>
        comes_to A (qr_store_ret A p b (c_mysql_store_result_start A None (mysql b))) u"
    by blast
  have "ends_as A (qr_store_ret A p t (m, r, 0)) b v (Completion (ro_callback p) ec (Some rs))"
    using finish_ends [OF t(1) assms(3,4) _ assms(6), of m r "ro_callback p"] q
      conn_eqD(1) [OF assms(4)]
    by (simp add: qr_store_ret_def wait_finish_def Let_def)
  from ends_if [OF this t(2)] show ?thesis by simp
qed

lemma qr_store_start_ret:
  fixes A :: "('m, 'a) mariadb_api_scheme" and t :: "('m, 'k, 'z) connection"
  assumes "owns b (ro_token p)" and "resumed b t" and "ro_step p = Query_store_start"
    and "\<not> failed ec"
  defines "t1 \<equiv> (free_result A t)\<lparr>first_result_stored := True\<rparr>"
  shows "query_result_handler A t p ec status =
           qr_store_ret A p t1 (c_mysql_store_result_start A (ro_result p) (mysql t1))"
  using assms
  by (simp add: query_result_handler.simps [of A t] qr_pass_def abort_live qr_store_start_def
      qr_cont_def mysql_store_result_start_def nb_call_code qr_store_ret_def wait_finish_def
      Let_def)

lemma qr_query_ret_settled:
  assumes "owns b (ro_token p)" and "resumed b t" and "last_result b = Empty_ptr"
    and "ro_result p = None"
  shows "qr_query_ret A p t (m, r, 0) =
           (let ec = call_code (error_wrapper_int A) (m, r, 0);
                p1 = p\<lparr>ro_step := Query_store_start, ro_query_result := r\<rparr>
            in if failed ec
               then Some (invoke_callback (Completion (ro_callback p) ec (Some empty_set))
                            (t\<lparr>mysql := m\<rparr>))
               else qr_store_ret A p1 (t\<lparr>mysql := m, first_result_stored := True\<rparr>)
                      (c_mysql_store_result_start A None m))"
proof -
  let ?t = "t\<lparr>mysql := m\<rparr>" and ?b = "b\<lparr>mysql := m\<rparr>"
  have r: "resumed ?b ?t" "owns ?b (ro_token p)"
    using assms(1,2) resumed_conn [OF assms(2), of m] by (simp_all add: resumed_def)
  have "last_result t = Empty_ptr"
    using conn_eqD(5) [of "t\<lparr>mysql := mysql b\<rparr>" b] assms(2,3) by (simp add: resumed_def)
  then have "free_result A ?t = ?t" by (simp add: free_result_empty)
  then show ?thesis
    using qr_store_start_ret [OF _ r(1),
        of "p\<lparr>ro_step := Query_store_start, ro_query_result := r\<rparr>"
        "call_code (error_wrapper_int A) (m, r, 0)" A 0] r(2) assms(4)
    by (simp add: qr_query_ret_def Let_def wait_finish_def finish_with_result_def)
qed

lemma qr_entry_query:
  fixes A :: "('m, 'a) mariadb_api_scheme" and s :: "('m, 'k, 'z) connection"
  assumes "owns s (ro_token p)" and "waits s = []" and "ready s = []"
    and "ro_step p = Query_entry" and "ro_query_result p = - 1"
  defines "b \<equiv> (free_result A s)\<lparr>first_result_stored := False\<rparr>"
  shows "query_result_handler A s p no_error status =
           qr_query_ret A p b
             (c_mysql_real_query_start A (- 1) (mysql b) (c_str (ro_stmt p))
                (of_nat (length (ro_stmt p))))"
proof -
  obtain m r st where c: "c_mysql_real_query_start A (- 1) (mysql b) (c_str (ro_stmt p))
      (of_nat (length (ro_stmt p))) = (m, r, st)"
    by (metis prod_cases3)
  define e where "e = call_code (error_wrapper_int A) (m, r, st)"
  let ?t = "b\<lparr>mysql := m\<rparr>"
  have o: "owns ?t (ro_token p)" "resumed ?t ?t"
    using assms(1-3) owns_free [of s "ro_token p" A] by (simp_all add: b_def resumed_self)
  let ?p1 = "p\<lparr>ro_step := Query_store_start, ro_query_result := r\<rparr>"
  have pass: "qr_pass A s p no_error status =
      (if failed e then Break ?t (p\<lparr>ro_query_result := r\<rparr>) e
       else if st \<noteq> 0 then Again ?t (p\<lparr>ro_query_result := r, ro_step := Query_wait_query\<rparr>) e st
       else qr_store_start A ?t ?p1 e st)"
    using assms c
    by (simp add: qr_pass_def abort_live [OF assms(1) resumed_self] qr_entry_def
        mysql_real_query_start_def nb_call_code e_def wait_finish_def Let_def)
  have again: "query_result_handler A ?t (p\<lparr>ro_query_result := r, ro_step := Query_wait_query\<rparr>) e st =
      Some (async_wait_mysql A st
        (Query_result_op (p\<lparr>ro_step := Query_cont_query, ro_query_result := r\<rparr>)) ?t)"
    if "\<not> failed e" "st \<noteq> 0"
    using that
    by (simp add: query_result_handler.simps [of A ?t] qr_pass_def abort_live [OF o] qr_cont_def
        wait_finish_def Let_def)
  have first: "query_result_handler A ?t ?p1 e st =
      (case qr_store_start A ?t ?p1 e st of
         Again s' p' ec' status' \<Rightarrow> query_result_handler A s' p' ec' status'
       | Waiting s' \<Rightarrow> Some s'
       | Break s' p' ec' \<Rightarrow> finish_with_result A s' (ro_callback p') (ro_result p') ec'
       | Assert_failed \<Rightarrow> None)"
    if "\<not> failed e"
    using that
    by (simp add: query_result_handler.simps [of A ?t] qr_pass_def abort_live [OF o])
  have "qr_query_ret A p b (m, r, st) =
      (if failed e then finish_with_result A ?t (ro_callback p) (ro_result p) e
       else if st = 0 then query_result_handler A ?t ?p1 e st
       else Some (async_wait_mysql A st
              (Query_result_op (p\<lparr>ro_step := Query_cont_query, ro_query_result := r\<rparr>)) ?t))"
    by (simp add: qr_query_ret_def wait_finish_def Let_def flip: e_def)
  then show ?thesis
    using again first
    by (cases "st = 0") (simp_all add: query_result_handler.simps [of A s] pass c)
qed

lemma owns_resumed:
  assumes "owns b w" and "resumed b t"
  shows "owns t w" and "resumed t t"
proof -
  have c: "conn (t\<lparr>mysql := mysql b\<rparr>) = conn b" using assms(2) by (simp only: resumed_def)
  have "impl_inv (t\<lparr>mysql := mysql b\<rparr>)"
    using assms(1) c impl_inv_conn unfolding owns_def by metis
  then show "owns t w"
    using assms(1) conn_eqD(6) [OF c] by (simp add: owns_def frame_simps)
  show "resumed t t" using assms(2) by (simp add: resumed_def)
qed

text \<open>What the library has to agree on for one \<open>store_result\<close>.\<close>

definition store_contract ::
  "('m, 'a) mariadb_api_scheme \<Rightarrow> nat \<Rightarrow> nat \<Rightarrow> ('m, 'k, 'z) connection \<Rightarrow> bool" where
  "store_contract A n l s \<longleftrightarrow>
     (if first_result_stored s
      then let m0 = mysql (free_result A s)
           in mdb_has_more_results A (free_result A s) \<longrightarrow>
              next_agrees A n m0 \<and> store_agrees A l (fst (c_mysql_next_result A m0))
      else last_result s = Empty_ptr \<and> store_agrees A l (mysql s))"

lemma next_ends:
  assumes "owns b (so_token p)" and "resumed b b" and "last_result b = Empty_ptr"
    and "so_result p = None" and "next_agrees A n (mysql b)"
    and "store_agrees A l (fst (c_mysql_next_result A (mysql b)))"
    and "mysql_next_result A (mysql b) no_error = (m, r, e)"
    and "if failed e then (v, rs, ec) = (b\<lparr>mysql := m\<rparr>, empty_set, e)
         else ms_take_result A (b\<lparr>mysql := m\<rparr>) e = Some (v, rs, ec)"
  shows "ends_as A (next_ret A p b (c_mysql_next_result_start A (- 1) (mysql b))) b v
           (Completion (so_callback p) ec (Some rs))"
proof -
  have q: "c_mysql_next_result A (mysql b) = (m, r)"
      "e = call_code (error_wrapper_int A) (m, r, 0)"
    using assms(7) by (auto simp: mysql_next_result_def clear_error_def call_code_def
        split: prod.splits)
  then have "settles A (c_mysql_next_result_cont A) (- 1) n
      (c_mysql_next_result_start A (- 1) (mysql b)) = Some (m, r)"
    using assms(5) by (simp add: next_agrees_def)
  from next_call.settled_call [OF assms(1,2) this] obtain t where t: "resumed b t"
      "\<And>u. comes_to A (next_ret A p t (m, r, 0)) u \<Longrightarrow>
        comes_to A (next_ret A p b (c_mysql_next_result_start A (- 1) (mysql b))) u"
    by blast
  let ?t = "t\<lparr>mysql := m\<rparr>" and ?c = "Completion (so_callback p) ec (Some rs)"
  have ct: "conn (b\<lparr>mysql := m\<rparr>) = conn ?t"
    using resumed_conn [OF t(1), of m] by simp
  note settled = next_ret_settled [OF assms(1) t(1) assms(3,4), of A m r, folded q(2)]
  have "ends_as A (next_ret A p t (m, r, 0)) b v ?c"
  proof (cases "failed e")
    case True
    then have "ends_as A (Some (invoke_callback ?c ?t)) b v ?c"
      using assms(8) ct by (intro ends_now [OF t(1)]) simp
    then show ?thesis using True assms(8) settled by (simp add: Let_def)
  next
    case False
    let ?p = "p\<lparr>so_step := Store_store_start, so_next_result := r\<rparr>"
    have "ends_as A (store_ret A ?p ?t (c_mysql_store_result_start A None (mysql ?t))) ?t v
        (Completion (so_callback ?p) ec (Some rs))"
    proof (rule store_ends [where p = ?p and b = ?t and y = "b\<lparr>mysql := m\<rparr>" and n = l and old = e])
      show "owns ?t (so_token ?p)" and "resumed ?t ?t"
        using owns_resumed [OF assms(1) t(1)] by (simp_all add: resumed_def)
      show "last_result ?t = Empty_ptr"
        using conn_eqD(5) [OF ct] assms(3) by simp
      show "store_agrees A l (mysql ?t)" using assms(6) q(1) by simp
      show "ms_take_result A (b\<lparr>mysql := m\<rparr>) e = Some (v, rs, ec)"
        using assms(8) False by simp
    qed (rule ct)
    then have "ends_as A (next_ret A p t (m, r, 0)) ?t v ?c"
      using False settled by (simp add: Let_def)
    then show ?thesis
      by (rule ends_if) (use t(1) in \<open>simp_all add: resumed_def\<close>)
  qed
  from ends_if [OF this t(2)] show ?thesis by simp
qed

section \<open>A sample connection\<close>

text \<open>An open connection to the sample library, after the given statements.\<close>

definition sample_open :: "sample_result list list \<Rightarrow> (sample_server, nat) mariadb_connection" where
  "sample_open script =
     fst (mdb_open sample_mariadb
            (new_connection (sample_start script) \<lparr>next_block = 0, use_count = \<lambda>_. 0\<rparr>) no_error)"

definition sample_rows :: "(mysql_row \<times> u64 list) list" where
  "sample_rows = [([c_str ''17''], [2]), ([None], [0])]"

definition sample_queried ::
  "sample_result list list \<Rightarrow> (sample_server, nat) mariadb_connection" where
  "sample_queried script = fst (mdb_query sample_mariadb (sample_open script) ''q'' no_error)"

lemma plain_inv: "plain_call s s' \<Longrightarrow> impl_inv s \<Longrightarrow> impl_inv s'"
  by (simp add: plain_call_def keeps_def)

lemma sample_open_inv: "impl_inv (sample_open script)"
proof -
  have "mdb_inv (new_connection (sample_start script) \<lparr>next_block = 0, use_count = \<lambda>_. 0\<rparr>
      :: (sample_server, nat) mariadb_connection)"
    by (rule new_connection_inv) (simp add: heap_wf_def)
  then show ?thesis
    unfolding sample_open_def by (intro plain_inv [OF plain_open]) (simp add: mdb_inv_def)
qed

lemma sample_queried_inv: "impl_inv (sample_queried script)"
  unfolding sample_queried_def by (rule plain_inv [OF plain_query sample_open_inv])

lemma sample_queried_stores:
  obtains v rs ec where
    "mdb_store_result sample_mariadb (sample_queried [[sample_table]]) no_error = Some (v, rs, ec)"
    and "\<not> failed ec" and "rs_rows rs = Inr (map (row_of 1 [sample_column]) sample_rows)"
proof -
  let ?s = "sample_queried [[sample_table]]"
  let ?n = "ms_next_result sample_mariadb ?s no_error"
  have n: "snd ?n = no_error" "last_result (fst ?n) = Empty_ptr"
    "gives sample_mariadb (mysql (fst ?n)) (Table 1 [sample_column] sample_rows)"
    by code_simp+
  have "impl_inv (fst ?n)"
    by (rule plain_inv [OF plain_next_result sample_queried_inv])
  from take_result_gives [OF n(3,2) this, of no_error] obtain v rs ec
    where t: "ms_take_result sample_mariadb (fst ?n) no_error = Some (v, rs, ec)" "\<not> failed ec"
      "seen_as (v, rs) (Table 1 [sample_column] sample_rows)"
    by blast
  show thesis
  proof (rule that [of v rs ec])
    show "mdb_store_result sample_mariadb ?s no_error = Some (v, rs, ec)"
      using n(1) t(1) by (simp add: mdb_same ms_store_result_def split_beta)
    show "rs_rows rs = Inr (map (row_of 1 [sample_column]) sample_rows)"
      using t(3) by (simp only: seen_as.simps)
  qed (rule t(2))
qed

section \<open>Properties\<close>

lemma query_operation_ends:
  assumes "impl_inv s" and "mdb_is_open s" and "waits s = []" and "ready s = []"
    and "query_agrees A n (mysql (free_result A s)) stmt"
  shows "ends_as A (mdb_async_query A s stmt k) s (fst (mdb_query A s stmt no_error))
           (Completion k (snd (mdb_query A s stmt no_error)) None)"
proof -
  let ?b = "(free_result A s)\<lparr>first_result_stored := False\<rparr>"
  let ?p = "\<lparr>qo_callback = k, qo_step = 0, qo_token = wp_of (cancelation_token s),
             qo_stmt = stmt, qo_result = - 1\<rparr>"
  let ?c = "c_mysql_real_query_start A (- 1) (mysql ?b) (c_str stmt) (of_nat (length stmt))"
  obtain m r where q: "c_mysql_real_query A (mysql ?b) (c_str stmt) (of_nat (length stmt)) = (m, r)"
    by fastforce
  have o: "owns s (wp_of (cancelation_token s))" using assms(1) by (simp add: owns_def)
  have b: "resumed ?b ?b" "owns ?b (qo_token ?p)"
    using assms(3,4) owns_free [OF o, of A] by (simp_all add: resumed_self)
  have start: "mdb_async_query A s stmt k = query_ret A ?p ?b ?c"
    using assms(2)
    by (simp add: abort_live [OF o resumed_self [OF assms(3,4)]] mdb_async_query_def query_handler_def mysql_real_query_start_def nb_call_code
        query_ret_def query_wait_def Let_def)
  have "settles A (c_mysql_real_query_cont A) (- 1) n ?c = Some (m, r)"
    using assms(5) q by (simp add: query_agrees_def)
  from query_call.settled_call [where p = ?p, OF b(2,1) this] obtain t
    where t: "resumed ?b t"
      "\<And>u. comes_to A (query_ret A ?p t (m, r, 0)) u \<Longrightarrow> comes_to A (query_ret A ?p ?b ?c) u"
    by blast
  let ?ec = "error_wrapper_int A r m no_error"
  have "query_ret A ?p t (m, r, 0) = Some (invoke_callback (Completion k ?ec None) (t\<lparr>mysql := m\<rparr>))"
    by (simp add: query_ret_def query_wait_def wait_finish_def call_code_def)
  moreover have "mdb_query A s stmt no_error = (?b\<lparr>mysql := m\<rparr>, ?ec)"
    using assms(2) q by (simp add: mdb_query_def mysql_real_query_def clear_error_def)
  moreover have "conn (t\<lparr>mysql := m\<rparr>) = conn (?b\<lparr>mysql := m\<rparr>)"
    using resumed_conn [OF t(1)] by simp
  ultimately have "ends_as A (query_ret A ?p t (m, r, 0)) ?b (fst (mdb_query A s stmt no_error))
      (Completion k (snd (mdb_query A s stmt no_error)) None)"
    by (simp add: ends_now [OF t(1)])
  from ends_if [OF this t(2)] show ?thesis
    by (simp add: start)
qed

text \<open>
  C15. \<open>async_query\<close> does what \<open>query\<close> does: on an idle open connection, if the non-blocking
  query of the library comes to the same as its blocking query, then after the events it
  waits for the callback has been invoked exactly once, with the error code of the blocking
  operation, and the connection is in the state the blocking operation leaves.
\<close>

theorem async_query_refines:
  assumes "impl_inv s" and "mdb_is_open s" and "waits s = []" and "ready s = []"
    and "query_agrees A n (mysql (free_result A s)) stmt"
  shows "ends_as A (mdb_async_query A s stmt k) s (fst (mdb_query A s stmt no_error))
           (Completion k (snd (mdb_query A s stmt no_error)) None)"
  using assms by (rule query_operation_ends)

theorem async_query_refines_witness:
  "ends_as sample_mariadb (mdb_async_query sample_mariadb (sample_open [[sample_table]]) ''q'' 7)
     (sample_open [[sample_table]])
     (fst (mdb_query sample_mariadb (sample_open [[sample_table]]) ''q'' no_error))
     (Completion 7 no_error None)"
proof -
  let ?s = "sample_open [[sample_table]]"
  have h: "mdb_is_open ?s" "waits ?s = []" "ready ?s = []"
    "query_agrees sample_mariadb 3 (mysql (free_result sample_mariadb ?s)) ''q''"
    by code_simp+
  have "snd (mdb_query sample_mariadb ?s ''q'' no_error) = no_error" by code_simp
  with async_query_refines [OF sample_open_inv h, of 7] show ?thesis by simp
qed

text \<open>
  The three ways through \<open>store_result\<close>: the first result of a query, no further result, and a
  further one.
\<close>

abbreviation fresh_store_op :: "('m, 'k, 'z) connection \<Rightarrow> 'k \<Rightarrow> 'k store_op" where
  "fresh_store_op s k \<equiv>
     \<lparr>so_callback = k, so_step = Store_entry, so_token = wp_of (cancelation_token s),
      so_next_result = - 1, so_result = None\<rparr>"

lemma first_result_ends:
  assumes "impl_inv s" and "waits s = []" and "ready s = []" and "\<not> first_result_stored s"
    and "last_result s = Empty_ptr" and "store_agrees A l (mysql s)"
    and "ms_store_result A s no_error = Some (v, rs, ec)"
  shows "ends_as A (store_result_handler A s (fresh_store_op s k) no_error 0) s v
           (Completion k ec (Some rs))"
proof -
  let ?p = "fresh_store_op s k" and ?b = "s\<lparr>first_result_stored := True\<rparr>"
  have o: "owns s (so_token ?p)" using assms(1) by (simp add: owns_def)
  have b: "owns ?b (so_token ?p)" "resumed ?b ?b" "resumed s s" "free_result A ?b = ?b"
    using o assms(2,3,5) by (simp_all add: resumed_self free_result_empty)
  have "store_result_handler A s ?p no_error 0 =
      store_ret A ?p ?b (c_mysql_store_result_start A None (mysql ?b))"
    using assms(4) b(4)
    by (simp add: store_result_handler.simps [of A s] store_pass_def store_entry_def
        abort_live [OF o b(3), simplified] store_start_def store_cont_def
        mysql_store_result_start_def nb_call_code store_ret_def wait_finish_def Let_def)
  moreover have "ms_take_result A ?b no_error = Some (v, rs, ec)"
    using assms(4,7) by (simp add: ms_store_result_def ms_next_result_def)
  then have "ends_as A (store_ret A ?p ?b (c_mysql_store_result_start A None (mysql ?b))) ?b v
      (Completion (so_callback ?p) ec (Some rs))"
    using assms(5,6) by (intro store_ends [OF b(1,2) _ refl, where n = l and old = no_error]) simp_all
  ultimately show ?thesis using ends_if [of A _ ?b v _ _ s] by simp
qed

lemma no_further_result_ends:
  assumes "impl_inv s" and "waits s = []" and "ready s = []" and "first_result_stored s"
    and "\<not> mdb_has_more_results A (free_result A s)"
    and "ms_store_result A s no_error = Some (v, rs, ec)"
  shows "ends_as A (store_result_handler A s (fresh_store_op s k) no_error 0) s v
           (Completion k ec (Some rs))"
proof -
  let ?b = "free_result A s"
  have o: "owns s (so_token (fresh_store_op s k))" using assms(1) by (simp add: owns_def)
  have "(v, rs, ec) = (?b, empty_set, misc_error_code No_more_results)"
    using assms(4-6) by (simp add: mdb_same ms_store_result_def ms_next_result_def)
  moreover have "store_result_handler A s (fresh_store_op s k) no_error 0 =
      Some (invoke_callback
        (Completion k (misc_error_code No_more_results) (Some empty_set)) ?b)"
    using assms(4,5)
    by (simp add: store_result_handler.simps [of A s] store_pass_def store_entry_def
        abort_live [OF o resumed_self [OF assms(2,3)], simplified] finish_with_result_def)
  ultimately show ?thesis using assms(2,3) by (auto intro!: ends_with)
qed

lemma further_result_ends:
  assumes "impl_inv s" and "waits s = []" and "ready s = []" and "first_result_stored s"
    and "mdb_has_more_results A (free_result A s)" and "store_contract A n l s"
    and "ms_store_result A s no_error = Some (v, rs, ec)"
  shows "ends_as A (store_result_handler A s (fresh_store_op s k) no_error 0) s v
           (Completion k ec (Some rs))"
proof -
  let ?p = "fresh_store_op s k" and ?b = "free_result A s"
  have o: "owns s (so_token ?p)" using assms(1) by (simp add: owns_def)
  have b: "owns ?b (so_token ?p)" "resumed ?b ?b" "last_result ?b = Empty_ptr"
    using owns_free [OF o, of A] assms(2,3) by (simp_all add: resumed_self frame_simps)
  obtain m r e where nx: "mysql_next_result A (mysql ?b) no_error = (m, r, e)"
    by (metis prod_cases3)
  have "if failed e then (v, rs, ec) = (?b\<lparr>mysql := m\<rparr>, empty_set, e)
      else ms_take_result A (?b\<lparr>mysql := m\<rparr>) e = Some (v, rs, ec)"
    using assms(4,5,7) nx
    by (auto simp: mdb_same ms_store_result_def ms_next_result_def split: if_splits)
  then have "ends_as A (next_ret A ?p ?b (c_mysql_next_result_start A (- 1) (mysql ?b))) ?b v
      (Completion (so_callback ?p) ec (Some rs))"
    using assms(4-6)
    by (intro next_ends [OF b, where n = n and l = l and m = m and r = r and e = e])
       (simp_all add: store_contract_def nx Let_def)
  moreover have "store_result_handler A s ?p no_error 0 =
      next_ret A ?p ?b (c_mysql_next_result_start A (- 1) (mysql ?b))"
    using store_entry_next [OF o assms(2,3) _ _ assms(4,5)] by simp
  ultimately show ?thesis using ends_if [of A _ ?b v _ _ s] by simp
qed

lemma store_operation_ends:
  assumes "impl_inv s" and "mdb_is_open s" and "waits s = []" and "ready s = []"
    and "store_contract A n l s" and "mdb_store_result A s no_error = Some (v, rs, ec)"
  shows "ends_as A (mdb_async_store_result A s k) s v (Completion k ec (Some rs))"
proof -
  have start: "mdb_async_store_result A s k =
      store_result_handler A s (fresh_store_op s k) no_error 0"
    using assms(2) by (simp add: mdb_async_store_result_def)
  have blocking: "ms_store_result A s no_error = Some (v, rs, ec)"
    using assms(6) by (simp add: mdb_same)
  show ?thesis
  proof (cases "first_result_stored s")
    case False
    then have "last_result s = Empty_ptr" "store_agrees A l (mysql s)"
      using assms(5) by (simp_all add: store_contract_def)
    with first_result_ends [OF assms(1,3,4) False] blocking start show ?thesis by simp
  next
    case True
    with no_further_result_ends [OF assms(1,3,4) True]
      further_result_ends [OF assms(1,3,4) True _ assms(5)] blocking start
    show ?thesis by (cases "mdb_has_more_results A (free_result A s)") simp_all
  qed
qed

text \<open>
  C6. \<open>async_store_result\<close> does what \<open>store_result\<close> does: if the non-blocking calls of the
  library come to the same as its blocking calls, then after the events it waits for the
  callback has been invoked exactly once with the error code and the result set of the
  blocking operation.
\<close>

theorem async_store_result_refines:
  assumes "impl_inv s" and "mdb_is_open s" and "waits s = []" and "ready s = []"
    and "store_contract A n l s" and "mdb_store_result A s no_error = Some (v, rs, ec)"
  shows "ends_as A (mdb_async_store_result A s k) s v (Completion k ec (Some rs))"
  using assms by (rule store_operation_ends)

theorem async_store_result_refines_witness:
  "\<exists>v rs ec. ends_as sample_mariadb
     (mdb_async_store_result sample_mariadb (sample_queried [[sample_table]]) 7)
     (sample_queried [[sample_table]]) v (Completion 7 ec (Some rs)) \<and>
   \<not> failed ec \<and> rs_rows rs = Inr (map (row_of 1 [sample_column]) sample_rows)"
proof -
  let ?s = "sample_queried [[sample_table]]"
  have h: "mdb_is_open ?s" "waits ?s = []" "ready ?s = []" "store_contract sample_mariadb 2 2 ?s"
    by code_simp+
  obtain v rs ec where "mdb_store_result sample_mariadb ?s no_error = Some (v, rs, ec)"
      "\<not> failed ec" "rs_rows rs = Inr (map (row_of 1 [sample_column]) sample_rows)"
    by (rule sample_queried_stores)
  with async_store_result_refines [OF sample_queried_inv h, of v rs ec 7] show ?thesis by blast
qed

text \<open>What the library has to agree on for one \<open>query_result\<close>.\<close>

definition query_result_contract ::
  "('m, 'a) mariadb_api_scheme \<Rightarrow> nat \<Rightarrow> nat \<Rightarrow> ('m, 'k, 'z) connection \<Rightarrow> string \<Rightarrow> bool" where
  "query_result_contract A n l s stmt \<longleftrightarrow>
     (let m0 = mysql (free_result A s)
      in query_agrees A n m0 stmt \<and>
         store_agrees A l (fst (c_mysql_real_query A m0 (c_str stmt) (of_nat (length stmt)))))"

text \<open>From the end of the query on.\<close>

lemma qr_query_ends:
  fixes r :: i32
  assumes "owns b (ro_token p)" and "resumed b t" and "last_result b = Empty_ptr"
    and "ro_result p = None" and "store_agrees A l m"
  defines "e \<equiv> call_code (error_wrapper_int A) (m, r, 0)"
  assumes "if failed e then (v, rs, ec) = (b\<lparr>mysql := m\<rparr>, empty_set, e)
           else ms_take_result A (b\<lparr>mysql := m, first_result_stored := True\<rparr>) e = Some (v, rs, ec)"
  shows "ends_as A (qr_query_ret A p t (m, r, 0)) b v (Completion (ro_callback p) ec (Some rs))"
proof -
  let ?t = "t\<lparr>mysql := m\<rparr>" and ?done = "Completion (ro_callback p) ec (Some rs)"
  have ct: "conn (b\<lparr>mysql := m\<rparr>) = conn ?t" using resumed_conn [OF assms(2), of m] by simp
  note settled = qr_query_ret_settled [OF assms(1-4), of A m r, folded e_def]
  show ?thesis
  proof (cases "failed e")
    case True
    then have "ends_as A (Some (invoke_callback ?done ?t)) b v ?done"
      using assms(7) ct by (intro ends_now [OF assms(2)]) simp
    then show ?thesis using True assms(7) settled by (simp add: Let_def)
  next
    case False
    let ?p1 = "p\<lparr>ro_step := Query_store_start, ro_query_result := r\<rparr>"
    let ?u = "?t\<lparr>first_result_stored := True\<rparr>"
    have "ends_as A (qr_store_ret A ?p1 ?u (c_mysql_store_result_start A None (mysql ?u))) ?u v
        (Completion (ro_callback ?p1) ec (Some rs))"
    proof (rule qr_store_ends [where y = "b\<lparr>mysql := m, first_result_stored := True\<rparr>"
          and n = l and old = e])
      show "owns ?u (ro_token ?p1)" and "resumed ?u ?u"
        using owns_resumed [OF assms(1,2)] assms(2) by (simp_all add: resumed_def)
      show "last_result ?u = Empty_ptr" using conn_eqD(5) [OF ct] assms(3) by simp
      show "conn (b\<lparr>mysql := m, first_result_stored := True\<rparr>) = conn ?u"
        using arg_cong [OF ct, of "first_result_stored_update (\<lambda>_. True)"] by simp
      show "store_agrees A l (mysql ?u)" using assms(5) by simp
      show "ms_take_result A (b\<lparr>mysql := m, first_result_stored := True\<rparr>) e = Some (v, rs, ec)"
        using assms(7) False by simp
    qed
    then have "ends_as A (qr_query_ret A p t (m, r, 0)) ?u v ?done"
      using False settled by (simp add: Let_def)
    then show ?thesis
      by (rule ends_if) (use assms(2) in \<open>simp_all add: resumed_def\<close>)
  qed
qed

text \<open>
  C5. \<open>async_query_result\<close> does what \<open>query_result\<close> of the connector does, under the same
  hypothesis: one callback, with the error code and the result set of the query followed by
  \<open>store_result\<close>.
\<close>

theorem async_query_result_refines:
  assumes "impl_inv s" and "mdb_is_open s" and "waits s = []" and "ready s = []"
    and "query_result_contract A n l s stmt"
    and "connector_query_result_ec (mariadb_service_ops A) s stmt no_error = Some (v, rs, ec)"
  shows "ends_as A (mdb_async_query_result A s stmt k) s v (Completion k ec (Some rs))"
proof -
  let ?p = "\<lparr>ro_callback = k, ro_step = Query_entry, ro_token = wp_of (cancelation_token s),
             ro_stmt = stmt, ro_query_result = - 1, ro_result = None\<rparr>"
  let ?b = "(free_result A s)\<lparr>first_result_stored := False\<rparr>"
  let ?c = "c_mysql_real_query_start A (- 1) (mysql ?b) (c_str stmt) (of_nat (length stmt))"
  obtain m r where q: "c_mysql_real_query A (mysql ?b) (c_str stmt) (of_nat (length stmt)) = (m, r)"
    by fastforce
  have o: "owns s (ro_token ?p)" using assms(1) by (simp add: owns_def)
  have b: "owns ?b (ro_token ?p)" "resumed ?b ?b" "last_result ?b = Empty_ptr"
    using owns_free [OF o, of A] assms(3,4) by (simp_all add: resumed_self frame_simps)
  have start: "mdb_async_query_result A s stmt k = qr_query_ret A ?p ?b ?c"
    using qr_entry_query [OF o assms(3,4)] assms(2) by (simp add: mdb_async_query_result_def)
  have agree: "settles A (c_mysql_real_query_cont A) (- 1) n ?c = Some (m, r)"
      "store_agrees A l m"
    using assms(5) q by (simp_all add: query_result_contract_def query_agrees_def)
  from qr_query_call.settled_call [where p = ?p, OF b(1,2) agree(1)] obtain t
    where t: "resumed ?b t"
      "\<And>u. comes_to A (qr_query_ret A ?p t (m, r, 0)) u \<Longrightarrow> comes_to A (qr_query_ret A ?p ?b ?c) u"
    by blast
  define e where "e = call_code (error_wrapper_int A) (m, r, 0)"
  have "mdb_query A s stmt no_error = (?b\<lparr>mysql := m\<rparr>, e)"
    using assms(2) q
    by (simp add: mdb_query_def mysql_real_query_def clear_error_def e_def call_code_def)
  then have blocking: "if failed e then (v, rs, ec) = (?b\<lparr>mysql := m\<rparr>, empty_set, e)
      else ms_take_result A (?b\<lparr>mysql := m, first_result_stored := True\<rparr>) e = Some (v, rs, ec)"
    using assms(6)
    by (simp add: connector_query_result_ec_def mariadb_service_ops_def mdb_same
        ms_store_result_def ms_next_result_def split: if_splits)
  then have "ends_as A (qr_query_ret A ?p t (m, r, 0)) ?b v (Completion (ro_callback ?p) ec (Some rs))"
    unfolding e_def by (intro qr_query_ends [OF b(1) t(1) b(3) _ agree(2)]) simp
  from ends_if [OF this t(2)] show ?thesis
    by (simp add: start)
qed

theorem async_query_result_refines_witness:
  "\<exists>v rs ec. ends_as sample_mariadb
     (mdb_async_query_result sample_mariadb (sample_open [[sample_table]]) ''q'' 7)
     (sample_open [[sample_table]]) v (Completion 7 ec (Some rs)) \<and>
   \<not> failed ec \<and> rs_rows rs = Inr (map (row_of 1 [sample_column]) sample_rows)"
proof -
  let ?A = sample_mariadb and ?s = "sample_open [[sample_table]]"
  have h: "mdb_is_open ?s" "waits ?s = []" "ready ?s = []"
    "query_result_contract ?A 3 2 ?s ''q''"
    by code_simp+
  obtain v rs ec where st: "mdb_store_result ?A (sample_queried [[sample_table]]) no_error =
        Some (v, rs, ec)"
      "\<not> failed ec" "rs_rows rs = Inr (map (row_of 1 [sample_column]) sample_rows)"
    by (rule sample_queried_stores)
  have "snd (mdb_query ?A ?s ''q'' no_error) = no_error" by code_simp
  then have "connector_query_result_ec (mariadb_service_ops ?A) ?s ''q'' no_error =
      Some (v, rs, ec)"
    using st(1) by (simp add: connector_query_result_ec_def mariadb_service_ops_def
        sample_queried_def split_beta)
  from async_query_result_refines [OF sample_open_inv h this, of 7] st(2,3) show ?thesis by blast
qed

abbreviation fresh_connect_op ::
  "('m, 'k, 'z) connection \<Rightarrow> 'k \<Rightarrow> endpoint \<Rightarrow> auth_info \<Rightarrow> string \<Rightarrow> u64 \<Rightarrow> 'k connect_op" where
  "fresh_connect_op s k ep auth database fl \<equiv>
     \<lparr>co_callback = k, co_step = 0, co_token = wp_of (cancelation_token s), co_endpoint = ep,
      co_auth = auth, co_database = database, co_flags = fl, co_result = False\<rparr>"

abbreviation connect_start ::
  "('m, 'a) mariadb_api_scheme \<Rightarrow> 'm \<Rightarrow> endpoint \<Rightarrow> auth_info \<Rightarrow> string \<Rightarrow> u64 \<Rightarrow> 'm \<times> bool \<times> i32"
where
  "connect_start A m ep auth database fl \<equiv>
     c_mysql_real_connect_start A False m (ep_host ep) (user auth) (password auth)
       (c_str database) (ep_port ep) (ep_unix_socket ep) fl"

lemma connect_operation_starts:
  fixes k :: 'k and ep :: endpoint and auth :: auth_info and database :: string and fl :: u64
    and s :: "('m, 'k, 'z) connection"
  assumes "impl_inv s" and "mdb_is_open s" and "waits s = []" and "ready s = []"
    and "mdb_set_option A s (nonblock_default A) no_error = (s1, ec1)" and "\<not> failed ec1"
  defines "p \<equiv> fresh_connect_op s1 k ep (auth_info_copy auth) database fl"
    and "b \<equiv> s1\<lparr>flags := fl\<rparr>"
  shows "mdb_async_connect A s ep auth database fl k =
           connect_ret A p b (connect_start A (mysql s1) ep (auth_info_copy auth) database fl)"
    and "owns b (co_token p)" and "resumed b b" and "mdb_is_open s1"
    and "posted b = posted s" and "invoked b = invoked s"
proof -
  have s1: "plain_call s s1" "mdb_is_open s1"
    using plain_set_option [of s A "nonblock_default A" no_error] assms(2,5)
    by (simp_all add: plain_call_def mdb_is_open_def)
  then have io: "waits s1 = []" "ready s1 = []" "posted s1 = posted s" "invoked s1 = invoked s"
    using assms(3,4) by (simp_all add: plain_call_def same_io_def)
  have o: "owns s1 (co_token p)"
    using s1(1) assms(1) by (simp add: p_def owns_def plain_call_def keeps_def)
  then show "owns b (co_token p)" and "resumed b b" and "mdb_is_open s1"
    and "posted b = posted s" and "invoked b = invoked s"
    using io s1(2) by (simp_all add: b_def resumed_self)
  have "abort_if_expired A (wp_of (cancelation_token s1)) s1 ec1 = ec1"
    using abort_live [OF o resumed_self [OF io(1,2)], of A ec1] by (simp add: p_def)
  then show "mdb_async_connect A s ep auth database fl k =
      connect_ret A p b (connect_start A (mysql s1) ep (auth_info_copy auth) database fl)"
    using assms(2,5,6)
    by (simp add: p_def b_def mdb_async_connect_def connect_handler_def
        mysql_real_connect_start_def nb_call_code connect_ret_def connect_wait_def connect_order
        Let_def)
qed

lemma connect_operation_ends:
  assumes "impl_inv s" and "mdb_is_open s" and "waits s = []" and "ready s = []"
    and "mdb_set_option A s (nonblock_default A) no_error = (s1, ec1)" and "\<not> failed ec1"
    and "connect_agrees A n (mysql s1) ep (auth_info_copy auth) database fl"
  shows "ends_as A (mdb_async_connect A s ep auth database fl k) s
           (fst (mdb_connect A s1 ep (auth_info_copy auth) database fl no_error))
           (Completion k (snd (mdb_connect A s1 ep (auth_info_copy auth) database fl no_error)) None)"
proof -
  let ?au = "auth_info_copy auth" and ?b = "s1\<lparr>flags := fl\<rparr>"
  let ?p = "fresh_connect_op s1 k ep ?au database fl"
    and ?c = "connect_start A (mysql s1) ep ?au database fl"
  note starts = connect_operation_starts [OF assms(1-6)]
  obtain m r where q: "c_mysql_real_connect A (mysql s1) (ep_host ep) (user ?au) (password ?au)
      (c_str database) (ep_port ep) (ep_unix_socket ep) fl = (m, r)"
    by fastforce
  have "settles A (c_mysql_real_connect_cont A) False n ?c = Some (m, r)"
    using assms(7) q by (simp add: connect_agrees_def)
  from connect_call.settled_call [where p = ?p and b = ?b, OF starts(2,3) this] obtain t where t: "resumed ?b t"
      "\<And>u. comes_to A (connect_ret A ?p t (m, r, 0)) u \<Longrightarrow> comes_to A (connect_ret A ?p ?b ?c) u"
    by blast
  let ?ec = "error_wrapper_ptr A (\<not> r) m no_error"
  have "connect_ret A ?p t (m, r, 0) = Some (invoke_callback (Completion k ?ec None) (t\<lparr>mysql := m\<rparr>))"
    by (simp add: connect_ret_def connect_wait_def wait_finish_def call_code_def wrap_handle_def)
  moreover have "mdb_connect A s1 ep ?au database fl no_error = (?b\<lparr>mysql := m\<rparr>, ?ec)"
    using starts(4) q by (simp add: mdb_connect_def mysql_real_connect_def clear_error_def)
  moreover have "conn (t\<lparr>mysql := m\<rparr>) = conn (?b\<lparr>mysql := m\<rparr>)"
    using resumed_conn [OF t(1)] by simp
  ultimately have "ends_as A (connect_ret A ?p t (m, r, 0)) ?b
      (fst (mdb_connect A s1 ep ?au database fl no_error))
      (Completion k (snd (mdb_connect A s1 ep ?au database fl no_error)) None)"
    by (simp add: ends_now [OF t(1)])
  from ends_if [OF this t(2)] show ?thesis
    using starts(1,5,6) by simp
qed

text \<open>
  C16. \<open>async_connect\<close> on an open connection that accepts the non-blocking option does what
  \<open>connect\<close> does after that option has been set, with a copy of the credentials.
\<close>

theorem async_connect_refines:
  assumes "impl_inv s" and "mdb_is_open s" and "waits s = []" and "ready s = []"
    and "mdb_set_option A s (nonblock_default A) no_error = (s1, ec1)" and "\<not> failed ec1"
    and "connect_agrees A n (mysql s1) ep (auth_info_copy auth) database fl"
  shows "ends_as A (mdb_async_connect A s ep auth database fl k) s
           (fst (mdb_connect A s1 ep (auth_info_copy auth) database fl no_error))
           (Completion k (snd (mdb_connect A s1 ep (auth_info_copy auth) database fl no_error)) None)"
  using assms by (rule connect_operation_ends)

theorem async_connect_refines_witness:
  "\<exists>v. ends_as sample_mariadb
     (mdb_async_connect sample_mariadb (sample_open []) (Local_endpoint ''/tmp/mysql.sock'')
        (auth_info_user_password ''root'' ''pw'') ''db'' 0 7)
     (sample_open []) v (Completion 7 no_error None)"
proof -
  let ?A = sample_mariadb and ?s = "sample_open []" and ?ep = "Local_endpoint ''/tmp/mysql.sock''"
    and ?au = "auth_info_user_password ''root'' ''pw''"
  let ?q = "mdb_set_option ?A ?s (nonblock_default ?A) no_error"
  have h: "mdb_is_open ?s" "waits ?s = []" "ready ?s = []"
    by code_simp+
  have q: "\<not> failed (snd ?q)"
    "connect_agrees ?A 2 (mysql (fst ?q)) ?ep (auth_info_copy ?au) ''db'' 0"
    "snd (mdb_connect ?A (fst ?q) ?ep (auth_info_copy ?au) ''db'' 0 no_error) = no_error"
    by code_simp+
  have "?q = (fst ?q, snd ?q)" by simp
  from async_connect_refines [OF sample_open_inv h this q(1,2), of 7] q(3) show ?thesis by auto
qed

end
