(* ===== verification/Mariadb_Properties.thy ===== *)
theory Mariadb_Properties
  imports Mariadb_Refinement
begin

text \<open>
  The properties of the MariaDB service that hold for every interleaving of calls, events and
  completions, and those of its blocking operations and of its waits.
\<close>

section \<open>Operations whose connection was canceled or closed\<close>

definition aborted_op_result :: "'k composed_op \<Rightarrow> result_set option" where
  "aborted_op_result q =
     (case q of Store_op _ \<Rightarrow> Some empty_set | Query_result_op _ \<Rightarrow> Some empty_set | _ \<Rightarrow> None)"

lemma run_op_expired:
  assumes "expired (op_token q) s" and "failed (operation_aborted A)"
  shows "run_op A s q ec status =
           Some (invoke_callback
             (Completion (op_callback q) (operation_aborted A) (aborted_op_result q)) s)"
  using assms
  by (cases q)
     (simp_all add: aborted_op_result_def connect_handler_def query_handler_def
       store_result_handler.simps [of A s] store_pass_def query_result_handler.simps [of A s]
       qr_pass_def finish_with_result_def abort_if_expired_def Let_def)

lemma mdb_run_inv: "mdb_run A s ks s' \<Longrightarrow> mdb_inv s \<Longrightarrow> mdb_inv s' \<and> evolves s s'"
  using mdb_run_ok [of A s ks s'] by (simp add: step_ok_def)

lemma reachable_inv: "heap_wf h \<Longrightarrow> mdb_run A (new_connection m h) ks s \<Longrightarrow> mdb_inv s"
  by (blast dest: mdb_run_inv intro: new_connection_inv)

section \<open>One operation waits\<close>

text \<open>
  Whatever waits on the descriptor keeps it assigned, and at most one operation waits.
\<close>

definition wait_ok :: "('m, 'k, 'z) connection \<Rightarrow> bool" where
  "wait_ok s \<longleftrightarrow>
     timer_set s \<and> length (waits s) \<le> 1 \<and>
     ((\<exists>w \<in> set (waits s). \<not> on_timer w) \<longrightarrow> ev_fd s \<noteq> - 1)"

lemma wait_ok_same_io: "same_io s s' \<Longrightarrow> wait_ok s' = wait_ok s"
  by (simp add: same_io_def wait_ok_def)

lemma wait_ok_update [simp]:
  "wait_ok (s\<lparr>mysql := m\<rparr>) = wait_ok s" "wait_ok (s\<lparr>flags := fl\<rparr>) = wait_ok s"
  "wait_ok (s\<lparr>first_result_stored := b\<rparr>) = wait_ok s" "wait_ok (s\<lparr>initialized := b\<rparr>) = wait_ok s"
  "wait_ok (s\<lparr>ready := q\<rparr>) = wait_ok s" "wait_ok (s\<lparr>posted := c\<rparr>) = wait_ok s"
  "wait_ok (s\<lparr>invoked := d\<rparr>) = wait_ok s"
  "wait_ok (free_result A s) = wait_ok s" "wait_ok (reset_last_result H r s) = wait_ok s"
  "wait_ok (cancel s) = wait_ok s"
  using wait_ok_same_io [of s "free_result A s"] wait_ok_same_io [of s "reset_last_result H r s"]
    wait_ok_same_io [of s "cancel s"]
  by (simp_all add: wait_ok_def)

lemma wait_ok_cancel_waits [simp]: "wait_ok s \<Longrightarrow> wait_ok (cancel_waits H P s)"
  by (auto simp: wait_ok_def cancel_waits_def intro: le_trans [OF length_filter_le])

lemma wait_ok_release: "wait_ok s \<Longrightarrow> wait_ok ((ev_release H s)\<lparr>ev_fd := fd\<rparr>)"
  by (auto simp: wait_ok_def ev_release_def ev_cancel_def cancel_waits_def
      intro: le_trans [OF length_filter_le])

lemma wait_ok_released: "wait_ok s \<Longrightarrow> wait_ok (ev_release H s)"
  using wait_ok_release [where s = s and H = H and fd = "- 1"] by (simp add: ev_release_def)

lemma wait_ok_assign [simp]: "wait_ok s \<Longrightarrow> wait_ok (assign_socket A status s)"
  by (simp add: assign_socket_def wait_ok_release)

lemma stop_waits_none: "wait_ok s \<Longrightarrow> wait_ok (stop_waits H s) \<and> waits (stop_waits H s) = []"
  by (auto simp: stop_waits_def wait_ok_def timer_cancel_def ev_cancel_def cancel_waits_def Let_def
      filter_empty_conv)

lemma wait_ok_async_wait [simp]:
  assumes "wait_ok s"
  shows "wait_ok (async_wait_mysql A status p s)"
  using stop_waits_none [OF wait_ok_assign [OF assms], of A A status] wait_ok_released [OF assms, of A]
  by (auto simp: async_wait_mysql_def Let_def ev_async_wait_def timer_async_wait_def
      timer_cancel_def cancel_waits_def wait_ok_def)


text \<open>A run of an operation keeps the condition: it works on the connection, waits or ends.\<close>

lemma wait_ok_invoke [simp]: "wait_ok (invoke_callback c s) = wait_ok s"
  by (simp add: invoke_callback_def)

lemma wait_ok_connect: "wait_ok s \<Longrightarrow> wait_ok (connect_handler A s p ec status)"
  by (simp add: connect_handler_def connect_wait_def Let_def split: prod.splits)

lemma wait_ok_query: "wait_ok s \<Longrightarrow> wait_ok (query_handler A s p ec status)"
  by (simp add: query_handler_def query_wait_def Let_def split: prod.splits)

lemma wait_ok_finish: "finish_with_result A s k r ec = Some s' \<Longrightarrow> wait_ok s \<Longrightarrow> wait_ok s'"
  by (auto simp: finish_with_result_def Let_def split: if_splits option.splits)

fun pass_ok :: "(('m, 'k, 'z) connection, 'p) pass \<Rightarrow> bool" where
  "pass_ok (Again s _ _ _) \<longleftrightarrow> wait_ok s"
| "pass_ok (Waiting s) \<longleftrightarrow> wait_ok s"
| "pass_ok (Break s _ _) \<longleftrightarrow> wait_ok s"
| "pass_ok Assert_failed \<longleftrightarrow> False"

lemma store_cont_ok:
  "wait_ok s \<Longrightarrow> so_step p \<notin> {Store_entry, Store_error} \<Longrightarrow> pass_ok (store_cont A s p ec status)"
  by (cases "so_step p") (auto simp: store_cont_def Let_def split: prod.splits)

lemma store_start_ok: "wait_ok s \<Longrightarrow> pass_ok (store_start A s p ec status)"
  by (auto simp: store_start_def Let_def store_cont_ok split: prod.splits)

lemma store_entry_ok: "wait_ok s \<Longrightarrow> pass_ok (store_entry A s p ec status)"
  by (auto simp: store_entry_def Let_def store_start_ok split: prod.splits)

lemma store_pass_ok: "wait_ok s \<Longrightarrow> pass_ok (store_pass A s p ec status)"
  by (auto simp: store_pass_def Let_def store_entry_ok store_start_ok store_cont_ok
      split: store_step.splits)

lemma qr_cont_ok:
  "wait_ok s \<Longrightarrow> ro_step p \<notin> {Query_entry, Query_error} \<Longrightarrow> pass_ok (qr_cont A s p ec status)"
  by (cases "ro_step p") (auto simp: qr_cont_def Let_def split: prod.splits)

lemma qr_store_start_ok:
  "wait_ok s \<Longrightarrow> ro_step p = Query_store_start \<Longrightarrow> pass_ok (qr_store_start A s p ec status)"
  by (auto simp: qr_store_start_def Let_def qr_cont_ok split: prod.splits)

lemma qr_entry_ok: "wait_ok s \<Longrightarrow> pass_ok (qr_entry A s p ec status)"
  by (auto simp: qr_entry_def Let_def qr_store_start_ok split: prod.splits)

lemma qr_pass_ok: "wait_ok s \<Longrightarrow> pass_ok (qr_pass A s p ec status)"
  by (auto simp: qr_pass_def Let_def qr_entry_ok qr_store_start_ok qr_cont_ok
      split: query_step.splits)

lemma wait_ok_store:
  "store_result_handler A s p ec status = Some s' \<Longrightarrow> wait_ok s \<Longrightarrow> wait_ok s'"
proof (induction A s p ec status rule: store_result_handler.induct)
  case (1 A s p ec status)
  then show ?case
    using store_pass_ok [OF "1.prems"(2), of A p ec status]
    by (auto simp: store_result_handler.simps [of A s] wait_ok_finish split: pass.splits)
qed

lemma wait_ok_query_result:
  "query_result_handler A s p ec status = Some s' \<Longrightarrow> wait_ok s \<Longrightarrow> wait_ok s'"
proof (induction A s p ec status rule: query_result_handler.induct)
  case (1 A s p ec status)
  then show ?case
    using qr_pass_ok [OF "1.prems"(2), of A p ec status]
    by (auto simp: query_result_handler.simps [of A s] wait_ok_finish split: pass.splits)
qed

lemma wait_ok_run_op: "run_op A s p ec status = Some s' \<Longrightarrow> wait_ok s \<Longrightarrow> wait_ok s'"
  by (cases p)
     (auto intro: wait_ok_connect wait_ok_query wait_ok_store wait_ok_query_result)

lemma wait_ok_plain: "plain_call s s' \<Longrightarrow> wait_ok s \<Longrightarrow> wait_ok s'"
  using wait_ok_same_io [of s s'] by (simp add: plain_call_def)

lemma wait_ok_close: "wait_ok s \<Longrightarrow> wait_ok (mdb_close A s)"
  by (auto simp: mdb_close_def mdb_close_implementation_def timer_cancel_def Let_def wait_ok_released)

lemma wait_ok_async_connect:
  assumes "mdb_async_connect A s ep au db fl k = Some s'" and "wait_ok s"
  shows "wait_ok s'"
proof -
  define p where "p = (if \<not> mdb_is_open s then mdb_open A s no_error else (s, no_error))"
  have p: "wait_ok (fst p)"
    using assms(2) by (auto simp: p_def intro: wait_ok_plain [OF plain_open])
  then have q: "wait_ok (fst (mdb_set_option A (fst p) (nonblock_default A) no_error))"
    by (rule wait_ok_plain [OF plain_set_option])
  show ?thesis
    using assms(1) p q unfolding mdb_async_connect_def p_def [symmetric]
    by (auto simp: post_callback_def Let_def dest: wait_ok_connect
        split: prod.splits if_splits)
qed

lemma wait_ok_fresh:
  "mdb_async_query A s stmt k = Some s' \<Longrightarrow> wait_ok s \<Longrightarrow> wait_ok s'"
  "mdb_async_store_result A s k = Some s' \<Longrightarrow> wait_ok s \<Longrightarrow> wait_ok s'"
  "mdb_async_query_result A s stmt k = Some s' \<Longrightarrow> wait_ok s \<Longrightarrow> wait_ok s'"
  by (auto simp: mdb_async_query_def mdb_async_store_result_def mdb_async_query_result_def
      post_callback_def intro: wait_ok_query wait_ok_store wait_ok_query_result split: if_splits)

lemma wait_ok_step: "mdb_step A s k s' \<Longrightarrow> wait_ok s \<Longrightarrow> wait_ok s'"
proof (induction rule: mdb_step.induct)
  case (mdb_step_event s xs w ys)
  then show ?case by (simp add: wait_ok_def)
next
  case (mdb_step_run s xs r ys s')
  then show ?case by (auto dest: wait_ok_run_op)
qed (auto intro: wait_ok_close wait_ok_async_connect wait_ok_fresh wait_ok_plain plain_calls
    simp: mdb_cancel_def)

lemma wait_ok_run: "mdb_run A s ks s' \<Longrightarrow> wait_ok s \<Longrightarrow> wait_ok s'"
  by (induction rule: mdb_run.induct) (auto dest: wait_ok_step)

lemma wait_ok_new: "wait_ok (new_connection m h)"
  by (simp add: wait_ok_def new_connection_defs sp_make_def)

section \<open>Blocking operations\<close>

lemma conn_cancel_waits [simp]: "conn (cancel_waits H P s) = conn s"
  by (simp add: cancel_waits_def)

lemma waits_stopped:
  assumes "wait_ok s"
  shows "waits (stop_waits A (assign_socket A status s)) = []"
    and "ready (stop_waits A (assign_socket A status s)) =
           ready s @ map (resume_with A (operation_aborted A)) (waits s)"
proof -
  consider "waits s = []" | w where "waits s = [w]" using assms
    by (cases "waits s") (auto simp: wait_ok_def)
  note c = this
  let ?t = "stop_waits A (assign_socket A status s)"
  show "waits ?t = []" using stop_waits_none [OF wait_ok_assign [OF assms]] by blast
  show "ready ?t = ready s @ map (resume_with A (operation_aborted A)) (waits s)"
    using c
  proof cases
    case (2 w)
    then show ?thesis
      using assms
      by (cases "on_timer w")
         (auto simp: wait_ok_def stop_waits_def assign_socket_def ev_release_def ev_cancel_def
           timer_cancel_def cancel_waits_def Let_def)
  qed (auto simp: stop_waits_def assign_socket_def ev_release_def ev_cancel_def timer_cancel_def
      cancel_waits_def Let_def)
qed

lemma assigned_descriptor:
  assumes "c_mysql_get_socket A (mysql s) \<noteq> - 1"
    and "has_event status (MYSQL_WAIT_READ A) \<or> has_event status (MYSQL_WAIT_WRITE A)"
  shows "ev_fd (stop_waits A (assign_socket A status s)) \<noteq> - 1"
  using assms
  by (auto simp: assign_socket_def stop_waits_def ev_cancel_def timer_cancel_def cancel_waits_def
      read_or_write_def has_event_or Let_def)

lemma stopped_timer:
  "wait_ok s \<Longrightarrow> timer_set (stop_waits A (assign_socket A status s))"
  "mysql (stop_waits A (assign_socket A status s)) = mysql s"
  by (simp_all add: wait_ok_def assign_socket_def stop_waits_def ev_release_def ev_cancel_def
      timer_cancel_def cancel_waits_def Let_def)

lemma assertions_hold:
  "store_pass A s p ec status \<noteq> Assert_failed" "qr_pass A s q ec status \<noteq> Assert_failed"
proof -
  show "store_pass A s p ec status \<noteq> Assert_failed"
    by (cases "so_step p")
       (auto simp: store_pass_def store_entry_def store_start_def store_cont_def Let_def
         split: prod.splits)
  show "qr_pass A s q ec status \<noteq> Assert_failed"
    by (cases "ro_step q")
       (auto simp: qr_pass_def qr_entry_def qr_store_start_def qr_cont_def Let_def
         split: prod.splits)
qed

text \<open>
  Where the loop of a handler breaks, if it does: the connection, the result it is to return, and the
  error code.
\<close>

function store_break ::
  "('m, 'a) mariadb_api_scheme \<Rightarrow> ('m, 'k, 'z) connection \<Rightarrow> 'k store_op \<Rightarrow> error_code \<Rightarrow> i32 \<Rightarrow>
     (('m, 'k, 'z) connection \<times> res_ptr option \<times> error_code) option" where
  "store_break A s p ec status =
     (case store_pass A s p ec status of
        Again s' p' ec' status' \<Rightarrow> store_break A s' p' ec' status'
      | Break s' p' ec' \<Rightarrow> Some (s', so_result p', ec')
      | _ \<Rightarrow> None)"
  by pat_completeness auto
termination
  by (relation "measure (\<lambda>(A, s, p, ec, status). store_rank (so_step p))")
     (auto dest: store_pass_again)

function query_result_break ::
  "('m, 'a) mariadb_api_scheme \<Rightarrow> ('m, 'k, 'z) connection \<Rightarrow> 'k query_result_op \<Rightarrow> error_code \<Rightarrow>
     i32 \<Rightarrow> (('m, 'k, 'z) connection \<times> res_ptr option \<times> error_code) option" where
  "query_result_break A s p ec status =
     (case qr_pass A s p ec status of
        Again s' p' ec' status' \<Rightarrow> query_result_break A s' p' ec' status'
      | Break s' p' ec' \<Rightarrow> Some (s', ro_result p', ec')
      | _ \<Rightarrow> None)"
  by pat_completeness auto
termination
  by (relation "measure (\<lambda>(A, s, p, ec, status). query_rank (ro_step p))")
     (auto dest: qr_pass_again)

declare store_break.simps [simp del] query_result_break.simps [simp del]

fun op_break ::
  "('m, 'a) mariadb_api_scheme \<Rightarrow> ('m, 'k, 'z) connection \<Rightarrow> 'k composed_op \<Rightarrow> error_code \<Rightarrow> i32 \<Rightarrow>
     (('m, 'k, 'z) connection \<times> res_ptr option \<times> error_code) option" where
  "op_break A s (Store_op p) ec status = store_break A s p ec status"
| "op_break A s (Query_result_op p) ec status = query_result_break A s p ec status"
| "op_break A s _ ec status = None"

text \<open>
  The result that the library has handed over is fetched, and its fetch does not end (or a row is
  shorter than the library says, and the constructor of \<open>row\<close> reads past it).
\<close>

definition fetch_diverges ::
  "('m, 'a) mysql_api_scheme \<Rightarrow> ('m, 'k, 'z) connection \<times> res_ptr option \<times> error_code \<Rightarrow> bool" where
  "fetch_diverges A x \<longleftrightarrow>
     (case x of (t, r, e) \<Rightarrow>
        \<not> failed e \<and>
        (let t1 = reset_last_result A r t
         in result_set_assign A (mysql t1) result_set_default (last_result t1) e = None))"

lemma finish_returns:
  "finish_with_result A t k r e = None \<longleftrightarrow> fetch_diverges A (t, r, e)"
  by (simp add: finish_with_result_def fetch_diverges_def Let_def split: option.split)

lemma store_handler_returns:
  "store_result_handler A s p ec status = None \<longleftrightarrow>
   pred_option (fetch_diverges A) (store_break A s p ec status) \<and> store_break A s p ec status \<noteq> None"
proof (induction A s p ec status rule: store_result_handler.induct)
  case (1 A s p ec status)
  then show ?case
    using assertions_hold(1) [of A s p ec status]
    by (simp add: store_result_handler.simps [of A s p] store_break.simps [of A s p] finish_returns
        split: pass.split)
qed

lemma query_result_handler_returns:
  "query_result_handler A s p ec status = None \<longleftrightarrow>
   pred_option (fetch_diverges A) (query_result_break A s p ec status) \<and>
   query_result_break A s p ec status \<noteq> None"
proof (induction A s p ec status rule: query_result_handler.induct)
  case (1 A s p ec status)
  then show ?case
    using assertions_hold(2) [of A s p ec status]
    by (simp add: query_result_handler.simps [of A s p] query_result_break.simps [of A s p] finish_returns
        split: pass.split)
qed

section \<open>Samples\<close>

definition no_blocks :: cpp_heap where
  "no_blocks = \<lparr>next_block = 0, use_count = \<lambda>_. 0\<rparr>"

definition sample_new ::
  "sample_result list list \<Rightarrow> (sample_server, nat) mariadb_connection" where
  "sample_new script = new_connection (sample_start script) no_blocks"

lemma no_blocks_wf: "heap_wf no_blocks"
  by (simp add: no_blocks_def heap_wf_def)

lemma sample_open_new: "sample_open script = fst (mdb_open sample_mariadb (sample_new script) no_error)"
  by (simp add: sample_open_def sample_new_def no_blocks_def)

lemma sample_opened:
  "mdb_run sample_mariadb (new_connection (sample_start script) no_blocks) [] (sample_open script)"
  unfolding sample_open_new sample_new_def
  by (rule mdb_run_call [OF mdb_run_start mdb_step_open])

definition sample_waiting :: "(sample_server, nat) mariadb_connection" where
  "sample_waiting =
     the (mdb_async_query sample_mariadb (sample_open [[sample_table]]) ''q'' 7)"

definition sample_finished :: "(sample_server, nat) mariadb_connection" where
  "sample_finished = the (serve sample_mariadb 2 sample_waiting)"

lemma sample_waiting_run:
  "mdb_run sample_mariadb (new_connection (sample_start [[sample_table]]) no_blocks) [7]
     sample_waiting"
proof -
  have "mdb_async_query sample_mariadb (sample_open [[sample_table]]) ''q'' 7 = Some sample_waiting"
    by (simp add: sample_waiting_def mdb_async_query_def)
  then show ?thesis
    using mdb_run_issue [OF sample_opened mdb_step_async_query] by fastforce
qed

lemma sample_finished_run:
  "mdb_run sample_mariadb (new_connection (sample_start [[sample_table]]) no_blocks) [7]
     sample_finished"
proof (rule serve_run [OF sample_waiting_run])
  have "serve sample_mariadb 2 sample_waiting \<noteq> None" by code_simp
  then show "serve sample_mariadb 2 sample_waiting = Some sample_finished"
    by (auto simp: sample_finished_def)
qed

lemma sample_waits_supported: "waits_supported sample_mariadb"
  by (simp add: waits_supported_def status_ok_def can_wait_def supported_def has_event_def sample_mariadb_def
      mysql_api.extend_def mariadb_api.fields_def sample_api_def wait_once_def split: prod.splits)

section \<open>Properties\<close>

text \<open>
  C13. Callbacks of the MariaDB service.  In every reachable state the callbacks that have been
  invoked and those the connection still holds are among those handed to the operations, each
  as often as it was handed over; none is missing as long as the library never waits for an
  exceptional condition alone, and has a socket when it waits to read or to write.
\<close>

theorem mariadb_callbacks_counted:
  fixes s :: "('m, 'k) mariadb_connection"
  assumes "heap_wf h" and "mdb_run A (new_connection m h) ks s"
  shows "mset (map callback (invoked s)) + held s \<subseteq># mset ks \<and>
         (waits_supported A \<longrightarrow> mset (map callback (invoked s)) + held s = mset ks)"
proof -
  let ?c = "new_connection m h :: ('m, 'k) mariadb_connection"
  have "mdb_inv ?c" and "settled ?c = {#}"
    by (rule new_connection_inv [OF assms(1)])+
  then have "counts A ?c (mset ks) s" and "settled ?c = {#}"
    using mdb_run_ok [OF assms(2)] by (auto simp: step_ok_def)
  then show ?thesis
    unfolding counts_def by (simp add: settled_def [of s] add.commute)
qed

theorem mariadb_callbacks_counted_witness:
  "mset (map callback (invoked sample_finished)) = {#7#}"
proof -
  have "held sample_finished = {#}" by code_simp
  then show ?thesis
    using mariadb_callbacks_counted [OF no_blocks_wf sample_finished_run] sample_waits_supported
    by simp
qed

text \<open>
  C18. Cancelation of the composed operations.  An operation that waits or is ready when the
  connection is canceled or closed never touches the library again: whenever it runs
  afterwards, whatever has happened in between, it invokes its callback with
  \<open>operation_aborted\<close> and leaves everything else as it is.
\<close>

theorem mariadb_canceled_op_aborts:
  assumes "heap_wf h" and "mdb_run A (new_connection m h) ks s" and "q \<in> set (ops s)"
    and "t = mdb_cancel s \<or> t = mdb_close A s \<and> mdb_is_open s" and "mdb_run A t ls u"
    and "failed (operation_aborted A)"
  shows "run_op A u q ec status =
           Some (invoke_callback
             (Completion (op_callback q) (operation_aborted A) (aborted_op_result q)) u)"
proof -
  have inv: "mdb_inv s" using reachable_inv [OF assms(1,2)] .
  have stop: "t = mdb_close A s \<and> mdb_is_open s \<or> t = mdb_cancel s" using assms(4) by blast
  have t: "mdb_inv t" "evolves s t"
    using stop_step(1) [OF stop] inv by (simp_all add: step_ok_def)
  have "expired (op_token q) t \<and> weak_allocated (op_token q) t"
    using stopped_ops [OF inv t(2) stop_step(2) [OF stop inv] assms(3)] .
  then have "expired (op_token q) u"
    using evolves_expired [of t u] mdb_run_inv [OF assms(5) t(1)] by blast
  then show ?thesis by (rule run_op_expired [OF _ assms(6)])
qed

theorem mariadb_canceled_op_aborts_witness:
  "map_option (map comp_code \<circ> invoked)
     (run_op sample_mariadb (mdb_cancel sample_waiting) (snd (hd (waits sample_waiting))) no_error 2) =
   Some [operation_aborted sample_mariadb]"
proof -
  have q: "snd (hd (waits sample_waiting)) \<in> set (ops sample_waiting)" by code_simp
  have f: "failed (operation_aborted sample_mariadb)" by code_simp
  have i: "invoked (mdb_cancel sample_waiting) = []" by code_simp
  show ?thesis
    using mariadb_canceled_op_aborts [OF no_blocks_wf sample_waiting_run q disjI1 mdb_run_start f]
    by (simp add: i invoke_callback_def)
qed

text \<open>
  An operation that waits or is ready and has not expired belongs to a connection that is
  open, and carries its present token: no composed operation works on a closed handle.
\<close>

theorem mariadb_live_op_on_open_connection:
  assumes "heap_wf h" and "mdb_run A (new_connection m h) ks s" and "q \<in> set (ops s)"
    and "\<not> expired (op_token q) s"
  shows "mdb_is_open s \<and> op_token q = wp_of (cancelation_token s)"
  using reachable_inv [OF assms(1,2)] assms(3,4)
  by (auto simp: mdb_inv_def tok_ok_def mdb_is_open_def)

theorem mariadb_live_op_on_open_connection_witness: "mdb_is_open sample_waiting"
proof -
  let ?q = "snd (hd (waits sample_waiting))"
  have "?q \<in> set (ops sample_waiting)" "\<not> expired (op_token ?q) sample_waiting" by code_simp+
  then show ?thesis
    using mariadb_live_op_on_open_connection [OF no_blocks_wf sample_waiting_run] by blast
qed

text \<open>
  C26. Waiting.  In every reachable state, if the library has a socket, waiting for a status
  aborts the operation that waits already, if there is one, and registers the new one for a
  single event: reading before writing before the timeout.  For a status without any of the
  three events it registers nothing, so that the operation is lost with its callback.
\<close>

theorem async_wait_behaviour:
  assumes "mdb_run A (new_connection m h) ks s" and "c_mysql_get_socket A (mysql s) \<noteq> - 1"
  shows "let t = async_wait_mysql A status p s in
         ready t = ready s @ map (resume_with A (operation_aborted A)) (waits s) \<and>
         waits t =
           (if has_event status (MYSQL_WAIT_READ A) then [(Wait_read, p)]
            else if has_event status (MYSQL_WAIT_WRITE A) then [(Wait_write, p)]
            else if has_event status (MYSQL_WAIT_TIMEOUT A)
            then [(Wait_timer (c_mysql_get_timeout_value_ms A (mysql s)), p)] else [])"
  using waits_stopped [OF wait_ok_run [OF assms(1) wait_ok_new], of A status]
    assigned_descriptor [OF assms(2), of status]
    stopped_timer(1) [OF wait_ok_run [OF assms(1) wait_ok_new], of A status]
    stopped_timer(2) [of A status s]
  by (simp add: async_wait_mysql_def assign_throws_def assms(2) ev_async_wait_def timer_async_wait_def
      timer_cancel_def cancel_waits_def Let_def)

theorem async_wait_behaviour_witness:
  "waits (async_wait_mysql sample_mariadb 4 (snd (hd (waits sample_waiting))) sample_waiting) = []"
proof -
  have "c_mysql_get_socket sample_mariadb (mysql sample_waiting) \<noteq> - 1"
    and "\<not> has_event 4 (MYSQL_WAIT_READ sample_mariadb)"
    and "\<not> has_event 4 (MYSQL_WAIT_WRITE sample_mariadb)"
    and "\<not> has_event 4 (MYSQL_WAIT_TIMEOUT sample_mariadb)"
    by code_simp+
  then show ?thesis
    using async_wait_behaviour [OF sample_waiting_run, of 4] by (simp add: Let_def)
qed

text \<open>
  C27. In every reachable state at most one operation waits, and one that waits on the
  descriptor has a descriptor.
\<close>

theorem one_operation_waits:
  assumes "mdb_run A (new_connection m h) ks s"
  shows "length (waits s) \<le> 1 \<and> ((\<exists>w \<in> set (waits s). \<not> on_timer w) \<longrightarrow> ev_fd s \<noteq> - 1)"
  using wait_ok_run [OF assms wait_ok_new] by (simp add: wait_ok_def)

theorem one_operation_waits_witness: "ev_fd sample_waiting \<noteq> - 1"
proof -
  have "\<exists>w \<in> set (waits sample_waiting). \<not> on_timer w" by code_simp
  then show ?thesis using one_operation_waits [OF sample_waiting_run] by blast
qed

text \<open>
  C36. The two assertions of the result handlers never fail, and an operation returns, in any state,
  with any code and status, unless its loop breaks without an error and the fetch of the one
  result that it has then got from the library does not end.
\<close>

theorem mariadb_operations_return:
  "store_pass A s p ec status \<noteq> Assert_failed \<and> qr_pass A s p2 ec status \<noteq> Assert_failed \<and>
   (run_op A s q ec status = None \<longleftrightarrow>
      (\<exists>x. op_break A s q ec status = Some x \<and> fetch_diverges A x))"
proof -
  have "run_op A s q ec status = None \<longleftrightarrow>
      (\<exists>x. op_break A s q ec status = Some x \<and> fetch_diverges A x)"
    by (cases q) (auto simp: store_handler_returns query_result_handler_returns)
  then show ?thesis using assertions_hold by blast
qed

definition sample_last_wait :: "(sample_server, nat) mariadb_connection" where
  "sample_last_wait =
     the (serve sample_mariadb 2 (the (mdb_async_query_result sample_mariadb
       (sample_open [[sample_table]]) ''q'' 7)))"

lemma assign_ends:
  assumes "c_mysql_num_rows A m r \<noteq> 0" and "field_sequence A m r infos m1"
    and "row_sequence A m1 r xs m2" and "c_mysql_errno A m2 = 0"
  shows "result_set_assign A m result_set_default (Shared b (Some r)) ec \<noteq> None"
  using assms
  by (simp add: result_set_assign_def fetch_fields_sequence fetch_rows_sequence result_set_default_def)

text \<open>An operation that gets a result of two rows: its fetch ends, so that the operation returns.\<close>

theorem mariadb_operations_return_witness:
  "\<exists>s'. run_op sample_mariadb sample_last_wait (snd (hd (waits sample_last_wait))) no_error 1 = Some s'"
proof -
  let ?A = sample_mariadb and ?s = sample_last_wait and ?q = "snd (hd (waits sample_last_wait))"
  let ?m = "sample_stored\<lparr>sv_log := [''init'', ''query'', ''store'']\<rparr>"
  let ?m1 = "fst (sample_fetch_field ?m 1)" and ?rows = "[([c_str ''17''], [2]), ([None], [0])]"
  let ?m2 = "fst (sample_fetch_row (fst (sample_fetch_row ?m1 1)) 1)"
  have "map_option (\<lambda>(t, r, e). let t1 = reset_last_result ?A r t in (mysql t1, last_result t1, e))
      (op_break ?A ?s ?q no_error 1) = Some (?m, Shared 2 (Some 1), no_error)"
    by code_simp
  then obtain t r where x: "op_break ?A ?s ?q no_error 1 = Some (t, r, no_error)"
    "mysql (reset_last_result ?A r t) = ?m" "last_result (reset_last_result ?A r t) = Shared 2 (Some 1)"
    by (auto simp: Let_def)
  have "c_mysql_num_rows ?A ?m 1 \<noteq> 0" "field_sequence ?A ?m 1 [sample_column] ?m1"
    "row_sequence ?A ?m1 1 ?rows ?m2" "c_mysql_errno ?A ?m2 = 0"
    by code_simp+
  from assign_ends [OF this] have "\<not> fetch_diverges ?A (t, r, no_error)"
    by (simp add: fetch_diverges_def x(2,3) Let_def)
  then have "run_op ?A ?s ?q no_error 1 \<noteq> None"
    using mariadb_operations_return [of ?A ?s _ _ _ _ ?q] x(1) by auto
  then show ?thesis by simp
qed

text \<open>
  C37. A pending call and an old error.  When the library starts a query, leaves the result at
  \<open>-1\<close> and waits, but an error of an earlier call is still recorded in the handle, the
  operation ends at once with that old error instead of waiting: the code \<open>unknown\<close> that the
  wrapper sets for a call that waits is never reported, since it is overwritten by the error
  of the handle.
\<close>

theorem pending_query_stale_error:
  assumes "impl_inv s" and "mdb_is_open s" and "status \<noteq> 0" and "c_mysql_errno A m \<noteq> 0"
    and "c_mysql_real_query_start A (- 1) (mysql (free_result A s)) (c_str stmt)
           (of_nat (length stmt)) = (m, - 1, status)"
  shows "mdb_async_query A s stmt k =
           Some (invoke_callback (Completion k (last_client_error A m) None)
             ((free_result A s)\<lparr>first_result_stored := False, mysql := m\<rparr>))"
proof -
  have stale: "failed (last_client_error A m)"
    using assms(4) by (simp add: failed_def last_client_error_def)
  have "\<not> expired (wp_of (cancelation_token s)) s"
    using assms(1) by (cases "cancelation_token s") (auto simp: impl_inv_def)
  then show ?thesis
    using assms(2-5)
    by (simp add: mdb_async_query_def query_handler_def query_wait_def abort_if_expired_def
        mysql_real_query_start_def mysql_start_cases error_wrapper_int_def stale wait_finish_def
        frame_simps Let_def)
qed

theorem pending_query_stale_error_witness:
  "map_option (\<lambda>t. (waits t, map comp_code (invoked t)))
     (mdb_async_query sample_mariadb
        ((sample_open [])\<lparr>mysql := (sample_start [])\<lparr>sv_errno := 2006\<rparr>\<rparr>) ''q'' 7) =
   Some ([], [Error_code 2006 Client_category])"
proof -
  let ?A = sample_mariadb and ?m = "(sample_start [])\<lparr>sv_errno := 2006\<rparr>"
  let ?s = "(sample_open [])\<lparr>mysql := ?m\<rparr>"
  have inv: "impl_inv ?s" using sample_open_inv [of "[]"] by (simp add: frame_simps)
  have free: "mysql (free_result ?A ?s) = ?m" "waits (sample_open []) = []"
    "invoked (sample_open []) = []"
    by code_simp+
  have start: "c_mysql_real_query_start ?A (- 1) (mysql (free_result ?A ?s)) (c_str ''q'')
      (of_nat (length ''q'')) = (?m, - 1, 2)"
    unfolding free by code_simp
  have h: "mdb_is_open ?s" "(2 :: i32) \<noteq> 0" "c_mysql_errno ?A ?m \<noteq> 0" by code_simp+
  have e: "last_client_error ?A ?m = Error_code 2006 Client_category" by code_simp
  show ?thesis
    using pending_query_stale_error [OF inv h start, of 7]
    by (simp add: invoke_callback_def free e)
qed

text \<open>
  The blocking operations of the two services are the same, so that the connector behaves
  the same on both, except for two: closing also gives up the waits of the descriptor and the
  timer, and agrees with the other service on the connection itself; setting an option is
  refused on a connection that is not open, and otherwise the same.
\<close>

theorem blocking_services_agree:
  "mariadb_service_ops A =
     (mysql_service_ops A)\<lparr>svc_close := mdb_close A, svc_set_option := mdb_set_option A\<rparr> \<and>
   conn (mdb_close A s) = ms_close A (conn s) \<and>
   mdb_set_option A s opt ec =
     (if mdb_is_open s then ms_set_option A s opt ec else (s, misc_error_code Not_initialized))"
proof (intro conjI)
  show "mariadb_service_ops A =
      (mysql_service_ops A)\<lparr>svc_close := mdb_close A, svc_set_option := mdb_set_option A\<rparr>"
    by (simp add: mariadb_service_ops_def mysql_service_ops_def mdb_same)
  show "conn (mdb_close A s) = ms_close A (conn s)"
    by (simp add: mdb_close_def mdb_close_implementation_def mdb_is_open_def ms_close_def
        ms_is_open_def close_implementation_def ev_release_def ev_cancel_def timer_cancel_def Let_def)
  show "mdb_set_option A s opt ec =
      (if mdb_is_open s then ms_set_option A s opt ec else (s, misc_error_code Not_initialized))"
    by (simp add: mdb_set_option_def ms_set_option_def mdb_same)
qed

end
