(* ===== verification/Mariadb_Executors.thy ===== *)
theory Mariadb_Executors
  imports Mariadb_Properties
begin

text \<open>
  Where the callbacks of \<open>mariadb_service\<close> run.  A handler of the user may have an executor and an
  allocator associated with it, for example a strand; the four handler classes of
  \<open>impl/mariadb_service.ipp\<close> pass them on, so that Asio runs each step of a composed operation on
  the executor of the callback at its end.
\<close>

section \<open>The hooks of the handler classes\<close>

text \<open>
  \<open>assoc\<close> stands for \<open>get_associated_allocator\<close> and \<open>get_associated_executor\<close> of Asio, which map a
  handler of the user and a default, the \<open>io_service\<close> for executors, to what is associated with the
  handler.  A callback that is posted is bound by \<open>bind_handler\<close>, which passes its hooks on.
\<close>

definition connect_get_allocator :: "('k \<Rightarrow> 'e \<Rightarrow> 'e) \<Rightarrow> 'e \<Rightarrow> 'k connect_op \<Rightarrow> 'e" where
  "connect_get_allocator assoc std p = assoc (co_callback p) std"

definition connect_get_executor :: "('k \<Rightarrow> 'e \<Rightarrow> 'e) \<Rightarrow> 'e \<Rightarrow> 'k connect_op \<Rightarrow> 'e" where
  "connect_get_executor assoc ioc p = assoc (co_callback p) ioc"

definition query_get_allocator :: "('k \<Rightarrow> 'e \<Rightarrow> 'e) \<Rightarrow> 'e \<Rightarrow> 'k query_op \<Rightarrow> 'e" where
  "query_get_allocator assoc std p = assoc (qo_callback p) std"

definition query_get_executor :: "('k \<Rightarrow> 'e \<Rightarrow> 'e) \<Rightarrow> 'e \<Rightarrow> 'k query_op \<Rightarrow> 'e" where
  "query_get_executor assoc ioc p = assoc (qo_callback p) ioc"

definition store_get_allocator :: "('k \<Rightarrow> 'e \<Rightarrow> 'e) \<Rightarrow> 'e \<Rightarrow> 'k store_op \<Rightarrow> 'e" where
  "store_get_allocator assoc std p = assoc (so_callback p) std"

definition store_get_executor :: "('k \<Rightarrow> 'e \<Rightarrow> 'e) \<Rightarrow> 'e \<Rightarrow> 'k store_op \<Rightarrow> 'e" where
  "store_get_executor assoc ioc p = assoc (so_callback p) ioc"

definition query_result_get_allocator ::
  "('k \<Rightarrow> 'e \<Rightarrow> 'e) \<Rightarrow> 'e \<Rightarrow> 'k query_result_op \<Rightarrow> 'e" where
  "query_result_get_allocator assoc std p = assoc (ro_callback p) std"

definition query_result_get_executor ::
  "('k \<Rightarrow> 'e \<Rightarrow> 'e) \<Rightarrow> 'e \<Rightarrow> 'k query_result_op \<Rightarrow> 'e" where
  "query_result_get_executor assoc ioc p = assoc (ro_callback p) ioc"

text \<open>What Asio uses for an operation that waits or is ready.\<close>

fun op_allocator :: "('k \<Rightarrow> 'e \<Rightarrow> 'e) \<Rightarrow> 'e \<Rightarrow> 'k composed_op \<Rightarrow> 'e" where
  "op_allocator assoc std (Connect_op p) = connect_get_allocator assoc std p"
| "op_allocator assoc std (Query_op p) = query_get_allocator assoc std p"
| "op_allocator assoc std (Store_op p) = store_get_allocator assoc std p"
| "op_allocator assoc std (Query_result_op p) = query_result_get_allocator assoc std p"

fun op_executor :: "('k \<Rightarrow> 'e \<Rightarrow> 'e) \<Rightarrow> 'e \<Rightarrow> 'k composed_op \<Rightarrow> 'e" where
  "op_executor assoc ioc (Connect_op p) = connect_get_executor assoc ioc p"
| "op_executor assoc ioc (Query_op p) = query_get_executor assoc ioc p"
| "op_executor assoc ioc (Store_op p) = store_get_executor assoc ioc p"
| "op_executor assoc ioc (Query_result_op p) = query_result_get_executor assoc ioc p"

lemmas hook_defs =
  connect_get_executor_def query_get_executor_def store_get_executor_def
  query_result_get_executor_def connect_get_allocator_def query_get_allocator_def
  store_get_allocator_def query_result_get_allocator_def

lemma op_hooks:
  "op_executor assoc ioc q = assoc (op_callback q) ioc \<and>
   op_allocator assoc std q = assoc (op_callback q) std"
  by (cases q) (simp_all add: hook_defs)

section \<open>Which callbacks a step invokes\<close>

lemma same_io_invoked: "same_io s s' \<Longrightarrow> invoked s' = invoked s"
  by (simp add: same_io_def)

lemma invoked_members [simp]:
  "invoked (free_result A s) = invoked s" "invoked (reset_last_result A r s) = invoked s"
  by (rule same_io_invoked, simp)+

lemma invoked_waits [simp]:
  "invoked (cancel_waits H P s) = invoked s" "invoked (ev_async_wait A src p s) = invoked s"
  "invoked (timer_async_wait ms p s) = invoked s"
  by (simp_all add: cancel_waits_def ev_async_wait_def timer_async_wait_def)

lemma invoked_stop_waits [simp]:
  "invoked (stop_waits H s) = invoked s" "invoked (assign_socket A status s) = invoked s"
  by (simp_all add: stop_waits_def assign_socket_def ev_release_def ev_cancel_def
      timer_cancel_def Let_def)

lemma invoked_async_wait [simp]: "invoked (async_wait_mysql A status p s) = invoked s"
  by (simp add: async_wait_mysql_def timer_cancel_def ev_release_def ev_cancel_def Let_def)

lemma invoked_posted [simp]: "invoked (post_callback c s) = invoked s"
  by (simp add: post_callback_def)

text \<open>At most the callback of the operation is invoked, and it is invoked last.\<close>

definition invokes_own :: "'k \<Rightarrow> ('m, 'k, 'z) connection \<Rightarrow> ('m, 'k, 'z) connection \<Rightarrow> bool" where
  "invokes_own k s s' \<longleftrightarrow>
     invoked s' = invoked s \<or> (\<exists>c. callback c = k \<and> invoked s' = invoked s @ [c])"

lemma invokes_own_quiet: "invoked s' = invoked s \<Longrightarrow> invokes_own k s s'"
  by (simp add: invokes_own_def)

lemma invokes_own_invoke:
  "invoked t = invoked s \<Longrightarrow> callback c = k \<Longrightarrow> invokes_own k s (invoke_callback c t)"
  by (simp add: invokes_own_def invoke_callback_def)

lemma invokes_own_after: "invoked t = invoked s \<Longrightarrow> invokes_own k t s' \<Longrightarrow> invokes_own k s s'"
  by (simp add: invokes_own_def)

lemma connect_wait_invokes:
  "invoked t = invoked s \<Longrightarrow> co_callback p = k \<Longrightarrow> invokes_own k s (connect_wait A t p ec status)"
  by (simp add: connect_wait_def Let_def invokes_own_invoke invokes_own_quiet)

lemma connect_handler_invokes:
  "invokes_own (co_callback p) s (connect_handler A s p ec status)"
  by (simp add: connect_handler_def Let_def invokes_own_invoke connect_wait_invokes
      split: prod.split)

lemma query_wait_invokes:
  "invoked t = invoked s \<Longrightarrow> qo_callback p = k \<Longrightarrow> invokes_own k s (query_wait A t p ec status)"
  by (simp add: query_wait_def Let_def invokes_own_invoke invokes_own_quiet)

lemma query_handler_invokes: "invokes_own (qo_callback p) s (query_handler A s p ec status)"
  by (simp add: query_handler_def Let_def invokes_own_invoke query_wait_invokes
      split: prod.split)

text \<open>A pass through one of the loops invokes nothing and keeps the callback.\<close>

definition quiet_pass ::
  "('p \<Rightarrow> 'k) \<Rightarrow> ('m, 'k, 'z) connection \<Rightarrow> 'p \<Rightarrow> (('m, 'k, 'z) connection, 'p) pass \<Rightarrow> bool" where
  "quiet_pass cb s p res \<longleftrightarrow>
     (case res of
        Again s' p' ec status \<Rightarrow> invoked s' = invoked s \<and> cb p' = cb p
      | Waiting s' \<Rightarrow> invoked s' = invoked s
      | Break s' p' ec \<Rightarrow> invoked s' = invoked s \<and> cb p' = cb p
      | Assert_failed \<Rightarrow> True)"

lemma store_cont_quiet:
  "invoked t = invoked s \<Longrightarrow> so_callback q = so_callback p \<Longrightarrow>
   quiet_pass so_callback s p (store_cont A t q ec status)"
  by (cases "so_step q") (auto simp: store_cont_def quiet_pass_def Let_def split: prod.splits)

lemma store_start_quiet:
  "invoked t = invoked s \<Longrightarrow> so_callback q = so_callback p \<Longrightarrow>
   quiet_pass so_callback s p (store_start A t q ec status)"
  by (auto simp: store_start_def Let_def quiet_pass_def [of _ _ _ "Break _ _ _"]
      intro!: store_cont_quiet split: prod.splits)

lemma store_pass_quiet: "quiet_pass so_callback s p (store_pass A s p ec status)"
  by (auto simp: store_pass_def store_entry_def Let_def quiet_pass_def [of _ _ _ "Break _ _ _"]
      quiet_pass_def [of _ _ _ "Again _ _ _ _"]
      intro!: store_cont_quiet store_start_quiet split: prod.splits store_step.splits)

lemma qr_cont_quiet:
  "invoked t = invoked s \<Longrightarrow> ro_callback q = ro_callback p \<Longrightarrow>
   quiet_pass ro_callback s p (qr_cont A t q ec status)"
  by (cases "ro_step q") (auto simp: qr_cont_def quiet_pass_def Let_def split: prod.splits)

lemma qr_store_start_quiet:
  "invoked t = invoked s \<Longrightarrow> ro_callback q = ro_callback p \<Longrightarrow>
   quiet_pass ro_callback s p (qr_store_start A t q ec status)"
  by (auto simp: qr_store_start_def Let_def quiet_pass_def [of _ _ _ "Break _ _ _"]
      intro!: qr_cont_quiet split: prod.splits)

lemma qr_pass_quiet: "quiet_pass ro_callback s p (qr_pass A s p ec status)"
  by (auto simp: qr_pass_def qr_entry_def Let_def quiet_pass_def [of _ _ _ "Break _ _ _"]
      quiet_pass_def [of _ _ _ "Again _ _ _ _"]
      intro!: qr_cont_quiet qr_store_start_quiet split: prod.splits query_step.splits)

lemma finish_invokes:
  assumes "finish_with_result A t k r ec = Some s'" and "invoked t = invoked s"
  shows "invokes_own k s s'"
  using assms
  by (auto simp: finish_with_result_def Let_def intro!: invokes_own_invoke
      split: if_splits option.splits)

lemma store_result_handler_invokes:
  "store_result_handler A s p ec status = Some s' \<Longrightarrow> invokes_own (so_callback p) s s'"
proof (induction A s p ec status rule: store_result_handler.induct)
  case (1 A s p ec status)
  note quiet = store_pass_quiet [of s p A ec status] and h = "1.prems"
  show ?case
  proof (cases "store_pass A s p ec status")
    case (Again t p' e st)
    then show ?thesis
      using "1.IH" [OF Again] h quiet
      by (auto simp: store_result_handler.simps [of A s] quiet_pass_def intro: invokes_own_after)
  qed (use h quiet in
      \<open>auto simp: store_result_handler.simps [of A s] quiet_pass_def
         intro: finish_invokes invokes_own_quiet\<close>)
qed

lemma query_result_handler_invokes:
  "query_result_handler A s p ec status = Some s' \<Longrightarrow> invokes_own (ro_callback p) s s'"
proof (induction A s p ec status rule: query_result_handler.induct)
  case (1 A s p ec status)
  note quiet = qr_pass_quiet [of s p A ec status] and h = "1.prems"
  show ?case
  proof (cases "qr_pass A s p ec status")
    case (Again t p' e st)
    then show ?thesis
      using "1.IH" [OF Again] h quiet
      by (auto simp: query_result_handler.simps [of A s] quiet_pass_def intro: invokes_own_after)
  qed (use h quiet in
      \<open>auto simp: query_result_handler.simps [of A s] quiet_pass_def
         intro: finish_invokes invokes_own_quiet\<close>)
qed

lemma run_op_invokes: "run_op A s q ec status = Some s' \<Longrightarrow> invokes_own (op_callback q) s s'"
  using connect_handler_invokes query_handler_invokes store_result_handler_invokes
    query_result_handler_invokes
  by (cases q) auto

lemma start_invokes:
  assumes "mdb_step A s (Some k) s'"
  shows "invokes_own k s s'"
  using assms
proof cases
  case (mdb_step_async_connect ep au db fl)
  define p where "p = (if \<not> mdb_is_open s then mdb_open A s no_error else (s, no_error))"
  define q where "q = mdb_set_option A (fst p) (nonblock_default A) no_error"
  have "same_io s (fst p)" using plain_open [of s A no_error] by (simp add: p_def plain_call_def)
  moreover have "same_io (fst p) (fst q)" by (simp add: q_def plain_set_option [unfolded plain_call_def])
  ultimately have io: "invoked (fst p) = invoked s" "invoked (fst q) = invoked s"
    by (simp_all add: same_io_def)
  let ?op = "Connect_op (new_connect_op (fst q) k ep au db fl)"
  have "mdb_async_connect A s ep au db fl k =
      (if failed (snd p) then Some (post_callback (Completion k (snd p) None) (fst p))
       else if failed (snd q) then Some (post_callback (Completion k (snd q) None) (fst q))
       else run_op A (fst q) ?op (snd q) 0)"
    unfolding mdb_async_connect_def p_def [symmetric] Let_def
    by (simp add: case_prod_unfold q_def del: run_op.simps)
  then show ?thesis
    using mdb_step_async_connect io invokes_own_after [OF io(2) run_op_invokes [of A _ ?op]]
    by (auto simp: invokes_own_def simp del: run_op.simps split: if_splits)
next
  case (mdb_step_async_query stmt)
  then show ?thesis
    using run_op_invokes [of A s "Query_op (new_query_op s k stmt)" no_error 0 s']
    by (auto simp: mdb_async_query_def invokes_own_def simp del: run_op.simps split: if_splits)
next
  case mdb_step_async_store_result
  then show ?thesis
    using run_op_invokes [of A s "Store_op (new_store_op s k)" no_error 0 s']
    by (auto simp: mdb_async_store_result_def invokes_own_def simp del: run_op.simps
        split: if_splits)
next
  case (mdb_step_async_query_result stmt)
  then show ?thesis
    using run_op_invokes [of A s "Query_result_op (new_query_result_op s k stmt)" no_error 0 s']
    by (auto simp: mdb_async_query_result_def invokes_own_def simp del: run_op.simps
        split: if_splits)
qed

section \<open>Runs with executors\<close>

text \<open>
  A run in which every piece of code has an executor.  \<open>ks\<close> has the callbacks of the operations that
  were started, each with the executor of the code that started it, \<open>calls\<close> the callbacks that were
  invoked, each with the executor of the code that invoked it.  Blocking calls, events and an
  operation that waits once more invoke nothing.
\<close>

definition new_calls :: "('m, 'k, 'z) connection \<Rightarrow> ('m, 'k, 'z) connection \<Rightarrow> 'k list" where
  "new_calls s s' = map callback (drop (length (invoked s)) (invoked s'))"

inductive placed_run ::
  "('m, 'a) mariadb_api_scheme \<Rightarrow> ('k \<Rightarrow> 'e \<Rightarrow> 'e) \<Rightarrow> 'e \<Rightarrow> ('m, 'k) mariadb_connection \<Rightarrow>
     ('k \<times> 'e) list \<Rightarrow> ('m, 'k) mariadb_connection \<Rightarrow> ('k \<times> 'e) list \<Rightarrow> bool"
  for A assoc ioc s where
  placed_begin: "placed_run A assoc ioc s [] s []"
| placed_quiet:
    "placed_run A assoc ioc s ks t calls \<Longrightarrow> mdb_step A t None u \<Longrightarrow> invoked u = invoked t \<Longrightarrow>
     placed_run A assoc ioc s ks u calls"
| placed_start:
    "placed_run A assoc ioc s ks t calls \<Longrightarrow> mdb_step A t (Some k) u \<Longrightarrow>
     placed_run A assoc ioc s (ks @ [(k, e)]) u (calls @ map (\<lambda>c. (c, e)) (new_calls t u))"
| placed_op:
    "placed_run A assoc ioc s ks t calls \<Longrightarrow> ready t = xs @ r # ys \<Longrightarrow>
     run_op A (t\<lparr>ready := xs @ ys\<rparr>) (rdy_op r) (rdy_code r) (rdy_status r) = Some u \<Longrightarrow>
     placed_run A assoc ioc s ks u
       (calls @ map (\<lambda>c. (c, op_executor assoc ioc (rdy_op r))) (new_calls t u))"
| placed_deliver:
    "placed_run A assoc ioc s ks t calls \<Longrightarrow> posted t = xs @ c # ys \<Longrightarrow>
     placed_run A assoc ioc s ks (invoke_callback c (t\<lparr>posted := xs @ ys\<rparr>))
       (calls @ [(callback c, assoc (callback c) ioc)])"

lemma new_calls_own: "invokes_own k s s' \<Longrightarrow> set (new_calls s s') \<subseteq> {k}"
  by (auto simp: invokes_own_def new_calls_def)

text \<open>These runs are the runs of the connection.\<close>

lemma placed_run_is_run: "placed_run A assoc ioc s ks t calls \<Longrightarrow> mdb_run A s (map fst ks) t"
proof (induction rule: placed_run.induct)
  case (placed_quiet ks t calls u)
  then show ?case by (blast intro: mdb_run_call)
next
  case (placed_start ks t calls k u e)
  then show ?case using mdb_run_issue by fastforce
next
  case (placed_op ks t calls xs r ys u)
  then show ?case by (blast intro: mdb_run_call mdb_step_run)
next
  case (placed_deliver ks t calls xs c ys)
  then show ?case by (blast intro: mdb_run_call mdb_step_deliver)
qed (simp add: mdb_run_start)

lemma placed_calls:
  assumes "placed_run A assoc ioc s ks t calls" and "invoked s = []"
  shows "map fst calls = map callback (invoked t)"
  using assms
proof (induction rule: placed_run.induct)
  case (placed_start ks t calls k u e)
  then show ?case
    using start_invokes [OF placed_start.hyps(2)]
    by (auto simp: invokes_own_def new_calls_def comp_def)
next
  case (placed_op ks t calls xs r ys u)
  then show ?case
    using run_op_invokes [OF placed_op.hyps(3)]
    by (auto simp: invokes_own_def new_calls_def comp_def)
qed (simp_all add: invoke_callback_def)

lemma plain_call_invoked: "plain_call s s' \<Longrightarrow> invoked s' = invoked s"
  by (simp add: plain_call_def same_io_def)

lemma invoked_stopped: "invoked (cancel s) = invoked s" "invoked (mdb_close A s) = invoked s"
proof -
  show c: "invoked (cancel s) = invoked s" for s :: "('m, 'k, 'z) connection"
    by (rule same_io_invoked) simp
  show "invoked (mdb_close A s) = invoked s"
    by (simp add: mdb_close_def mdb_close_implementation_def ev_release_def ev_cancel_def
        timer_cancel_def c Let_def)
qed

lemma run_is_placed:
  assumes "mdb_run A s ks t"
  shows "\<exists>pl calls. placed_run A assoc ioc s pl t calls \<and> map fst pl = ks"
  using assms
proof (induction rule: mdb_run.induct)
  case (mdb_run_start s)
  then show ?case using placed_begin by fastforce
next
  case (mdb_run_call s ks t u)
  then obtain pl calls where p: "placed_run A assoc ioc s pl t calls" "map fst pl = ks" by blast
  consider "invoked u = invoked t"
    | (op) xs r ys where "ready t = xs @ r # ys"
        "run_op A (t\<lparr>ready := xs @ ys\<rparr>) (rdy_op r) (rdy_code r) (rdy_status r) = Some u"
    | (post) xs c ys where "posted t = xs @ c # ys" "u = invoke_callback c (t\<lparr>posted := xs @ ys\<rparr>)"
    using mdb_run_call.hyps(2)
    by cases
       (auto simp: mdb_cancel_def invoked_stopped plain_open [THEN plain_call_invoked]
         plain_set_option [THEN plain_call_invoked] plain_connect [THEN plain_call_invoked]
         plain_query [THEN plain_call_invoked] plain_autocommit [THEN plain_call_invoked]
         plain_commit [THEN plain_call_invoked] plain_rollback [THEN plain_call_invoked]
         dest: plain_store_result [THEN plain_call_invoked])
  then show ?case
  proof cases
    case 1
    then show ?thesis using placed_quiet [OF p(1) mdb_run_call.hyps(2)] p(2) by blast
  next
    case op
    then show ?thesis using placed_op [OF p(1)] p(2) by blast
  next
    case post
    then show ?thesis using placed_deliver [OF p(1)] p(2) by blast
  qed
next
  case (mdb_run_issue s ks t k u)
  then obtain pl calls where p: "placed_run A assoc ioc s pl t calls" "map fst pl = ks" by blast
  then show ?case using placed_start [OF p(1) mdb_run_issue.hyps(2)] by fastforce
qed

lemma placed_invoked:
  assumes "placed_run A assoc ioc s ks t calls"
    and "(k, e) \<in> set calls"
  shows "e = assoc k ioc \<or> (k, e) \<in> set ks"
  using assms
proof (induction rule: placed_run.induct)
  case (placed_start ks t calls k' u e')
  then show ?case using new_calls_own [OF start_invokes [OF placed_start.hyps(2)]] by auto
next
  case (placed_op ks t calls xs r ys u)
  have "set (new_calls t u) \<subseteq> {op_callback (rdy_op r)}"
    using new_calls_own [OF run_op_invokes [OF placed_op.hyps(3)]] by (simp add: new_calls_def)
  then show ?case using placed_op by (auto simp: op_hooks)
qed auto

section \<open>Property\<close>

text \<open>
  C19. Where callbacks run.  Every run of a connection can be seen as one in which each piece of
  code has an executor; then each callback runs on the executor that is associated with it, on
  the \<open>io_service\<close> if there is none, or else from within the function that started its operation.
  If every operation is started on the executor of its callback, as from within a strand, all
  callbacks run there.
\<close>

theorem callbacks_on_their_executor:
  fixes s :: "('m, 'k) mariadb_connection" and assoc :: "'k \<Rightarrow> 'e \<Rightarrow> 'e"
  assumes "mdb_run A (new_connection m h) ks s"
  shows "(\<exists>pl calls. placed_run A assoc ioc (new_connection m h) pl s calls \<and> map fst pl = ks) \<and>
         (\<forall>pl calls. placed_run A assoc ioc (new_connection m h) pl s calls \<longrightarrow>
            map fst calls = map callback (invoked s) \<and>
            (\<forall>(k, e) \<in> set calls. e = assoc k ioc \<or> (k, e) \<in> set pl) \<and>
            ((\<forall>(k, e) \<in> set pl. e = assoc k ioc) \<longrightarrow>
             (\<forall>(k, e) \<in> set calls. e = assoc k ioc)))"
proof -
  have "invoked (new_connection m h :: ('m, 'k) mariadb_connection) = []"
    by (simp add: new_connection_defs sp_make_def)
  then show ?thesis
    using run_is_placed [OF assms, of assoc ioc] placed_calls placed_invoked by fastforce
qed

text \<open>An event and the operation that waited for it, any number of times.\<close>

lemma placed_event:
  assumes "placed_run A assoc ioc s ks t calls" and "waits t = [(src, p)]" and "ready t = []"
    and "run_op A (t\<lparr>waits := []\<rparr>) p no_error (event_bit A src) = Some u"
  shows "\<exists>calls. placed_run A assoc ioc s ks u calls"
proof -
  let ?r = "resume_with A no_error (src, p)"
  let ?t = "t\<lparr>waits := [] @ [], ready := ready t @ [?r]\<rparr>"
  have "mdb_step A t None ?t" by (rule mdb_step_event) (simp add: assms(2))
  then have e: "placed_run A assoc ioc s ks ?t calls" by (rule placed_quiet [OF assms(1)]) simp
  have r: "ready ?t = [] @ ?r # []" using assms(3) by simp
  have "?t\<lparr>ready := [] @ []\<rparr> = t\<lparr>waits := []\<rparr>" using assms(3) by (cases t) simp
  then have "run_op A (?t\<lparr>ready := [] @ []\<rparr>) (rdy_op ?r) (rdy_code ?r) (rdy_status ?r) = Some u"
    using assms(4) by (simp only:) (simp add: resume_with_def)
  then show ?thesis using placed_op [OF e r] by blast
qed

lemma placed_serve:
  assumes "placed_run A assoc ioc s ks t calls" and "serve A n t = Some u"
  shows "\<exists>calls. placed_run A assoc ioc s ks u calls"
  using assms
proof (induction n arbitrary: t calls)
  case (Suc n)
  show ?case
  proof (cases "\<exists>src p. waits t = [(src, p)] \<and> ready t = []")
    case True
    then obtain src p where w: "waits t = [(src, p)]" "ready t = []" by blast
    then obtain v where "run_op A (t\<lparr>waits := []\<rparr>) p no_error (event_bit A src) = Some v"
        "serve A n v = Some u"
      using Suc.prems(2) by (auto simp: bind_eq_Some_conv)
    then show ?thesis using placed_event [OF Suc.prems(1) w] Suc.IH by blast
  next
    case False
    then have "u = t" using Suc.prems(2) by (auto split: list.splits)
    then show ?thesis using Suc.prems(1) by blast
  qed
qed auto

text \<open>A query that is started on executor 9, waits twice, and calls back there.\<close>

lemma sample_placed:
  "\<exists>calls. placed_run sample_mariadb (\<lambda>k d. 9) 0
     (new_connection (sample_start [[sample_table]]) no_blocks) [(7, 9 :: nat)] sample_finished calls"
proof -
  let ?c = "new_connection (sample_start [[sample_table]]) no_blocks :: (sample_server, nat) mariadb_connection"
  let ?run = "placed_run sample_mariadb (\<lambda>k d. 9 :: nat) 0 ?c"
  have o: "sample_open [[sample_table]] = fst (mdb_open sample_mariadb ?c no_error)"
    by (simp add: sample_open_def no_blocks_def)
  have i: "invoked (sample_open [[sample_table]]) = invoked ?c"
    unfolding o by (rule plain_call_invoked [OF plain_open])
  have "mdb_step sample_mariadb ?c None (sample_open [[sample_table]])"
    unfolding o by (rule mdb_step_open)
  then have "?run [] (sample_open [[sample_table]]) []"
    by (rule placed_quiet [OF placed_begin _ i])
  moreover have "mdb_step sample_mariadb (sample_open [[sample_table]]) (Some 7) sample_waiting"
    by (rule mdb_step_async_query [where stmt = "''q''"])
       (simp add: sample_waiting_def mdb_async_query_def)
  ultimately have "\<exists>calls. ?run ([] @ [(7, 9)]) sample_waiting calls"
    by (blast intro: placed_start)
  moreover have "\<not> Option.is_none (serve sample_mariadb 2 sample_waiting)" by code_simp
  then have "serve sample_mariadb 2 sample_waiting = Some sample_finished"
    by (auto simp: sample_finished_def Option.is_none_def)
  ultimately show ?thesis using placed_serve by fastforce
qed

theorem callbacks_on_their_executor_witness:
  "\<exists>calls. placed_run sample_mariadb (\<lambda>k d. 9) 0
     (new_connection (sample_start [[sample_table]]) no_blocks) [(7, 9 :: nat)] sample_finished calls \<and>
   map fst calls = [7] \<and> (\<forall>(k, e) \<in> set calls. e = 9)"
proof -
  obtain calls where c: "placed_run sample_mariadb (\<lambda>k d. 9) 0
      (new_connection (sample_start [[sample_table]]) no_blocks) [(7, 9 :: nat)] sample_finished calls"
    using sample_placed by blast
  have "map callback (invoked sample_finished) = [7]" by code_simp
  then show ?thesis
    using callbacks_on_their_executor [OF placed_run_is_run [OF c],
        where assoc = "\<lambda>k d. 9 :: nat" and ioc = 0] c
    by fastforce
qed

end
