(* ===== verification/Mariadb_Destruction.thy ===== *)
theory Mariadb_Destruction
  imports Mariadb_Properties Connector_Pool
begin

text \<open>
  The end of a connector over \<open>mariadb_service\<close>.  \<open>basic_io_object\<close> calls \<open>destroy\<close> and then runs
  the destructor of the implementation, while operations of the connection may still wait or be
  ready; these keep a reference to the implementation, and run when the \<open>io_service\<close> gets to
  them.
\<close>

section \<open>Destroying the connection\<close>

text \<open>
  The body of the destructor closes once more, whether open or not; then the members go in the
  reverse order of their declarations: the timer and the descriptor, which cancel what waits on
  them, the token and the last result.
\<close>

definition mdb_implementation_destructor ::
  "('m, 'a) mariadb_api_scheme \<Rightarrow> ('m, 'k, 'z) connection \<Rightarrow> ('m, 'k, 'z) connection" where
  "mdb_implementation_destructor A s =
     (let s1 = mdb_close_implementation A s;
          s2 = (if timer_set s1 then timer_cancel A s1 else s1)\<lparr>timer_set := False\<rparr>;
          s3 = ev_release A s2
      in free_result A (drop_token s3))"

definition mdb_destroy_connector ::
  "('m, 'a) mariadb_api_scheme \<Rightarrow> ('m, 'k, 'z) connection \<Rightarrow> ('m, 'k, 'z) connection" where
  "mdb_destroy_connector A s = mdb_implementation_destructor A (mdb_destroy A s)"

text \<open>
  What the \<open>io_service\<close> still does for a connection that is gone: the events of operations that
  wait, the operations that are ready, and the callbacks that were posted.
\<close>

inductive drain_step ::
  "('m, 'a) mariadb_api_scheme \<Rightarrow> ('m, 'k, 'z) connection \<Rightarrow> ('m, 'k, 'z) connection \<Rightarrow> bool"
  for A where
  drain_event:
    "waits s = xs @ w # ys \<Longrightarrow>
     drain_step A s (s\<lparr>waits := xs @ ys, ready := ready s @ [resume_with A no_error w]\<rparr>)"
| drain_run:
    "ready s = xs @ r # ys \<Longrightarrow>
     run_op A (s\<lparr>ready := xs @ ys\<rparr>) (rdy_op r) (rdy_code r) (rdy_status r) = Some s' \<Longrightarrow>
     drain_step A s s'"
| drain_deliver:
    "posted s = xs @ c # ys \<Longrightarrow> drain_step A s (invoke_callback c (s\<lparr>posted := xs @ ys\<rparr>))"

section \<open>Nothing waits any more\<close>

lemma waits_cancel_waits: "waits (cancel_waits H P s) = filter (\<lambda>w. \<not> P w) (waits s)"
  by (simp add: cancel_waits_def)

lemma waits_frame [simp]:
  "waits (drop_token s) = waits s" "waits (cancel s) = waits s"
  "timer_set (drop_token s) = timer_set s" "timer_set (cancel s) = timer_set s"
  "timer_set (free_result A s) = timer_set s" "timer_set (cancel_waits H P s) = timer_set s"
proof -
  show "waits (drop_token s) = waits s" "timer_set (drop_token s) = timer_set s"
    by (cases "cancelation_token s"; simp add: drop_token_def)+
  show "waits (cancel s) = waits s" "timer_set (cancel s) = timer_set s"
    using same_io_cancel [of s s] by (simp_all add: same_io_def del: same_io_cancel)
  show "timer_set (free_result A s) = timer_set s"
    using same_io_free_result [of s A s] by (simp add: same_io_def del: same_io_free_result)
qed (simp add: cancel_waits_def)

lemma close_implementation_waits:
  assumes "timer_set s"
  shows "waits (mdb_close_implementation A s) = []" and "timer_set (mdb_close_implementation A s)"
  using assms
  by (simp_all add: mdb_close_implementation_def ev_release_def ev_cancel_def timer_cancel_def
      waits_cancel_waits Let_def)

text \<open>
  What the two closes and the destruction of the members keep: the number of things that are
  outstanding, whose they are, and that the heap only evolves.
\<close>

definition outstanding :: "('m, 'k, 'z) connection \<Rightarrow> nat" where
  "outstanding s = length (waits s) + length (ready s) + length (posted s)"

definition same_work :: "('m, 'k, 'z) connection \<Rightarrow> ('m, 'k, 'z) connection \<Rightarrow> bool" where
  "same_work s t \<longleftrightarrow>
     settled t = settled s \<and> set (ops t) = set (ops s) \<and> outstanding t = outstanding s \<and>
     posted t = posted s \<and> invoked t = invoked s \<and> evolves s t"

lemma same_work_refl [simp]: "same_work s s"
  by (simp add: same_work_def)

lemma same_work_trans: "same_work s t \<Longrightarrow> same_work t u \<Longrightarrow> same_work s u"
  by (auto simp: same_work_def intro: evolves_trans)

lemma same_work_same_io:
  assumes "same_io s t" and "evolves s t"
  shows "same_work s t"
  using assms same_io_settled [OF assms(1)]
  by (simp add: same_work_def same_io_def outstanding_def)

lemma same_work_cancel_waits: "same_work s (cancel_waits H P s)"
proof -
  have "length (filter (\<lambda>w. \<not> P w) (waits s)) + length (filter P (waits s)) = length (waits s)"
    using sum_length_filter_compl [of P "waits s"] by simp
  then show ?thesis
    by (simp add: same_work_def outstanding_def) (simp add: cancel_waits_def evolves_def)
qed

lemma same_work_updates:
  "same_work s (s\<lparr>ev_fd := fd\<rparr>)" "same_work s (s\<lparr>timer_set := b\<rparr>)"
  "same_work s (s\<lparr>first_result_stored := b\<rparr>)" "same_work s (s\<lparr>mysql := m, initialized := b\<rparr>)"
  by (rule same_work_same_io, simp add: same_io_def, simp add: evolves_def; fail | 
      simp add: same_work_def outstanding_def ops_def settled_def held_def evolves_def)+

lemma same_io_drop_token: "same_io s (drop_token s)"
  by (cases "cancelation_token s") (simp_all add: drop_token_def same_io_def)

lemma same_work_members_of_heap:
  "same_work s (free_result A s)" "same_work s (drop_token s)" "same_work s (cancel s)"
  by (simp_all add: same_work_same_io same_io_drop_token drop_token_evolves free_result_evolves
      cancel_evolves)

lemma same_work_ev_release: "same_work s (ev_release H s)"
  unfolding ev_release_def ev_cancel_def
  by (rule same_work_trans [OF same_work_cancel_waits same_work_updates(1)])

lemma same_work_timer: "same_work s (if b then timer_cancel H s else s)"
  by (simp add: timer_cancel_def same_work_cancel_waits)

lemma same_work_close_implementation: "same_work s (mdb_close_implementation A s)"
proof -
  define u where
    "u = (if initialized s
          then s\<lparr>mysql := c_mysql_close A (mysql s), initialized := False\<rparr> else s)"
  define v where "v = ev_release A u"
  define w where "w = (if timer_set v then timer_cancel A v else v)"
  have "same_work s u" by (simp add: u_def same_work_updates(4))
  moreover have "same_work u v" unfolding v_def by (rule same_work_ev_release)
  moreover have "same_work v w" unfolding w_def by (rule same_work_timer)
  moreover have "same_work w (w\<lparr>first_result_stored := False\<rparr>)" by (rule same_work_updates)
  moreover have "mdb_close_implementation A s =
      cancel (free_result A (w\<lparr>first_result_stored := False\<rparr>))"
    by (simp add: mdb_close_implementation_def u_def v_def w_def Let_def)
  ultimately show ?thesis
    using same_work_members_of_heap(1,3) same_work_trans by metis
qed

lemma same_work_members:
  "same_work (mdb_close_implementation A s) (mdb_implementation_destructor A s)"
proof -
  define s1 where "s1 = mdb_close_implementation A s"
  define s2 where "s2 = (if timer_set s1 then timer_cancel A s1 else s1)\<lparr>timer_set := False\<rparr>"
  have "same_work s1 s2"
    unfolding s2_def by (rule same_work_trans [OF same_work_timer same_work_updates(2)])
  moreover have "same_work s2 (free_result A (drop_token (ev_release A s2)))"
    using same_work_ev_release same_work_members_of_heap(1,2) same_work_trans by metis
  moreover have "mdb_implementation_destructor A s = free_result A (drop_token (ev_release A s2))"
    by (simp add: mdb_implementation_destructor_def s1_def s2_def Let_def)
  ultimately show ?thesis unfolding s1_def using same_work_trans by metis
qed

lemma same_work_destroyed: "same_work s (mdb_destroy A s)"
  by (simp add: mdb_destroy_def mdb_close_def same_work_close_implementation)

lemma same_work_destructor: "same_work s (mdb_implementation_destructor A s)"
  by (rule same_work_trans [OF same_work_close_implementation same_work_members])

lemma same_work_destroy: "same_work s (mdb_destroy_connector A s)"
  unfolding mdb_destroy_connector_def
  by (rule same_work_trans [OF same_work_destroyed same_work_destructor])

lemma destroyed_waits:
  assumes "timer_set s"
  shows "waits (mdb_destroy_connector A s) = []"
proof -
  have "timer_set (mdb_destroy A s)"
    using assms by (simp add: mdb_destroy_def mdb_close_def close_implementation_waits)
  from close_implementation_waits [OF this, of A] show ?thesis
    by (simp add: mdb_destroy_connector_def mdb_implementation_destructor_def ev_release_def
        ev_cancel_def timer_cancel_def waits_cancel_waits Let_def)
qed

section \<open>Every operation has expired\<close>

lemma close_implementation_token:
  assumes "impl_inv s"
  shows "impl_inv (mdb_close_implementation A s)"
    and "expired (wp_of (cancelation_token s)) (mdb_close_implementation A s)"
proof -
  obtain t where t: "mdb_close_implementation A s = cancel (free_result A t)" "keeps s t"
    by (rule close_stages)
  have k: "keeps s (free_result A t)" using t(2) keeps_free_result keeps_trans by blast
  then have "impl_inv (free_result A t)" "cancelation_token (free_result A t) = cancelation_token s"
    using assms by (auto simp: keeps_def)
  then show "impl_inv (mdb_close_implementation A s)"
    and "expired (wp_of (cancelation_token s)) (mdb_close_implementation A s)"
    using cancel_inv [of "free_result A t"] cancel_expires [of "free_result A t"]
    by (simp_all add: t(1))
qed

lemma destroyed_ops_expired:
  assumes "mdb_inv s" and "q \<in> set (ops s)"
  shows "expired (op_token q) (mdb_destroy_connector A s)"
proof -
  have e: "evolves s (mdb_destroy_connector A s)"
    using same_work_destroy [of s A] by (simp add: same_work_def)
  have i: "impl_inv s" using assms(1) by (simp add: mdb_inv_def)
  let ?w = "wp_of (cancelation_token s)" and ?c = "mdb_close_implementation A s"
  have "same_work ?c (mdb_destroy_connector A s)"
  proof (cases "mdb_is_open s")
    case True
    then show ?thesis
      by (simp add: mdb_destroy_connector_def mdb_destroy_def mdb_close_def same_work_destructor)
  next
    case False
    then show ?thesis
      by (simp add: mdb_destroy_connector_def mdb_destroy_def mdb_close_def same_work_members)
  qed
  moreover have "weak_allocated ?w ?c"
    using same_work_close_implementation [of s A] token_allocated [OF i] evolves_weak_allocated
    unfolding same_work_def by blast
  ultimately have "expired ?w (mdb_destroy_connector A s)"
    using close_implementation_token(2) [OF i, of A] evolves_expired unfolding same_work_def by blast
  then show ?thesis
    using stopped_ops [OF assms(1) e _ assms(2)] by blast
qed

section \<open>Draining\<close>

lemma drained_op:
  assumes "\<And>q. q \<in> set (ops s) \<Longrightarrow> expired (op_token q) s" and "failed (operation_aborted A)"
    and "ready s = xs @ r # ys"
  shows "run_op A (s\<lparr>ready := xs @ ys\<rparr>) (rdy_op r) ec status =
           Some (invoke_callback
             (Completion (op_callback (rdy_op r)) (operation_aborted A) (aborted_op_result (rdy_op r)))
             (s\<lparr>ready := xs @ ys\<rparr>))"
proof (rule run_op_expired [OF _ assms(2)])
  have "rdy_op r \<in> set (ops s)" using assms(3) by (simp add: ops_def)
  then show "expired (op_token (rdy_op r)) (s\<lparr>ready := xs @ ys\<rparr>)"
    using assms(1) by (cases "op_token (rdy_op r)") (auto dest: assms(1))
qed

text \<open>
  What a destroyed connection has come to after \<open>n\<close> steps of draining.
\<close>

definition drained ::
  "('m, 'a) mariadb_api_scheme \<Rightarrow> ('m, 'k, 'z) connection \<Rightarrow> nat \<Rightarrow> ('m, 'k, 'z) connection \<Rightarrow> bool"
where
  "drained A d n u \<longleftrightarrow>
     conn u = conn d \<and> waits u = [] \<and> settled u = settled d \<and>
     set (ops u) \<subseteq> set (ops d) \<and> set (posted u) \<subseteq> set (posted d) \<and>
     n + outstanding u = outstanding d \<and>
     (\<forall>c \<in> set (invoked u). c \<in> set (invoked d) \<or> c \<in> set (posted d) \<or>
        comp_code c = operation_aborted A)"

lemma drained_start: "waits d = [] \<Longrightarrow> drained A d 0 d"
  by (simp add: drained_def)

lemma same_tokens: "conn u = conn d \<Longrightarrow> expired w u = expired w d"
  using conn_weak(1) [of w u] conn_weak(1) [of w d] by simp

lemma drained_step:
  assumes "drained A d n u" and "drain_step A u v"
    and "\<And>q. q \<in> set (ops d) \<Longrightarrow> expired (op_token q) d" and "failed (operation_aborted A)"
  shows "drained A d (Suc n) v"
  using assms(2)
proof cases
  case (drain_event xs w ys)
  then show ?thesis using assms(1) by (simp add: drained_def)
next
  case (drain_run xs r ys)
  have "expired (op_token q) u" if "q \<in> set (ops u)" for q
    using that assms(1,3) same_tokens [of u d] by (auto simp: drained_def)
  from drained_op [OF this assms(4) drain_run(1)] have
    "v = invoke_callback (Completion (op_callback (rdy_op r)) (operation_aborted A)
       (aborted_op_result (rdy_op r))) (u\<lparr>ready := xs @ ys\<rparr>)"
    using drain_run(2) by simp
  then show ?thesis
    using assms(1) drain_run(1)
    by (auto simp: drained_def outstanding_def ops_def settled_def held_def invoke_callback_def)
next
  case (drain_deliver xs c ys)
  then show ?thesis
    using assms(1)
    by (auto simp: drained_def outstanding_def ops_def settled_def held_def invoke_callback_def)
qed

lemma drained_steps:
  assumes "(drain_step A ^^ n) d u" and "waits d = []"
    and "\<And>q. q \<in> set (ops d) \<Longrightarrow> expired (op_token q) d" and "failed (operation_aborted A)"
  shows "drained A d n u"
  using assms(1)
proof (induction n arbitrary: u)
  case 0
  then show ?case using drained_start [OF assms(2)] by simp
next
  case (Suc n)
  then obtain v where "(drain_step A ^^ n) d v" "drain_step A v u" by auto
  with Suc.IH drained_step [OF _ _ assms(3,4)] show ?case by blast
qed

lemma drained_progress:
  assumes "drained A d n u" and "n < outstanding d"
    and "\<And>q. q \<in> set (ops d) \<Longrightarrow> expired (op_token q) d" and "failed (operation_aborted A)"
  shows "\<exists>v. drain_step A u v"
proof -
  have "ready u \<noteq> [] \<or> posted u \<noteq> []"
    using assms(1,2) by (auto simp: drained_def outstanding_def)
  then show ?thesis
  proof
    assume "ready u \<noteq> []"
    then obtain r ys where r: "ready u = [] @ r # ys" by (cases "ready u") auto
    have "expired (op_token q) u" if "q \<in> set (ops u)" for q
      using that assms(1,3) same_tokens [of u d] by (auto simp: drained_def)
    from drain_run [OF r] drained_op [OF this assms(4) r] show ?thesis by blast
  next
    assume "posted u \<noteq> []"
    then obtain c ys where "posted u = [] @ c # ys" by (cases "posted u") auto
    from drain_deliver [OF this] show ?thesis by blast
  qed
qed

section \<open>Properties\<close>

lemma reachable_timer:
  assumes "mdb_run A (new_connection m h) ks s"
  shows "timer_set s"
  using wait_ok_run [OF assms wait_ok_new] by (simp add: wait_ok_def)

text \<open>
  C14. Destroying a connector over \<open>mariadb_service\<close> at any moment of any run.  Afterwards
  nothing waits; what is outstanding is worked off in exactly as many steps, in any order, and
  is never stuck before.  Nothing of it touches the connection that is gone or the library: the
  composed operations invoke their callbacks with \<open>operation_aborted\<close>, and only callbacks that
  had been posted before have another code.  In the end every callback has been invoked as often
  as it was handed over.
\<close>

theorem mdb_destroyed_connection_drains:
  fixes s :: "('m, 'k) mariadb_connection"
  assumes "heap_wf h" and "mdb_run A (new_connection m h) ks s" and "failed (operation_aborted A)"
    and "d = mdb_destroy_connector A s" and "(drain_step A ^^ n) d u"
  shows "conn u = conn d \<and> waits u = [] \<and>
         (\<forall>c \<in> set (invoked u). c \<in> set (invoked s) \<or> c \<in> set (posted s) \<or>
            comp_code c = operation_aborted A) \<and>
         n + outstanding u = outstanding s \<and> (n < outstanding s \<longrightarrow> (\<exists>v. drain_step A u v)) \<and>
         (waits_supported A \<longrightarrow> n = outstanding s \<longrightarrow> mset (map callback (invoked u)) = mset ks)"
proof -
  have inv: "mdb_inv s" using reachable_inv [OF assms(1,2)] .
  have work: "same_work s d" using same_work_destroy assms(4) by simp
  have ex: "expired (op_token q) d" if "q \<in> set (ops d)" for q
    using that work destroyed_ops_expired [OF inv, of q A] assms(4) by (simp add: same_work_def)
  have w: "waits d = []" using destroyed_waits [OF reachable_timer [OF assms(2)]] assms(4) by simp
  have u: "drained A d n u" using drained_steps [OF assms(5) w ex assms(3)] .
  have "held u = {#}" if "n = outstanding s"
    using that u work by (auto simp: drained_def same_work_def outstanding_def held_def ops_def)
  moreover have "settled s = mset ks" if "waits_supported A"
  proof -
    let ?c = "new_connection m h :: ('m, 'k) mariadb_connection"
    have "mdb_inv ?c" "settled ?c = {#}" by (rule new_connection_inv [OF assms(1)])+
    then show ?thesis using mdb_run_ok [OF assms(2)] that by (simp add: step_ok_def counts_def)
  qed
  ultimately show ?thesis
    using u work drained_progress [OF u _ ex assms(3)]
    by (auto simp: drained_def same_work_def settled_def [of u])
qed

theorem mdb_destroyed_connection_drains_witness:
  "\<exists>u. drain_step sample_mariadb (mdb_destroy_connector sample_mariadb sample_waiting) u \<and>
     map callback (invoked u) = [7] \<and> map comp_code (invoked u) = [operation_aborted sample_mariadb]"
proof -
  let ?d = "mdb_destroy_connector sample_mariadb sample_waiting"
  have f: "failed (operation_aborted sample_mariadb)"
    and s: "outstanding sample_waiting = 1" "invoked sample_waiting = []" "posted sample_waiting = []"
    by code_simp+
  note drains = mdb_destroyed_connection_drains [OF no_blocks_wf sample_waiting_run f refl]
  obtain u where u: "drain_step sample_mariadb ?d u"
    using drains [of 0 ?d] s(1) by auto
  then have "(drain_step sample_mariadb ^^ 1) ?d u" by (simp only: relpowp_1)
  from drains [OF this] sample_waits_supported
  have "mset (map callback (invoked u)) = {#7#}"
    and "\<forall>c \<in> set (invoked u). comp_code c = operation_aborted sample_mariadb"
    using s by auto
  then obtain c where "invoked u = [c]" "callback c = 7" "comp_code c = operation_aborted sample_mariadb"
    by (cases "invoked u"; cases "tl (invoked u)") auto
  with u show ?thesis by auto
qed

text \<open>
  What the library sees of it: an open connection is closed, and then the last result is freed,
  each once.
\<close>

lemma io_handle [simp]:
  "mysql (cancel_waits H P s) = mysql s" "initialized (cancel_waits H P s) = initialized s"
  "last_result (cancel_waits H P s) = last_result s"
  by (simp_all add: cancel_waits_def)

lemma conn_close_implementation:
  "conn (mdb_close_implementation A s) = conn (close_implementation A s)"
  by (simp add: mdb_close_implementation_def close_implementation_def ev_release_def ev_cancel_def
      timer_cancel_def Let_def)

lemma mdb_close_implementation_handle:
  "mysql (mdb_close_implementation A s) =
     mysql (free_result A (if initialized s then s\<lparr>mysql := c_mysql_close A (mysql s)\<rparr> else s))"
  "last_result (mdb_close_implementation A s) = Empty_ptr"
  "\<not> initialized (mdb_close_implementation A s)"
proof -
  from conn_eqD [OF conn_close_implementation [of A s]]
  show "mysql (mdb_close_implementation A s) =
      mysql (free_result A (if initialized s then s\<lparr>mysql := c_mysql_close A (mysql s)\<rparr> else s))"
    and "last_result (mdb_close_implementation A s) = Empty_ptr"
    and "\<not> initialized (mdb_close_implementation A s)"
    by (simp_all add: close_implementation_handle)
      (simp_all add: close_implementation_def frame_simps Let_def)
qed

lemma mdb_destructor_handle:
  "mysql (mdb_implementation_destructor A s) = mysql (mdb_close_implementation A s)"
  by (simp add: mdb_implementation_destructor_def ev_release_def ev_cancel_def timer_cancel_def
      frame_simps mdb_close_implementation_handle(2) free_result_empty Let_def)

theorem mdb_destroyed_handle:
  fixes s :: "('m, 'k, 'z) connection"
  shows "mysql (mdb_destroy_connector A s) =
     mysql (free_result A (if initialized s then s\<lparr>mysql := c_mysql_close A (mysql s)\<rparr> else s))"
  using mdb_close_implementation_handle [of A s]
    mdb_close_implementation_handle(1) [of A "mdb_close_implementation A s"]
  by (simp add: mdb_destroy_connector_def mdb_destroy_def mdb_close_def mdb_is_open_def
      free_result_empty mdb_destructor_handle)

end
