(* ===== verification/Mariadb_Protocol.thy ===== *)
theory Mariadb_Protocol
  imports Library_Protocol Mariadb_Destruction
begin

text \<open>
  How \<open>mariadb_service\<close> uses the client library: the accounts of \<open>Library_Protocol\<close> for the
  non-blocking routines and the composed operations.
\<close>

section \<open>The non-blocking routines\<close>

text \<open>A result is handed out when the call is complete.\<close>

definition hand_over ::
  "'m tracked \<times> res_ptr option \<times> i32 \<Rightarrow> 'm tracked \<times> res_ptr option \<times> i32" where
  "hand_over x =
     (case x of (t, p, status) \<Rightarrow>
        if status = wait_finish
        then (t\<lparr>live_results := handed_out p @ live_results t\<rparr>, p, status) else (t, p, status))"

definition tracked_mariadb :: "('m, 'a) mariadb_api_scheme \<Rightarrow> 'm tracked mariadb_api" where
  "tracked_mariadb A = tracked_api A (mariadb_api.fields
     (bad_descriptor_value A)
     (\<lambda>t. c_mysql_get_socket A (lib t))
     (\<lambda>t. c_mysql_get_timeout_value_ms A (lib t))
     (\<lambda>r t host us pw db port sock fl.
        on_handle Nonblocking
          (\<lambda>m. c_mysql_real_connect_start A r m host us pw db port sock fl) t)
     (\<lambda>r t st. on_handle Nonblocking (\<lambda>m. c_mysql_real_connect_cont A r m st) t)
     (\<lambda>r t stmt len. on_handle Nonblocking (\<lambda>m. c_mysql_real_query_start A r m stmt len) t)
     (\<lambda>r t st. on_handle Nonblocking (\<lambda>m. c_mysql_real_query_cont A r m st) t)
     (\<lambda>r t. hand_over (on_handle Nonblocking (c_mysql_store_result_start A r) t))
     (\<lambda>r t st. hand_over (on_handle Nonblocking (\<lambda>m. c_mysql_store_result_cont A r m st) t))
     (\<lambda>r t. on_handle Nonblocking (c_mysql_next_result_start A r) t)
     (\<lambda>r t st. on_handle Nonblocking (\<lambda>m. c_mysql_next_result_cont A r m st) t)
     (\<lambda>r t p. on_result Fetch_row (c_mysql_fetch_row_start A r) t p)
     (\<lambda>r t p st. on_result Fetch_row (\<lambda>m q. c_mysql_fetch_row_cont A r m q st) t p))"

lemma tracked_mariadb_fields [simp]:
  "c_mysql_real_connect_start (tracked_mariadb A) =
     (\<lambda>r t host us pw db port sock fl. on_handle Nonblocking
        (\<lambda>m. c_mysql_real_connect_start A r m host us pw db port sock fl) t)"
  "c_mysql_real_connect_cont (tracked_mariadb A) =
     (\<lambda>r t st. on_handle Nonblocking (\<lambda>m. c_mysql_real_connect_cont A r m st) t)"
  "c_mysql_real_query_start (tracked_mariadb A) =
     (\<lambda>r t stmt len. on_handle Nonblocking (\<lambda>m. c_mysql_real_query_start A r m stmt len) t)"
  "c_mysql_real_query_cont (tracked_mariadb A) =
     (\<lambda>r t st. on_handle Nonblocking (\<lambda>m. c_mysql_real_query_cont A r m st) t)"
  "c_mysql_store_result_start (tracked_mariadb A) =
     (\<lambda>r t. hand_over (on_handle Nonblocking (c_mysql_store_result_start A r) t))"
  "c_mysql_store_result_cont (tracked_mariadb A) =
     (\<lambda>r t st. hand_over (on_handle Nonblocking (\<lambda>m. c_mysql_store_result_cont A r m st) t))"
  "c_mysql_next_result_start (tracked_mariadb A) =
     (\<lambda>r t. on_handle Nonblocking (c_mysql_next_result_start A r) t)"
  "c_mysql_next_result_cont (tracked_mariadb A) =
     (\<lambda>r t st. on_handle Nonblocking (\<lambda>m. c_mysql_next_result_cont A r m st) t)"
  by (simp_all add: tracked_mariadb_def tracked_api_def mariadb_api.defs)

section \<open>One call inside a composed operation\<close>

text \<open>
  The operations of \<open>mariadb_service\<close> that do not ask whether the connection is open: unlike in
  \<open>mysql_service\<close>, \<open>set_option\<close> does.
\<close>

definition unasked :: "routine set" where
  "unasked = {Store_result, Set_autocommit}"

lemma unasked_routines [simp]: "Store_result \<in> unasked" "Set_autocommit \<in> unasked"
  by (simp_all add: unasked_def)

lemma nonblocking_accounted:
  assumes "on_handle Nonblocking f (mysql s) = (t, r)" and "accounted unasked s" and "initialized s"
  shows "accounted unasked (s\<lparr>mysql := t\<rparr>)"
  by (rule on_handle_accounted [OF assms(1,2)]) (simp add: assms(3))

lemma hand_over_owing:
  assumes "hand_over (on_handle Nonblocking f (mysql s)) = (t, r, status)"
    and "accounted unasked s" and "initialized s"
  shows "if status = wait_finish then owing unasked r (s\<lparr>mysql := t\<rparr>) else accounted unasked (s\<lparr>mysql := t\<rparr>)"
proof -
  obtain t' r' st where o: "on_handle Nonblocking f (mysql s) = (t', r', st)" by (metis prod_cases3)
  from nonblocking_accounted [OF o assms(2,3)] show ?thesis
    using assms(1) o by (auto simp: hand_over_def owing_def accounted_def split: if_splits)
qed

lemma wrapped_call:
  "mysql_start H w call ec = (m, r, st, e) \<Longrightarrow> call = (m, r, st)"
  "mysql_continue H w call ec = (m, r, st, e) \<Longrightarrow> call = (m, r, st)"
  by (auto simp: mysql_start_def mysql_continue_def Let_def split: prod.splits)

lemma wrapped_result:
  "mysql_start H (wrap_result A) call ec = (m, r, st, e) \<Longrightarrow> st = wait_finish \<Longrightarrow> failed e \<Longrightarrow> r = None"
  "mysql_continue H (wrap_result A) call ec = (m, r, st, e) \<Longrightarrow> st = wait_finish \<Longrightarrow> failed e \<Longrightarrow> r = None"
  by (auto simp: mysql_start_def mysql_continue_def wrap_result_def error_wrapper_ptr_def clear_error_def
      Let_def split: prod.splits if_splits)

lemma simple_calls:
  assumes "accounted unasked s" and "initialized s"
  shows "mysql_real_connect_start (tracked_mariadb A) r (mysql s) h u pw db port sock fl ec = (m, r', st, e) \<Longrightarrow>
           accounted unasked (s\<lparr>mysql := m\<rparr>)"
    and "mysql_real_connect_cont (tracked_mariadb A) r (mysql s) status ec = (m, r', st, e) \<Longrightarrow>
           accounted unasked (s\<lparr>mysql := m\<rparr>)"
    and "mysql_real_query_start (tracked_mariadb A) q (mysql s) stmt len ec = (m, q', st, e) \<Longrightarrow>
           accounted unasked (s\<lparr>mysql := m\<rparr>)"
    and "mysql_real_query_cont (tracked_mariadb A) q (mysql s) status ec = (m, q', st, e) \<Longrightarrow>
           accounted unasked (s\<lparr>mysql := m\<rparr>)"
    and "mysql_next_result_start (tracked_mariadb A) q (mysql s) ec = (m, q', st, e) \<Longrightarrow>
           accounted unasked (s\<lparr>mysql := m\<rparr>)"
    and "mysql_next_result_cont (tracked_mariadb A) q (mysql s) status ec = (m, q', st, e) \<Longrightarrow>
           accounted unasked (s\<lparr>mysql := m\<rparr>)"
  by (auto simp: mysql_real_connect_start_def mysql_real_connect_cont_def mysql_real_query_start_def
      mysql_real_query_cont_def mysql_next_result_start_def mysql_next_result_cont_def
      intro: nonblocking_accounted [OF _ assms] dest!: wrapped_call)

lemma store_calls:
  assumes "accounted unasked s" and "initialized s"
    and "mysql_store_result_start (tracked_mariadb A) p (mysql s) ec = (m, r, st, e) \<or>
         mysql_store_result_cont (tracked_mariadb A) p (mysql s) status ec = (m, r, st, e)"
  shows "st = wait_finish \<and> \<not> failed e \<Longrightarrow> owing unasked r (s\<lparr>mysql := m\<rparr>)"
    and "st \<noteq> wait_finish \<or> failed e \<Longrightarrow> accounted unasked (s\<lparr>mysql := m\<rparr>)"
proof -
  have o: "if st = wait_finish then owing unasked r (s\<lparr>mysql := m\<rparr>) else accounted unasked (s\<lparr>mysql := m\<rparr>)"
    using assms(3)
    by (auto simp: mysql_store_result_start_def mysql_store_result_cont_def
        dest!: wrapped_call hand_over_owing [OF _ assms(1,2)] split: if_splits)
  have n: "st = wait_finish \<Longrightarrow> failed e \<Longrightarrow> r = None"
    using assms(3)
    by (auto simp: mysql_store_result_start_def mysql_store_result_cont_def dest: wrapped_result)
  show "st = wait_finish \<and> \<not> failed e \<Longrightarrow> owing unasked r (s\<lparr>mysql := m\<rparr>)" using o by simp
  show "st \<noteq> wait_finish \<or> failed e \<Longrightarrow> accounted unasked (s\<lparr>mysql := m\<rparr>)"
    using o n owing_None by (cases "st = wait_finish") auto
qed

section \<open>The composed operations\<close>

lemma accounted_io [simp]:
  "accounted unasked (invoke_callback c s) = accounted unasked s" "accounted unasked (post_callback c s) = accounted unasked s"
  "accounted unasked (s\<lparr>waits := ws\<rparr>) = accounted unasked s" "accounted unasked (s\<lparr>ready := rs\<rparr>) = accounted unasked s"
  "accounted unasked (s\<lparr>posted := cs\<rparr>) = accounted unasked s" "accounted unasked (s\<lparr>ev_fd := fd\<rparr>) = accounted unasked s"
  "accounted unasked (s\<lparr>timer_set := b\<rparr>) = accounted unasked s"
  "accounted unasked (cancel_waits H P s) = accounted unasked s"
  by (simp_all add: accounted_def invoke_callback_def post_callback_def)

lemma accounted_waits [simp]:
  "accounted unasked (timer_cancel H s) = accounted unasked s" "accounted unasked (ev_cancel H s) = accounted unasked s"
  "accounted unasked (ev_release H s) = accounted unasked s" "accounted unasked (ev_async_wait H src q s) = accounted unasked s"
  "accounted unasked (timer_async_wait ms q s) = accounted unasked s"
  by (simp_all add: timer_cancel_def ev_cancel_def ev_release_def ev_async_wait_def
      timer_async_wait_def Let_def)

lemma accounted_async_wait [simp]: "accounted unasked (async_wait_mysql B st q s) = accounted unasked s"
  by (simp add: async_wait_mysql_def stop_waits_def assign_socket_def Let_def)

lemma connect_wait_accounted: "accounted unasked s \<Longrightarrow> accounted unasked (connect_wait B s p ec status)"
  by (simp add: connect_wait_def Let_def)

lemma query_wait_accounted: "accounted unasked s \<Longrightarrow> accounted unasked (query_wait B s p ec status)"
  by (simp add: query_wait_def Let_def)

text \<open>A handler runs on a connection that is open, or its token has expired and it aborts.\<close>

definition may_run :: "('m, 'z) implementation_scheme \<Rightarrow> unit weak_ptr \<Rightarrow> bool" where
  "may_run s w \<longleftrightarrow> expired w s \<or> initialized s"

lemma aborted_tracked [simp]: "operation_aborted (tracked_mariadb A) = operation_aborted A"
  by (simp add: operation_aborted_def tracked_mariadb_def tracked_api_def)

lemma not_aborted:
  assumes "\<not> failed (abort_if_expired (tracked_mariadb A) w s ec)" and "may_run s w"
    and "failed (operation_aborted A)"
  shows "initialized s"
  using assms by (auto simp: abort_if_expired_def may_run_def split: if_splits)

lemma connect_handler_accounted:
  assumes "accounted unasked s" and "may_run s (co_token p)" and "failed (operation_aborted A)"
  shows "accounted unasked (connect_handler (tracked_mariadb A) s p ec status)"
proof -
  let ?T = "tracked_mariadb A" and ?ec = "abort_if_expired (tracked_mariadb A) (co_token p) s ec"
  note opened = not_aborted [OF _ assms(2,3)]
  show ?thesis
  proof (cases "failed ?ec")
    case False
    note calls = simple_calls(1,2) [OF assms(1) opened [OF False]]
    have "accounted unasked (s\<lparr>mysql := m, flags := fl\<rparr>)" if "accounted unasked (s\<lparr>mysql := m\<rparr>)" for m fl
      using that by simp
    then show ?thesis
      using False assms(1)
      by (auto simp: connect_handler_def Let_def
          intro!: connect_wait_accounted dest: calls split: prod.splits)
  qed (simp add: connect_handler_def assms(1))
qed

lemma freed_accounted:
  assumes "accounted unasked s" and "impl_inv s" and "initialized s"
  shows "accounted unasked (free_result (tracked_mariadb A) s)"
    and "impl_inv (free_result (tracked_mariadb A) s)"
    and "initialized (free_result (tracked_mariadb A) s)"
  using free_result_accounted [OF assms(2,1)] free_result_inv [OF assms(2)] assms(3)
  by (simp_all add: tracked_mariadb_def frame_simps)

lemma query_handler_accounted:
  assumes "impl_inv s" and "accounted unasked s" and "may_run s (qo_token p)"
    and "failed (operation_aborted A)"
  shows "accounted unasked (query_handler (tracked_mariadb A) s p ec status)"
proof -
  let ?T = "tracked_mariadb A" and ?ec = "abort_if_expired (tracked_mariadb A) (qo_token p) s ec"
  let ?s1 = "(free_result (tracked_mariadb A) s)\<lparr>first_result_stored := False\<rparr>"
  show ?thesis
  proof (cases "failed ?ec")
    case False
    then have i: "initialized s" using not_aborted [OF _ assms(3,4)] by simp
    have s1: "accounted unasked ?s1" "initialized ?s1"
      using freed_accounted [OF assms(2,1) i] by simp_all
    obtain m r st e where c: "mysql_real_query_start ?T (qo_result p) (mysql ?s1) (c_str (qo_stmt p))
        (of_nat (length (qo_stmt p))) ?ec = (m, r, st, e)" by (metis prod_cases4)
    obtain m' r' st' e' where c': "mysql_real_query_cont ?T (qo_result p) (mysql s) status ?ec =
        (m', r', st', e')" by (metis prod_cases4)
    have "query_handler ?T s p ec status =
        (if qo_step p = 0 then query_wait ?T (?s1\<lparr>mysql := m\<rparr>) (p\<lparr>qo_result := r\<rparr>) e st
         else if qo_step p = 1 then query_wait ?T (s\<lparr>mysql := m'\<rparr>) (p\<lparr>qo_result := r'\<rparr>) e' st'
         else invoke_callback (Completion (qo_callback p) ?ec None) s)"
      using False c c' by (simp add: query_handler_def Let_def)
    then show ?thesis
      using simple_calls(3) [OF s1 c] simple_calls(4) [OF assms(2) i c'] assms(2)
      by (simp add: query_wait_accounted)
  qed (simp add: query_handler_def assms(2))
qed

section \<open>The loops\<close>

text \<open>
  What a pass leaves: when the loop goes on or waits, nothing is owed; when it breaks without an
  error, the result that is about to become the last one.
\<close>

definition fair_pass ::
  "('p \<Rightarrow> res_ptr option) \<Rightarrow> (('m tracked, 'k, 'z) connection, 'p) pass \<Rightarrow> bool" where
  "fair_pass result res \<longleftrightarrow>
     (case res of
        Again s p ec status \<Rightarrow> accounted unasked s \<and> impl_inv s \<and> initialized s
      | Waiting s \<Rightarrow> accounted unasked s
      | Break s p ec \<Rightarrow> impl_inv s \<and> (if failed ec then accounted unasked s else owing unasked (result p) s)
      | Assert_failed \<Rightarrow> True)"

lemma store_cont_fair:
  assumes "accounted unasked s" and "impl_inv s" and "initialized s"
    and "so_step p = Store_store_start \<Longrightarrow> status \<noteq> wait_finish"
  shows "fair_pass so_result (store_cont (tracked_mariadb A) s p ec status)"
proof -
  note next_call = simple_calls(6) [OF assms(1,3)]
  note store_call = store_calls [OF assms(1,3)]
  show ?thesis
  proof (cases "so_step p")
    case Store_cont_store
    obtain m r st e where c: "mysql_store_result_cont (tracked_mariadb A) (so_result p) (mysql s) status ec =
        (m, r, st, e)" by (metis prod_cases4)
    show ?thesis
      using c Store_cont_store store_call [OF disjI2 [OF c]] assms(2)
      by (auto simp: store_cont_def fair_pass_def frame_simps)
  next
    case Store_cont_next
    obtain m r st e where c: "mysql_next_result_cont (tracked_mariadb A) (so_next_result p) (mysql s) status ec =
        (m, r, st, e)" by (metis prod_cases4)
    show ?thesis
      using c Store_cont_next next_call [OF c] assms(2,3)
      by (auto simp: store_cont_def fair_pass_def frame_simps)
  qed (use assms in \<open>auto simp: store_cont_def fair_pass_def Let_def\<close>)
qed

lemma store_start_fair:
  assumes "accounted unasked s" and "impl_inv s" and "initialized s"
  shows "fair_pass so_result (store_start (tracked_mariadb A) s p ec status)"
proof -
  note free = freed_accounted [OF assms, of A]
  obtain m r st e where c: "mysql_store_result_start (tracked_mariadb A) (so_result p)
      (mysql (free_result (tracked_mariadb A) s)) ec = (m, r, st, e)" by (metis prod_cases4)
  note call = store_calls [OF free(1,3) disjI1 [OF c]]
  show ?thesis
  proof (cases "failed e \<or> st = wait_finish")
    case True
    then show ?thesis
      using c call free(2) by (auto simp: store_start_def Let_def fair_pass_def frame_simps)
  next
    case False
    then show ?thesis
      using c call free(2,3)
      by (auto simp: store_start_def Let_def frame_simps intro!: store_cont_fair)
  qed
qed

lemma store_entry_fair:
  assumes "accounted unasked s" and "impl_inv s" and "initialized s"
  shows "fair_pass so_result (store_entry (tracked_mariadb A) s p ec status)"
proof (cases "first_result_stored s")
  case True
  note free = freed_accounted [OF assms, of A]
  obtain m r st e where c: "mysql_next_result_start (tracked_mariadb A) (so_next_result p)
      (mysql (free_result (tracked_mariadb A) s)) ec = (m, r, st, e)" by (metis prod_cases4)
  have "accounted unasked ((free_result (tracked_mariadb A) s)\<lparr>mysql := m\<rparr>)"
    by (rule simple_calls(5) [OF free(1,3) c])
  then show ?thesis
    using c free True
    by (auto simp: store_entry_def Let_def fair_pass_def [of _ "Break _ _ _"]
        fair_pass_def [of _ "Again _ _ _ _"] frame_simps intro!: store_start_fair)
qed (use assms in \<open>simp add: store_entry_def store_start_fair frame_simps\<close>)

lemma store_pass_fair:
  assumes "accounted unasked s" and "impl_inv s" and "may_run s (so_token p)"
    and "failed (operation_aborted A)" and "so_step p \<noteq> Store_error"
  shows "fair_pass so_result (store_pass (tracked_mariadb A) s p ec status)"
proof (cases "failed (abort_if_expired (tracked_mariadb A) (so_token p) s ec)")
  case True
  then show ?thesis using assms(1,2) by (simp add: store_pass_def fair_pass_def)
next
  case False
  note i = not_aborted [OF False assms(3,4)]
  note rest = store_cont_fair [OF assms(1,2) i] store_start_fair [OF assms(1,2) i]
    store_entry_fair [OF assms(1,2) i]
  show ?thesis
    using False
    by (cases "so_step p")
       (auto simp: store_pass_def assms(5) intro!: rest)
qed

lemma qr_cont_fair:
  assumes "accounted unasked s" and "impl_inv s" and "initialized s"
    and "ro_step p = Query_store_start \<Longrightarrow> status \<noteq> wait_finish"
  shows "fair_pass ro_result (qr_cont (tracked_mariadb A) s p ec status)"
proof -
  note query_call = simple_calls(4) [OF assms(1,3)]
  note store_call = store_calls [OF assms(1,3)]
  show ?thesis
  proof (cases "ro_step p")
    case Query_cont_store
    obtain m r st e where c: "mysql_store_result_cont (tracked_mariadb A) (ro_result p) (mysql s) status ec =
        (m, r, st, e)" by (metis prod_cases4)
    show ?thesis
      using c Query_cont_store store_call [OF disjI2 [OF c]] assms(2)
      by (auto simp: qr_cont_def fair_pass_def frame_simps)
  next
    case Query_cont_query
    obtain m r st e where c: "mysql_real_query_cont (tracked_mariadb A) (ro_query_result p) (mysql s) status ec =
        (m, r, st, e)" by (metis prod_cases4)
    show ?thesis
      using c Query_cont_query query_call [OF c] assms(2,3)
      by (auto simp: qr_cont_def fair_pass_def frame_simps)
  qed (use assms in \<open>auto simp: qr_cont_def fair_pass_def Let_def\<close>)
qed

lemma qr_store_start_fair:
  assumes "accounted unasked s" and "impl_inv s" and "initialized s"
  shows "fair_pass ro_result (qr_store_start (tracked_mariadb A) s p ec status)"
proof -
  let ?s1 = "(free_result (tracked_mariadb A) s)\<lparr>first_result_stored := True\<rparr>"
  have free: "accounted unasked ?s1" "impl_inv ?s1" "initialized ?s1"
    using freed_accounted [OF assms, of A] by (simp_all add: frame_simps)
  obtain m r st e where c: "mysql_store_result_start (tracked_mariadb A) (ro_result p)
      (mysql ?s1) ec = (m, r, st, e)" by (metis prod_cases4)
  note call = store_calls [OF free(1,3) disjI1 [OF c]]
  show ?thesis
  proof (cases "failed e \<or> st = wait_finish")
    case True
    then show ?thesis
      using c call free(2) by (auto simp: qr_store_start_def Let_def fair_pass_def frame_simps)
  next
    case False
    then have "fair_pass ro_result (qr_cont (tracked_mariadb A) (?s1\<lparr>mysql := m\<rparr>) (p\<lparr>ro_result := r\<rparr>) e st)"
      using call free(2,3) by (intro qr_cont_fair) (simp_all add: frame_simps)
    then show ?thesis
      using False c by (simp add: qr_store_start_def Let_def)
  qed
qed

lemma qr_entry_fair:
  assumes "accounted unasked s" and "impl_inv s" and "initialized s"
  shows "fair_pass ro_result (qr_entry (tracked_mariadb A) s p ec status)"
proof -
  let ?s1 = "(free_result (tracked_mariadb A) s)\<lparr>first_result_stored := False\<rparr>"
  have free: "accounted unasked ?s1" "impl_inv ?s1" "initialized ?s1"
    using freed_accounted [OF assms, of A] by (simp_all add: frame_simps)
  obtain m r st e where c: "mysql_real_query_start (tracked_mariadb A) (ro_query_result p)
      (mysql ?s1) (c_str (ro_stmt p)) (of_nat (length (ro_stmt p))) ec = (m, r, st, e)"
    by (metis prod_cases4)
  let ?s2 = "?s1\<lparr>mysql := m\<rparr>"
  have s2: "accounted unasked ?s2" "impl_inv ?s2" "initialized ?s2"
    using simple_calls(3) [OF free(1,3) c] free(2,3) by (simp_all add: frame_simps)
  have "qr_entry (tracked_mariadb A) s p ec status =
      (if failed e then Break ?s2 (p\<lparr>ro_query_result := r\<rparr>) e
       else if st \<noteq> wait_finish
       then Again ?s2 (p\<lparr>ro_query_result := r, ro_step := Query_wait_query\<rparr>) e st
       else qr_store_start (tracked_mariadb A) ?s2
              (p\<lparr>ro_query_result := r, ro_step := Query_store_start\<rparr>) e st)"
    using c by (simp add: qr_entry_def Let_def)
  then show ?thesis
    using s2
    by (auto simp: fair_pass_def [of _ "Break _ _ _"] fair_pass_def [of _ "Again _ _ _ _"]
        intro!: qr_store_start_fair)
qed

lemma qr_pass_fair:
  assumes "accounted unasked s" and "impl_inv s" and "may_run s (ro_token p)"
    and "failed (operation_aborted A)" and "ro_step p \<noteq> Query_error"
  shows "fair_pass ro_result (qr_pass (tracked_mariadb A) s p ec status)"
proof (cases "failed (abort_if_expired (tracked_mariadb A) (ro_token p) s ec)")
  case True
  then show ?thesis using assms(1,2) by (simp add: qr_pass_def fair_pass_def)
next
  case False
  note i = not_aborted [OF False assms(3,4)]
  note rest = qr_cont_fair [OF assms(1,2) i] qr_store_start_fair [OF assms(1,2) i]
    qr_entry_fair [OF assms(1,2) i]
  show ?thesis
    using False
    by (cases "ro_step p")
       (auto simp: qr_pass_def assms(5) intro!: rest)
qed

section \<open>The handlers\<close>

lemma store_pass_again_step:
  "store_pass A s p ec status = Again s' p' ec' status' \<Longrightarrow> so_step p' \<noteq> Store_error"
  by (auto simp: store_pass_def store_entry_def Let_def store_start_again dest!: store_cont_again
      split: prod.splits if_splits store_step.splits)

lemma qr_pass_again_step:
  "qr_pass A s p ec status = Again s' p' ec' status' \<Longrightarrow> ro_step p' \<noteq> Query_error"
  by (auto simp: qr_pass_def qr_entry_def Let_def dest!: qr_cont_again qr_store_start_again
      split: prod.splits if_splits query_step.splits)

lemma finish_accounted:
  assumes "finish_with_result (tracked_mariadb A) s k r ec = Some s'" and "impl_inv s"
    and "if failed ec then accounted unasked s else owing unasked r s"
  shows "accounted unasked s'"
proof (cases "failed ec")
  case False
  obtain x where x: "tracked_mariadb A = tracked_api A x" by (simp add: tracked_mariadb_def)
  define s1 where "s1 = reset_last_result (tracked_mariadb A) r s"
  have "accounted unasked s1"
    using reset_last_result_accounted [OF assms(2), of unasked r A x] assms(3) False
    by (simp add: s1_def x)
  moreover obtain m rs e where a: "result_set_assign (tracked_mariadb A) (mysql s1) result_set_default
        (last_result s1) ec = Some (m, rs, e)" "s' = invoke_callback (Completion k e (Some rs)) (s1\<lparr>mysql := m\<rparr>)"
    using assms(1) False
    by (auto simp: finish_with_result_def s1_def [symmetric] Let_def split: option.splits)
  ultimately show ?thesis
    using assign_accounts [OF a(1) [unfolded x]]
    by (simp add: accounted_def same_accounts_def invoke_callback_def)
qed (use assms in \<open>auto simp: finish_with_result_def\<close>)

lemma store_result_handler_accounted:
  assumes "store_result_handler (tracked_mariadb A) s p ec status = Some s'"
    and "accounted unasked s" and "impl_inv s" and "may_run s (so_token p)"
    and "failed (operation_aborted A)" and "so_step p \<noteq> Store_error"
  shows "accounted unasked s'"
  using assms
proof (induction "store_rank (so_step p)" arbitrary: s p ec status rule: less_induct)
  case less
  note fair = store_pass_fair [OF less.prems(2-6), of ec status]
  note h = less.prems(1) [unfolded store_result_handler.simps [of _ s]]
  show ?case
  proof (cases "store_pass (tracked_mariadb A) s p ec status")
    case (Again t p' e st)
    have "may_run t (so_token p')" using fair Again by (simp add: fair_pass_def may_run_def)
    then show ?thesis
      using less.hyps [OF store_pass_again [OF Again], of t e st] fair Again h less.prems(5)
        store_pass_again_step [OF Again]
      by (simp add: fair_pass_def)
  qed (use h fair finish_accounted in \<open>auto simp: fair_pass_def\<close>)
qed

lemma query_result_handler_accounted:
  assumes "query_result_handler (tracked_mariadb A) s p ec status = Some s'"
    and "accounted unasked s" and "impl_inv s" and "may_run s (ro_token p)"
    and "failed (operation_aborted A)" and "ro_step p \<noteq> Query_error"
  shows "accounted unasked s'"
  using assms
proof (induction "query_rank (ro_step p)" arbitrary: s p ec status rule: less_induct)
  case less
  note fair = qr_pass_fair [OF less.prems(2-6), of ec status]
  note h = less.prems(1) [unfolded query_result_handler.simps [of _ s]]
  show ?case
  proof (cases "qr_pass (tracked_mariadb A) s p ec status")
    case (Again t p' e st)
    have "may_run t (ro_token p')" using fair Again by (simp add: fair_pass_def may_run_def)
    then show ?thesis
      using less.hyps [OF qr_pass_again [OF Again], of t e st] fair Again h less.prems(5)
        qr_pass_again_step [OF Again]
      by (simp add: fair_pass_def)
  qed (use h fair finish_accounted in \<open>auto simp: fair_pass_def\<close>)
qed

lemma run_op_accounted:
  assumes "run_op (tracked_mariadb A) s q ec status = Some s'"
    and "accounted unasked s" and "impl_inv s" and "may_run s (op_token q)"
    and "failed (operation_aborted A)"
    and "parked q \<or> fresh_op q"
  shows "accounted unasked s'"
proof (cases q)
  case (Store_op p)
  then have "so_step p \<noteq> Store_error" using assms(6) by auto
  then show ?thesis
    using store_result_handler_accounted [of A s p ec status s'] Store_op assms(1-5) by simp
next
  case (Query_result_op p)
  then have "ro_step p \<noteq> Query_error" using assms(6) by auto
  then show ?thesis
    using query_result_handler_accounted [of A s p ec status s'] Query_result_op assms(1-5) by simp
qed (use assms(1-5) connect_handler_accounted query_handler_accounted in auto)

section \<open>Steps and runs\<close>

lemma accounted_conn: "accounted unasked (conn s) = accounted unasked s"
  using conn_eqD [of "conn s" s] by (simp add: accounted_def)

lemma mdb_close_accounted:
  assumes "impl_inv s" and "accounted unasked s"
  shows "accounted unasked (mdb_close_implementation (tracked_mariadb A) s)"
proof -
  obtain x where x: "tracked_mariadb A = tracked_api A x" by (simp add: tracked_mariadb_def)
  have "accounted unasked (close_implementation (tracked_mariadb A) s)"
    unfolding x by (rule close_implementation_accounted [OF assms])
  then show ?thesis
    using conn_close_implementation [of "tracked_mariadb A" s] accounted_conn by metis
qed

lemma blocking_accounted:
  assumes "impl_inv s" and "accounted unasked s"
  shows "accounted unasked (fst (mdb_open (tracked_mariadb A) s ec))"
    and "accounted unasked (fst (mdb_set_option (tracked_mariadb A) s opt ec))"
    and "accounted unasked (fst (mdb_connect (tracked_mariadb A) s ep au db fl ec))"
    and "accounted unasked (fst (mdb_query (tracked_mariadb A) s stmt ec))"
    and "mdb_store_result (tracked_mariadb A) s ec = Some (s', rs, ec') \<Longrightarrow> accounted unasked s'"
    and "accounted unasked (fst (mdb_autocommit (tracked_mariadb A) s mode ec))"
    and "accounted unasked (fst (mdb_commit (tracked_mariadb A) s ec))"
    and "accounted unasked (fst (mdb_rollback (tracked_mariadb A) s ec))"
proof -
  obtain x where x: "tracked_mariadb A = tracked_api A x" by (simp add: tracked_mariadb_def)
  have "fst (mdb_set_option (tracked_mariadb A) s opt ec) =
      (if mdb_is_open s then fst (ms_set_option (tracked_mariadb A) s opt ec) else s)"
    by (simp add: mdb_set_option_def ms_set_option_def mdb_same)
  then show "accounted unasked (fst (mdb_set_option (tracked_mariadb A) s opt ec))"
    using assms(2) by (simp add: x set_option_accounted mdb_is_open_def)
  show "accounted unasked s'" if "mdb_store_result (tracked_mariadb A) s ec = Some (s', rs, ec')"
    using that store_result_accounted [OF assms] by (simp add: x mdb_same)
qed (simp_all add: assms tracked_mariadb_def mdb_same open_accounted connect_accounted
       query_accounted autocommit_accounted commit_rollback_accounted)

lemma started_accounted:
  assumes "run_op (tracked_mariadb A) s q ec status = Some s'" and "accounted unasked s" and "impl_inv s"
    and "initialized s" and "fresh_op q" and "failed (operation_aborted A)"
  shows "accounted unasked s'"
  using run_op_accounted [OF assms(1-3) _ assms(6)] assms(4,5) by (simp add: may_run_def)

lemma async_connect_accounted_mariadb:
  assumes "mdb_async_connect (tracked_mariadb A) s ep au db fl k = Some s'"
    and "impl_inv s" and "accounted unasked s" and "failed (operation_aborted A)"
  shows "accounted unasked s'"
proof -
  let ?T = "tracked_mariadb A"
  define p where "p = (if \<not> mdb_is_open s then mdb_open ?T s no_error else (s, no_error))"
  define q where "q = mdb_set_option ?T (fst p) (nonblock_default ?T) no_error"
  have p: "impl_inv (fst p)" "accounted unasked (fst p)"
    using plain_inv [OF plain_open [of s ?T no_error] assms(2)] assms(2,3)
      blocking_accounted(1) [OF assms(2,3), of A no_error]
    by (simp_all add: p_def)
  have q: "impl_inv (fst q)" "accounted unasked (fst q)"
    using plain_inv [OF plain_set_option p(1)] blocking_accounted(2) [OF p]
    unfolding q_def by blast+
  let ?op = "Connect_op (new_connect_op (fst q) k ep au db fl)"
  have call: "mdb_async_connect ?T s ep au db fl k =
      (if failed (snd p) then Some (post_callback (Completion k (snd p) None) (fst p))
       else if failed (snd q) then Some (post_callback (Completion k (snd q) None) (fst q))
       else run_op ?T (fst q) ?op (snd q) 0)"
    by (simp add: mdb_async_connect_def p_def q_def Let_def case_prod_unfold del: run_op.simps)
  show ?thesis
  proof (cases "failed (snd p) \<or> failed (snd q)")
    case True
    then show ?thesis using assms(1) call p q by (auto split: if_splits)
  next
    case False
    then have run: "run_op ?T (fst q) ?op (snd q) 0 = Some s'" using assms(1) call by simp
    have "initialized (fst q)"
      using False plain_set_option [of "fst p" ?T "nonblock_default ?T" no_error]
      by (auto simp: p_def q_def mdb_open_def mdb_is_open_def mysql_init_def plain_call_def Let_def
          split: prod.splits if_splits)
    from started_accounted [OF run q(2,1) this _ assms(4)] show ?thesis by simp
  qed
qed

lemma mdb_step_accounted:
  assumes "mdb_step (tracked_mariadb A) s k s'" and "mdb_inv s" and "accounted unasked s"
    and "failed (operation_aborted A)"
  shows "accounted unasked s'"
proof -
  have inv: "impl_inv s" using assms(2) by (simp add: mdb_inv_def)
  note blocking = blocking_accounted [OF inv assms(3)]
  note started = started_accounted [OF _ assms(3) inv _ _ assms(4)]
  show ?thesis
    using assms(1)
  proof cases
    case mdb_step_close
    then show ?thesis
      using mdb_close_accounted [OF inv assms(3), of A] assms(3) by (simp add: mdb_close_def)
  next
    case (mdb_step_async_connect ep au db fl)
    from async_connect_accounted_mariadb [OF this(2) inv assms(3,4)] show ?thesis .
  next
    case (mdb_step_run xs r ys)
    let ?q = "rdy_op r" and ?t = "s\<lparr>ready := xs @ ys\<rparr>"
    have "?q \<in> set (ops s)" using mdb_step_run(2) by (simp add: ops_def)
    then have "parked ?q" "may_run s (op_token ?q)"
      using assms(2) by (auto simp: mdb_inv_def tok_ok_def may_run_def)
    moreover have "may_run ?t w = may_run s w" for w
      by (cases w) (simp_all add: may_run_def)
    ultimately show ?thesis
      using run_op_accounted [OF mdb_step_run(3)] inv assms(3,4) by simp
  qed (use blocking assms(3) started in
      \<open>auto simp: mdb_cancel_def mdb_async_query_def mdb_async_store_result_def
         mdb_async_query_result_def mdb_is_open_def simp del: run_op.simps split: if_splits\<close>)
qed

lemma mdb_run_accounted:
  assumes "mdb_run (tracked_mariadb A) s ks s'" and "mdb_inv s" and "accounted unasked s"
    and "failed (operation_aborted A)"
  shows "accounted unasked s'"
  using assms
proof (induction rule: mdb_run.induct)
  case (mdb_run_call s ks s' s'')
  then show ?case using mdb_run_inv mdb_step_accounted by blast
next
  case (mdb_run_issue s ks s' k s'')
  then show ?case using mdb_run_inv mdb_step_accounted by blast
qed

text \<open>A connector that is destroyed leaves nothing behind.\<close>

lemma mdb_destroy_accounted:
  assumes "impl_inv s" and "accounted unasked s"
  shows "let t = mysql (mdb_destroy_connector (tracked_mariadb A) s)
         in \<not> handle_open t \<and> live_results t = [] \<and> set (misuses t) \<subseteq> unasked"
proof -
  let ?T = "tracked_mariadb A"
  let ?d = "mdb_destroy ?T s" and ?c = "mdb_close_implementation ?T (mdb_destroy ?T s)"
  have "impl_inv ?d" "accounted unasked ?d"
    using assms mdb_close_accounted [OF assms, of A] close_implementation_token(1) [OF assms(1), of ?T]
    by (simp_all add: mdb_destroy_def mdb_close_def)
  then have "accounted unasked ?c" by (rule mdb_close_accounted)
  then show ?thesis
    by (simp add: mdb_destroy_connector_def mdb_destructor_handle accounted_def
        mdb_close_implementation_handle(2,3))
qed

section \<open>Property\<close>

text \<open>
  C4. The client library is used according to its protocol by \<open>mariadb_service\<close> too, whatever library it
  is and whenever its non-blocking calls end, as long as the code of an aborted operation is an error.
  In every interleaving of calls, events and handlers (a handler runs in one step, the connection is
  used from one thread) the handle is open just when the connection takes it to be, the last result is
  the only one that has not been freed, and of the routines that act on the handle or a result none was
  misused but \<open>mysql_autocommit\<close> and \<open>mysql_store_result\<close>, which the blocking operations call without
  asking whether the connection is open.  A connector
  that is destroyed at any moment leaves no open handle and no result behind, also when the
  operations that were waiting have run.
\<close>

theorem mariadb_library_protocol:
  assumes "heap_wf h" and "mdb_run (tracked_mariadb A) (new_connection (track m) h) ks s"
    and "failed (operation_aborted A)"
    and "(drain_step (tracked_mariadb A) ^^ n) (mdb_destroy_connector (tracked_mariadb A) s) u"
  shows "handle_open (mysql s) = initialized s \<and>
         live_results (mysql s) = handed_out (sp_get (last_result s)) \<and>
         set (misuses (mysql s)) \<subseteq> {Store_result, Set_autocommit} \<and>
         \<not> handle_open (mysql u) \<and> live_results (mysql u) = [] \<and>
         set (misuses (mysql u)) \<subseteq> {Store_result, Set_autocommit}"
proof -
  let ?T = "tracked_mariadb A" and ?d = "mdb_destroy_connector (tracked_mariadb A) s"
  have f: "failed (operation_aborted ?T)" using assms(3) by simp
  have inv: "mdb_inv s" using reachable_inv [OF assms(1,2)] .
  have "accounted unasked (new_connection (track m) h :: ('a tracked, 'b) mariadb_connection)"
    by (simp add: accounted_def new_connection_defs sp_make_def track_def)
  then have s: "accounted unasked s"
    using mdb_run_accounted [OF assms(2) new_connection_inv(1) [OF assms(1)] _ assms(3)] by simp
  have "expired (op_token q) ?d" if "q \<in> set (ops ?d)" for q
    using that same_work_destroy [of s ?T] destroyed_ops_expired [OF inv, of q ?T]
    by (simp add: same_work_def)
  from drained_steps [OF assms(4) destroyed_waits [OF reachable_timer [OF assms(2)]] this f]
  have "mysql u = mysql ?d" using conn_eqD(1) by (auto simp: drained_def)
  then show ?thesis
    using s mdb_destroy_accounted [of s A] inv
    by (simp add: mdb_inv_def accounted_def unasked_def Let_def)
qed

subsection \<open>A query and its result\<close>

definition tracked_connection :: "(sample_server tracked, nat) mariadb_connection" where
  "tracked_connection =
     fst (mdb_open (tracked_mariadb sample_mariadb)
       (new_connection (track (sample_start [[Rows [] []]])) no_blocks) no_error)"

definition tracked_started :: "(sample_server tracked, nat) mariadb_connection" where
  "tracked_started =
     the (mdb_async_query_result (tracked_mariadb sample_mariadb) tracked_connection ''q'' 7)"

definition tracked_served :: "(sample_server tracked, nat) mariadb_connection" where
  "tracked_served = the (serve (tracked_mariadb sample_mariadb) 4 tracked_started)"

lemma tracked_served_run:
  "mdb_run (tracked_mariadb sample_mariadb)
     (new_connection (track (sample_start [[Rows [] []]])) no_blocks) [7] tracked_served"
proof (rule serve_run)
  let ?T = "tracked_mariadb sample_mariadb"
  have "\<not> Option.is_none (mdb_async_query_result ?T tracked_connection ''q'' 7)" by code_simp
  then have "mdb_async_query_result ?T tracked_connection ''q'' 7 = Some tracked_started"
    by (auto simp: tracked_started_def Option.is_none_def)
  from mdb_run_issue [OF mdb_run_call [OF mdb_run_start mdb_step_open]
      mdb_step_async_query_result [OF this [unfolded tracked_connection_def]]]
  show "mdb_run ?T (new_connection (track (sample_start [[Rows [] []]])) no_blocks) [7]
      tracked_started" by simp
  have "\<not> Option.is_none (serve ?T 4 tracked_started)" by code_simp
  then show "serve ?T 4 tracked_started = Some tracked_served"
    by (auto simp: tracked_served_def Option.is_none_def)
qed

theorem mariadb_library_protocol_witness:
  "live_results (mysql tracked_served) = [1] \<and>
   live_results (mysql (mdb_destroy_connector (tracked_mariadb sample_mariadb) tracked_served)) = []"
proof -
  let ?d = "mdb_destroy_connector (tracked_mariadb sample_mariadb) tracked_served"
  have f: "failed (operation_aborted sample_mariadb)" by code_simp
  have "(drain_step (tracked_mariadb sample_mariadb) ^^ 0) ?d ?d" by simp
  from mariadb_library_protocol [OF no_blocks_wf tracked_served_run f this]
  have "live_results (mysql tracked_served) = handed_out (sp_get (last_result tracked_served))"
    "live_results (mysql ?d) = []" by simp_all
  moreover have "sp_get (last_result tracked_served) = Some 1" by code_simp
  ultimately show ?thesis by simp
qed

end
