(* ===== verification/Transactions.thy ===== *)
theory Transactions
  imports Connector Mariadb_Service Sample_Library
begin

text \<open>
  What a scoped transaction (\<open>basic_scoped_transaction.hpp\<close>) does to the database: the abstract
  specification of a transaction, and whether the class meets it on the paths where a statement,
  the commit or the rollback fails.
\<close>

section \<open>The database as a session sees it\<close>

text \<open>
  \<open>working\<close> is the database with the uncommitted work of the session, \<open>committed\<close> what others see.
\<close>

record 'd session =
  committed :: 'd
  working :: 'd
  autocommits :: bool

definition after_statement :: "('d \<Rightarrow> 'd) \<Rightarrow> 'd session \<Rightarrow> 'd session" where
  "after_statement f d =
     d\<lparr>working := f (working d),
       committed := (if autocommits d then f (working d) else committed d)\<rparr>"

text \<open>Switching autocommit on commits the work that is open.\<close>

definition after_autocommit :: "bool \<Rightarrow> 'd session \<Rightarrow> 'd session" where
  "after_autocommit mode d =
     d\<lparr>autocommits := mode, committed := (if mode then working d else committed d)\<rparr>"

definition after_commit :: "'d session \<Rightarrow> 'd session" where
  "after_commit d = d\<lparr>committed := working d\<rparr>"

definition after_rollback :: "'d session \<Rightarrow> 'd session" where
  "after_rollback d = d\<lparr>working := committed d\<rparr>"

lemmas after_defs =
  after_statement_def after_autocommit_def after_commit_def after_rollback_def

text \<open>
  What the manual of the server says of the routines that concern transactions: an operation has
  its effect or fails without any; freeing a result has none.  \<open>db\<close> reads the database off the
  handle of the library and \<open>run\<close> is the meaning of a statement.
\<close>

definition transactional ::
  "('m, 'a) mysql_api_scheme \<Rightarrow> ('m \<Rightarrow> 'd session) \<Rightarrow> (string \<Rightarrow> 'd \<Rightarrow> 'd) \<Rightarrow> bool" where
  "transactional A db run \<longleftrightarrow>
     (\<forall>m stmt. case c_mysql_real_query A m (c_str stmt) (of_nat (length stmt)) of
        (m', r) \<Rightarrow>
          if r = 0 then db m' = after_statement (run stmt) (db m)
          else c_mysql_errno A m' \<noteq> 0 \<and> db m' = db m) \<and>
     (\<forall>m r. db (c_mysql_free_result A m r) = db m) \<and>
     (\<forall>m mode. case c_mysql_autocommit A m mode of
        (m', bad) \<Rightarrow> db m' = (if bad then db m else after_autocommit mode (db m))) \<and>
     (\<forall>m. case c_mysql_commit A m of
        (m', bad) \<Rightarrow> db m' = (if bad then db m else after_commit (db m))) \<and>
     (\<forall>m. case c_mysql_rollback A m of
        (m', bad) \<Rightarrow> db m' = (if bad then db m else after_rollback (db m)))"

section \<open>Programs with a transaction\<close>

text \<open>Statements executed one after the other; an exception leaves the rest out.\<close>

fun run_statements :: "'s service_ops \<Rightarrow> 's \<Rightarrow> string list \<Rightarrow> 's \<times> (system_error + unit)" where
  "run_statements S s [] = (s, Inr ())"
| "run_statements S s (stmt # stmts) =
     (case execute S s stmt of
        (s', Inl e) \<Rightarrow> (s', Inl e)
      | (s', Inr n) \<Rightarrow> run_statements S s' stmts)"

text \<open>
  A block with a \<open>basic_scoped_transaction\<close>, the statements, and the commit at its end.  An
  exception leaves the block; in every case the destructor runs, unless the constructor has
  thrown.
\<close>

definition transaction_body ::
  "('s \<Rightarrow> bool \<Rightarrow> 's \<times> bool \<times> (system_error + unit)) \<Rightarrow> 's service_ops \<Rightarrow> 's \<Rightarrow> bool \<Rightarrow>
     string list \<Rightarrow> 's \<times> bool \<times> (system_error + unit)" where
  "transaction_body commit S s c stmts =
     (case run_statements S s stmts of
        (s', Inl e) \<Rightarrow> (s', c, Inl e)
      | (s', Inr _) \<Rightarrow> commit s' c)"

definition transaction_block ::
  "('s \<Rightarrow> bool \<Rightarrow> 's \<times> bool \<times> (system_error + unit)) \<Rightarrow> 's service_ops \<Rightarrow> 's \<Rightarrow> string list \<Rightarrow>
     's \<times> exit_status \<times> (system_error + unit)" where
  "transaction_block commit S s stmts =
     (case tx_begin S s of
        (s1, Inl e) \<Rightarrow> (s1, Normal, Inl e)
      | (s1, Inr c) \<Rightarrow>
          (case transaction_body commit S s1 c stmts of
             (s2, c', r) \<Rightarrow> (case tx_end S s2 c' of (s3, x) \<Rightarrow> (s3, x, r))))"

definition with_commit ::
  "'s service_ops \<Rightarrow> 's \<Rightarrow> string list \<Rightarrow> 's \<times> exit_status \<times> (system_error + unit)" where
  "with_commit S s stmts = transaction_block (tx_commit S) S s stmts"

text \<open>
  What may go wrong at the end of such a block: the destructor rolls back, and the rollback fails.
  It drops the error.
\<close>

definition rollback_refused :: "'s service_ops \<Rightarrow> 's \<Rightarrow> string list \<Rightarrow> bool" where
  "rollback_refused S s stmts \<longleftrightarrow>
     (case tx_begin S s of
        (s1, Inl e) \<Rightarrow> False
      | (s1, Inr c) \<Rightarrow>
          (case transaction_body (tx_commit S) S s1 c stmts of
             (s2, c', r) \<Rightarrow> \<not> c' \<and> failed (snd (svc_rollback S s2 no_error))))"

text \<open>The statements that succeed, up to the first one that does not.\<close>

fun succeeding :: "'s service_ops \<Rightarrow> 's \<Rightarrow> string list \<Rightarrow> string list" where
  "succeeding S s [] = []"
| "succeeding S s (stmt # stmts) =
     (case execute S s stmt of
        (s', Inl e) \<Rightarrow> []
      | (s', Inr n) \<Rightarrow> stmt # succeeding S s' stmts)"

definition succeeding_in_block :: "'s service_ops \<Rightarrow> 's \<Rightarrow> string list \<Rightarrow> string list" where
  "succeeding_in_block S s stmts =
     (case tx_begin S s of
        (s1, Inl e) \<Rightarrow> []
      | (s1, Inr c) \<Rightarrow> succeeding S s1 stmts)"

text \<open>The same with the other form of \<open>commit\<close>, whose error code the program then throws.\<close>

definition with_commit_ec ::
  "'s service_ops \<Rightarrow> 's \<Rightarrow> string list \<Rightarrow> 's \<times> exit_status \<times> (system_error + unit)" where
  "with_commit_ec S s stmts =
     transaction_block
       (\<lambda>s c. case tx_commit_ec S s c no_error of
                (s', c', ec) \<Rightarrow> (s', c', throw_error ec (svc_mysql_error S s'))) S s stmts"

section \<open>Services over a database\<close>

text \<open>
  The operations of a service have the effect of the routines they wrap, as long as the connection
  stays \<open>live\<close>; an error code says that there was none.
\<close>

locale transactional_service = guarded_service S
  for S :: "'s service_ops" +
  fixes live :: "'s \<Rightarrow> bool" and session :: "'s \<Rightarrow> 'd session" and run :: "string \<Rightarrow> 'd \<Rightarrow> 'd"
  assumes query_law:
      "live s \<Longrightarrow> svc_query S s stmt no_error = (s', ec) \<Longrightarrow>
       live s' \<and> session s' =
         (if failed ec then session s else after_statement (run stmt) (session s))"
    and autocommit_law:
      "live s \<Longrightarrow> svc_autocommit S s mode no_error = (s', ec) \<Longrightarrow>
       live s' \<and> session s' =
         (if failed ec then session s else after_autocommit mode (session s))"
    and commit_law:
      "live s \<Longrightarrow> svc_commit S s no_error = (s', ec) \<Longrightarrow>
       live s' \<and> session s' = (if failed ec then session s else after_commit (session s))"
    and rollback_law:
      "live s \<Longrightarrow> svc_rollback S s no_error = (s', ec) \<Longrightarrow>
       live s' \<and> session s' = (if failed ec then session s else after_rollback (session s))"
begin

lemma execute_effect:
  assumes "live s" and "execute S s stmt = (s', r)"
  shows "live s' \<and> session s' =
           (case r of Inl e \<Rightarrow> session s | Inr n \<Rightarrow> after_statement (run stmt) (session s))"
proof -
  obtain t ec where q: "svc_query S s stmt no_error = (t, ec)" by fastforce
  then show ?thesis
    using query_law [OF assms(1) q] assms(2)
    by (auto simp: execute_def execute_ec_def throw_error_def split: if_splits)
qed

lemma run_statements_effect:
  assumes "live s" and "\<not> autocommits (session s)" and "run_statements S s stmts = (s', r)"
  shows "live s' \<and> \<not> autocommits (session s') \<and> committed (session s') = committed (session s) \<and>
         working (session s') = fold run (succeeding S s stmts) (working (session s)) \<and>
         (r = Inr () \<longrightarrow> succeeding S s stmts = stmts)"
  using assms
proof (induction stmts arbitrary: s)
  case (Cons stmt stmts)
  obtain t q where e: "execute S s stmt = (t, q)" by fastforce
  note effect = execute_effect [OF Cons.prems(1) e]
  show ?case
  proof (cases q)
    case (Inl err)
    then show ?thesis using Cons.prems(2,3) e effect by auto
  next
    case (Inr n)
    then show ?thesis
      using Cons.IH [of t] Cons.prems(2,3) e effect by (simp add: after_statement_def)
  qed
qed simp

lemma tx_begin_effect:
  assumes "live s" and "tx_begin S s = (s', r)"
  shows "live s' \<and> session s' =
           (case r of Inl e \<Rightarrow> session s | Inr c \<Rightarrow> after_autocommit False (session s)) \<and>
         (\<forall>c. r = Inr c \<longrightarrow> \<not> c)"
proof -
  obtain t ec where q: "svc_autocommit S s False no_error = (t, ec)" by fastforce
  then show ?thesis
    using autocommit_law [OF assms(1) q] assms(2)
    by (auto simp: tx_begin_def connector_autocommit_def throwing_def throw_error_def
        split: if_splits)
qed

lemma tx_commit_effect:
  assumes "live s" and "tx_commit S s False = (s', c, r)"
  shows "live s' \<and> (c \<longleftrightarrow> r = Inr ()) \<and>
         session s' = (if c then after_commit (session s) else session s)"
proof -
  obtain t ec where q: "svc_commit S s no_error = (t, ec)" by fastforce
  then show ?thesis
    using commit_law [OF assms(1) q] assms(2)
    by (auto simp: tx_commit_def connector_commit_def throwing_def throw_error_def
        split: if_splits)
qed

text \<open>The destructor, with the error of a rollback that it drops.\<close>

lemma tx_end_effect:
  assumes "live s" and "tx_end S s c = (s', x)"
  shows "live s' \<and> session s' =
           (let d = if c \<or> failed (snd (svc_rollback S s no_error)) then session s
                    else after_rollback (session s)
            in if x = Normal then after_autocommit True d else d)"
proof -
  obtain t ec where q: "svc_rollback S s no_error = (t, ec)" by fastforce
  define s1 where "s1 = (if \<not> c then t else s)"
  obtain u ec' where p: "svc_autocommit S s1 True no_error = (u, ec')" by fastforce
  have s1: "live s1" "session s1 = (if c \<or> failed ec then session s else after_rollback (session s))"
    using rollback_law [OF assms(1) q] assms(1) by (auto simp: s1_def)
  have "s' = u" "x = Normal \<longleftrightarrow> \<not> failed ec'"
    using assms(2) p q
    by (auto simp: tx_end_def connector_autocommit_def throwing_def throw_error_def s1_def
        split: if_splits)
  then show ?thesis using autocommit_law [OF s1(1) p] s1 q by simp
qed

text \<open>
  The effect of a block.  Without an exception it is that of all statements.  With one there is none,
  unless the rollback of the destructor is refused: then the switch back to autocommit commits the
  statements that have succeeded, or terminates the program.
\<close>

lemma block_effect:
  assumes "live s" and "autocommits (session s)" and "working (session s) = committed (session s)"
    and "with_commit S s stmts = (s', x, r)"
  shows "committed (session s') =
           (if r = Inr () then fold run stmts (committed (session s))
            else if rollback_refused S s stmts \<and> x = Normal
            then fold run (succeeding_in_block S s stmts) (committed (session s))
            else committed (session s)) \<and>
         (r = Inr () \<longrightarrow> \<not> rollback_refused S s stmts) \<and>
         (x = Normal \<longrightarrow> working (session s') = committed (session s') \<and> autocommits (session s'))"
proof -
  obtain s1 b where b: "tx_begin S s = (s1, b)" by fastforce
  note begun = tx_begin_effect [OF assms(1) b]
  show ?thesis
  proof (cases b)
    case (Inl e)
    then show ?thesis
      using assms(2-4) b begun
      by (auto simp: with_commit_def transaction_block_def rollback_refused_def)
  next
    case (Inr c)
    then have c: "\<not> c" and s1: "live s1" "\<not> autocommits (session s1)"
        "committed (session s1) = committed (session s)" "working (session s1) = committed (session s)"
      using begun assms(3) by (auto simp: after_autocommit_def)
    obtain s2 q where q: "run_statements S s1 stmts = (s2, q)" by fastforce
    note ran = run_statements_effect [OF s1(1,2) q]
    obtain s3 c' r' where z: "transaction_body (tx_commit S) S s1 False stmts = (s3, c', r')"
      by (metis prod_cases3)
    have s3: "live s3" "c' \<longleftrightarrow> r' = Inr ()"
        "session s3 = (if c' then after_commit (session s2) else session s2)"
        "r' = Inr () \<Longrightarrow> q = Inr ()"
      using z q ran tx_commit_effect [of s2 s3 c' r']
      by (auto simp: transaction_body_def split: sum.splits)
    obtain s4 y where e: "tx_end S s3 c' = (s4, y)" by fastforce
    have "s' = s4" "x = y" "r = r'"
      "rollback_refused S s stmts \<longleftrightarrow> \<not> c' \<and> failed (snd (svc_rollback S s3 no_error))"
      "succeeding_in_block S s stmts = succeeding S s1 stmts"
      using assms(4) b Inr c z e
      by (auto simp: with_commit_def transaction_block_def rollback_refused_def succeeding_in_block_def)
    then show ?thesis
      using tx_end_effect [OF s3(1) e] s3 ran s1
      by (auto simp: after_defs Let_def)
  qed
qed

text \<open>
  With the other form of \<open>commit\<close> the destructor takes a commit that has failed for one that has
  not: it switches autocommit on without a rollback, which commits all of the statements.
\<close>

lemma failed_commit_kept:
  assumes "live s" and "working (session s) = committed (session s)"
    and "tx_begin S s = (s1, Inr c)" and "run_statements S s1 stmts = (s2, Inr ())"
    and "with_commit_ec S s stmts = (s', Normal, Inl e)"
  shows "committed (session s') = fold run stmts (committed (session s))"
proof -
  note begun = tx_begin_effect [OF assms(1,3)]
  then have c: "\<not> c" and s1: "live s1" "\<not> autocommits (session s1)"
      "working (session s1) = committed (session s)"
    using assms(2) by (auto simp: after_autocommit_def)
  note ran = run_statements_effect [OF s1(1,2) assms(4)]
  obtain s3 ec where q: "svc_commit S s2 no_error = (s3, ec)" by fastforce
  have "failed ec" "tx_end S s3 True = (s', Normal)"
    using assms(3-5) c q
    by (auto simp: with_commit_ec_def transaction_block_def transaction_body_def tx_commit_ec_def
        throw_error_def
        split: prod.splits if_splits)
  then show ?thesis
    using tx_end_effect [of s3 True s' Normal] commit_law [OF _ q] ran s1
    by (auto simp: after_defs)
qed

end

section \<open>Both services\<close>

lemma transactional_query:
  assumes "transactional A db run"
    and "c_mysql_real_query A m (c_str stmt) (of_nat (length stmt)) = (m', r)"
  shows "r = 0 \<Longrightarrow> db m' = after_statement (run stmt) (db m)"
    and "r \<noteq> 0 \<Longrightarrow> c_mysql_errno A m' \<noteq> 0 \<and> db m' = db m"
  using assms(1) [unfolded transactional_def, THEN conjunct1, THEN spec [of _ m],
      THEN spec [of _ stmt]]
    assms(2) by simp_all

lemma transactional_others:
  assumes "transactional A db run"
  shows "db (c_mysql_free_result A m r) = db m"
    and "c_mysql_autocommit A m mode = (m', bad) \<Longrightarrow>
           db m' = (if bad then db m else after_autocommit mode (db m))"
    and "c_mysql_commit A m = (m', bad) \<Longrightarrow> db m' = (if bad then db m else after_commit (db m))"
    and "c_mysql_rollback A m = (m', bad) \<Longrightarrow> db m' = (if bad then db m else after_rollback (db m))"
proof -
  note rest = assms [unfolded transactional_def, THEN conjunct2]
  note effects = rest [THEN conjunct2]
  show "db (c_mysql_free_result A m r) = db m" using rest [THEN conjunct1] by simp
  show "db m' = (if bad then db m else after_autocommit mode (db m))"
    if "c_mysql_autocommit A m mode = (m', bad)"
    using effects [THEN conjunct1, THEN spec [of _ m], THEN spec [of _ mode]] that by simp
  show "db m' = (if bad then db m else after_commit (db m))" if "c_mysql_commit A m = (m', bad)"
    using effects [THEN conjunct2, THEN conjunct1, THEN spec, of m] that by simp
  show "db m' = (if bad then db m else after_rollback (db m))"
    if "c_mysql_rollback A m = (m', bad)"
    using effects [THEN conjunct2, THEN conjunct2, THEN spec, of m] that by simp
qed

definition on_database ::
  "('m, 'a) mysql_api_scheme \<Rightarrow> ('m \<Rightarrow> 'd session) \<Rightarrow> (string \<Rightarrow> 'd \<Rightarrow> 'd) \<Rightarrow>
     ('m, 'z) implementation_scheme \<Rightarrow> bool" where
  "on_database A db run s \<longleftrightarrow> transactional A db run \<and> ms_is_open s"

lemma db_deleter:
  "transactional A db run \<Longrightarrow> db (mysql (result_set_deleter A p s)) = db (mysql s)"
  by (cases p) (simp_all add: result_set_deleter_def transactional_others(1))

lemma db_free_result:
  assumes "transactional A db run"
  shows "db (mysql (free_result A s)) = db (mysql s)"
proof -
  obtain t d where "sp_release (last_result s) s = (t, d)" "mysql t = mysql s"
    by (cases "last_result s") simp_all
  then show ?thesis by (simp add: free_result_def db_deleter [OF assms])
qed

lemma db_query:
  assumes "on_database A db run s" and "ms_query A s stmt no_error = (s', ec)"
  shows "on_database A db run s' \<and> db (mysql s') =
           (if failed ec then db (mysql s) else after_statement (run stmt) (db (mysql s)))"
proof -
  let ?s1 = "(free_result A s)\<lparr>first_result_stored := False\<rparr>"
  obtain m r where q: "c_mysql_real_query A (mysql ?s1) (c_str stmt) (of_nat (length stmt)) = (m, r)"
    by fastforce
  have "s' = ?s1\<lparr>mysql := m\<rparr>" "ec = error_wrapper_int A r m no_error"
    using assms q by (auto simp: on_database_def ms_query_def op_defs Let_def)
  moreover have "transactional A db run" "ms_is_open s" using assms(1) by (simp_all add: on_database_def)
  ultimately show ?thesis
    using transactional_query [of A db run, OF _ q] db_free_result [of A db run s]
    by (simp add: on_database_def ms_is_open_def frame_simps failed_wrappers)
qed

lemma db_autocommit:
  assumes "on_database A db run s" and "ms_autocommit A s mode no_error = (s', ec)"
  shows "on_database A db run s' \<and> db (mysql s') =
           (if failed ec then db (mysql s) else after_autocommit mode (db (mysql s)))"
proof -
  obtain m bad where q: "c_mysql_autocommit A (mysql s) mode = (m, bad)" by fastforce
  then show ?thesis
    using transactional_others(2) [of A db run, OF _ q] assms
    by (auto simp: on_database_def ms_autocommit_def op_defs)
qed

lemma db_commit:
  assumes "on_database A db run s" and "ms_commit A s no_error = (s', ec)"
  shows "on_database A db run s' \<and> db (mysql s') =
           (if failed ec then db (mysql s) else after_commit (db (mysql s)))"
proof -
  obtain m bad where q: "c_mysql_commit A (mysql s) = (m, bad)" by fastforce
  then show ?thesis
    using transactional_others(3) [of A db run, OF _ q] assms
    by (auto simp: on_database_def ms_commit_def op_defs)
qed

lemma db_rollback:
  assumes "on_database A db run s" and "ms_rollback A s no_error = (s', ec)"
  shows "on_database A db run s' \<and> db (mysql s') =
           (if failed ec then db (mysql s) else after_rollback (db (mysql s)))"
proof -
  obtain m bad where q: "c_mysql_rollback A (mysql s) = (m, bad)" by fastforce
  then show ?thesis
    using transactional_others(4) [of A db run, OF _ q] assms
    by (auto simp: on_database_def ms_rollback_def op_defs)
qed

interpretation mysql_transactions:
  transactional_service "mysql_service_ops A" "on_database A db run" "\<lambda>s. db (mysql s)" run
  for A db run
  by (unfold_locales; unfold mysql_service_ops_def service_ops.simps)
     (rule db_query db_autocommit db_commit db_rollback; assumption)+

interpretation mariadb_transactions:
  transactional_service "mariadb_service_ops A" "on_database A db run" "\<lambda>s. db (mysql s)" run
  for A db run
  by (unfold_locales; unfold mariadb_service_ops_def mdb_same service_ops.simps)
     (rule db_query db_autocommit db_commit db_rollback; assumption)+

section \<open>Properties\<close>

definition settled_session :: "'d session \<Rightarrow> bool" where
  "settled_session d \<longleftrightarrow> autocommits d \<and> working d = committed d"

text \<open>
  The abstract specification.  A block is atomic: all of the statements, or none when an exception
  leaves it.  The exception is a block whose destructor has its rollback refused, and goes on: what
  has succeeded is kept.
\<close>

definition atomic_block ::
  "'s service_ops \<Rightarrow> ('s \<Rightarrow> 'd session) \<Rightarrow> (string \<Rightarrow> 'd \<Rightarrow> 'd) \<Rightarrow> 's \<Rightarrow> string list \<Rightarrow> bool" where
  "atomic_block S session run s stmts \<longleftrightarrow>
     (case with_commit S s stmts of
        (s', x, r) \<Rightarrow>
          committed (session s') =
            (case r of
               Inl e \<Rightarrow>
                 if rollback_refused S s stmts \<and> x = Normal
                 then fold run (succeeding_in_block S s stmts) (committed (session s))
                 else committed (session s)
             | Inr _ \<Rightarrow> fold run stmts (committed (session s))) \<and>
          (rollback_refused S s stmts \<longrightarrow> (\<exists>e. r = Inl e)) \<and>
          (x = Normal \<longrightarrow> settled_session (session s')))"

text \<open>
  C10. Transactions over both services.  If the routines of the library behave as the manual says (each
  has its effect or fails without any), a block with a scoped transaction, any statements and a commit
  has the effect of all statements, in their order, when it ends without an exception.  When one of
  the statements or the commit throws it has none, provided that the rollback of the destructor
  does not fail; if it does, the destructor drops the error and switches autocommit on, which keeps
  exactly the statements that had succeeded (or fails too, and the program is terminated).  Unless
  the program is terminated, the session is then settled and commits by itself again.
\<close>

theorem transactions_atomic:
  fixes t :: "('m, 'k, 'z) connection"
  assumes "transactional A db run"
    and "ms_is_open s" and "settled_session (db (mysql s))"
    and "mdb_is_open t" and "settled_session (db (mysql t))"
  shows "atomic_block (mysql_service_ops A) (\<lambda>s. db (mysql s)) run s stmts \<and>
         atomic_block (mariadb_service_ops A) (\<lambda>s. db (mysql s)) run t stmts"
proof
  obtain s' x r where w: "with_commit (mysql_service_ops A) s stmts = (s', x, r)"
    by (metis prod_cases3)
  show "atomic_block (mysql_service_ops A) (\<lambda>s. db (mysql s)) run s stmts"
    using mysql_transactions.block_effect [of A db run s stmts s' x r] w assms
    by (cases r) (auto simp: atomic_block_def on_database_def settled_session_def)
  obtain t' y q where v: "with_commit (mariadb_service_ops A) t stmts = (t', y, q)"
    by (metis prod_cases3)
  show "atomic_block (mariadb_service_ops A) (\<lambda>s. db (mysql s)) run t stmts"
    using mariadb_transactions.block_effect [of A db run t stmts t' y q] v assms
    by (cases q)
       (auto simp: atomic_block_def on_database_def settled_session_def mdb_is_open_def ms_is_open_def)
qed

text \<open>
  C22. The commit with an error code breaks this.  If every statement of the block succeeds, the
  commit fails, and the program throws its error, then the destructor of the transaction does not
  roll back, and switching autocommit on commits the effect of all statements.
\<close>

theorem failed_commit_is_kept:
  assumes "transactional A db run" and "ms_is_open s" and "settled_session (db (mysql s))"
    and "tx_begin (mysql_service_ops A) s = (s1, Inr c)"
    and "run_statements (mysql_service_ops A) s1 stmts = (s2, Inr ())"
    and "with_commit_ec (mysql_service_ops A) s stmts = (s', Normal, Inl e)"
  shows "committed (db (mysql s')) = fold run stmts (committed (db (mysql s)))"
  using mysql_transactions.failed_commit_kept [of A db run s s1 c stmts s2 s' e] assms
  by (simp add: on_database_def settled_session_def)

subsection \<open>A server with a counter\<close>

text \<open>
  The sample server with a database that counts statements: \<open>sv_log\<close> has an entry for each of the
  working state and \<open>sv_next_id\<close> is their number in the committed one.  A statement fails when the
  script is at its end, a commit if \<open>bad\<close>, a rollback if \<open>lost\<close>.
\<close>

definition count_statement :: "sample_server \<Rightarrow> sample_server" where
  "count_statement s =
     (let log = '''' # sv_log s
      in s\<lparr>sv_script := tl (sv_script s), sv_log := log,
          sv_next_id := (if sv_in_transaction s then sv_next_id s else length log)\<rparr>)"

definition counter_api ::
  "bool \<Rightarrow> bool \<Rightarrow> (sample_server, 'a) mysql_api_scheme \<Rightarrow> (sample_server, 'a) mysql_api_scheme" where
  "counter_api bad lost B =
     B\<lparr>c_mysql_errno := sv_errno, c_mysql_free_result := (\<lambda>s r. s),
        c_mysql_real_query :=
          (\<lambda>s stmt len. if sv_script s = [] then (s\<lparr>sv_errno := 1\<rparr>, 1) else (count_statement s, 0)),
        c_mysql_autocommit :=
          (\<lambda>s mode. (s\<lparr>sv_in_transaction := \<not> mode,
                       sv_next_id := (if mode then length (sv_log s) else sv_next_id s)\<rparr>, False)),
        c_mysql_commit :=
          (\<lambda>s. if bad then (s, True) else (s\<lparr>sv_next_id := length (sv_log s)\<rparr>, False)),
        c_mysql_rollback :=
          (\<lambda>s. if lost then (s\<lparr>sv_errno := 2006\<rparr>, True)
               else (s\<lparr>sv_log := replicate (sv_next_id s) ''''\<rparr>, False))\<rparr>"

definition counter_db :: "sample_server \<Rightarrow> nat session" where
  "counter_db s =
     \<lparr>committed = sv_next_id s, working = length (sv_log s), autocommits = \<not> sv_in_transaction s\<rparr>"

definition counter_run :: "string \<Rightarrow> nat \<Rightarrow> nat" where
  "counter_run stmt n = Suc n"

lemma counter_transactional: "transactional (counter_api bad lost B) counter_db counter_run"
  unfolding transactional_def
  by (intro conjI)
     (simp_all add: counter_api_def counter_db_def counter_run_def
       count_statement_def after_defs Let_def)

definition counter_connection :: "nat \<Rightarrow> sample_server implementation" where
  "counter_connection n =
     fst (ms_open sample_api
       (new_implementation (sample_start (replicate n [])) \<lparr>next_block = 0, use_count = \<lambda>_. 0\<rparr>)
       no_error)"

definition counter_mariadb :: "nat \<Rightarrow> (sample_server, nat) mariadb_connection" where
  "counter_mariadb n =
     fst (mdb_open sample_api
       (new_connection (sample_start (replicate n [])) \<lparr>next_block = 0, use_count = \<lambda>_. 0\<rparr>)
       no_error)"

text \<open>
  Three statements, of which the last one fails when the script has two entries.  The connection is
  then rolled back, or not when the rollback is refused.
\<close>

definition counter_left :: "bool \<Rightarrow> nat \<Rightarrow> nat" where
  "counter_left lost n =
     committed (counter_db (mysql (fst (with_commit (mysql_service_ops (counter_api False lost sample_mariadb))
       (counter_connection n) [''a'', ''b'', ''c'']))))"

theorem transactions_atomic_witness:
  "counter_left False 3 = 4 \<and> counter_left False 2 = 1 \<and> counter_left True 2 = 3"
proof -
  let ?stmts = "[''a'', ''b'', ''c'']" and ?A = "\<lambda>lost. counter_api False lost sample_mariadb"
  have h: "ms_is_open (counter_connection 3)" "settled_session (counter_db (mysql (counter_connection 3)))"
    "ms_is_open (counter_connection 2)" "settled_session (counter_db (mysql (counter_connection 2)))"
    "mdb_is_open (counter_mariadb 3)" "settled_session (counter_db (mysql (counter_mariadb 3)))"
    by code_simp+
  have one: "committed (counter_db (mysql (counter_connection 3))) = 1"
    "committed (counter_db (mysql (counter_connection 2))) = 1"
    by code_simp+
  note three = transactions_atomic [OF counter_transactional h(1,2,5,6), of _ _ _ ?stmts, THEN conjunct1]
  note two = transactions_atomic [OF counter_transactional h(3-6), of _ _ _ ?stmts, THEN conjunct1]
  have 3: "snd (with_commit (mysql_service_ops (?A False)) (counter_connection 3) ?stmts) = (Normal, Inr ())"
    by code_simp
  have 2: "map_prod id isl (snd (with_commit (mysql_service_ops (?A False)) (counter_connection 2) ?stmts)) =
        (Normal, True)"
    "\<not> rollback_refused (mysql_service_ops (?A False)) (counter_connection 2) ?stmts"
    by code_simp+
  have lost: "map_prod id isl (snd (with_commit (mysql_service_ops (?A True)) (counter_connection 2) ?stmts)) =
        (Normal, True)"
    "rollback_refused (mysql_service_ops (?A True)) (counter_connection 2) ?stmts"
    "succeeding_in_block (mysql_service_ops (?A True)) (counter_connection 2) ?stmts = [''a'', ''b'']"
    by code_simp+
  have "counter_left False 3 = 4"
    using three [of False False sample_mariadb] 3 one(1)
    by (auto simp: atomic_block_def counter_left_def counter_run_def split: prod.splits)
  moreover have "counter_left False 2 = 1"
    using two [of False False sample_mariadb] 2 one(2)
    by (auto simp: atomic_block_def counter_left_def counter_run_def split: prod.splits sum.splits)
  moreover have "counter_left True 2 = 3"
    using two [of False True sample_mariadb] lost one(2)
    by (auto simp: atomic_block_def counter_left_def counter_run_def split: prod.splits sum.splits)
  ultimately show ?thesis by blast
qed

theorem failed_commit_is_kept_witness:
  "snd (with_commit_ec (mysql_service_ops (counter_api True False sample_api)) (counter_connection 2) [''a'', ''b'']) =
     (Normal, Inl (system_error_of (misc_error_code Commit_error))) \<and>
   committed (counter_db (mysql (fst (with_commit_ec (mysql_service_ops (counter_api True False sample_api))
     (counter_connection 2) [''a'', ''b''])))) = 3"
proof -
  let ?S = "mysql_service_ops (counter_api True False sample_api)" and ?s = "counter_connection 2"
  let ?stmts = "[''a'', ''b'']"
  let ?b = "tx_begin ?S ?s" and ?w = "with_commit_ec ?S ?s ?stmts"
  let ?r = "run_statements ?S (fst ?b) ?stmts"
  have h: "ms_is_open ?s" "settled_session (counter_db (mysql ?s))" by code_simp+
  have "snd ?b = Inr False" "snd ?r = Inr ()" by code_simp+
  then have b: "?b = (fst ?b, Inr False)" "?r = (fst ?r, Inr ())" by (metis prod.collapse)+
  have w: "snd ?w = (Normal, Inl (system_error_of (misc_error_code Commit_error)))" by code_simp
  then have w': "?w = (fst ?w, Normal, Inl (system_error_of (misc_error_code Commit_error)))"
    by (metis prod.collapse)
  have "committed (counter_db (mysql ?s)) = 1" by code_simp
  then have "committed (counter_db (mysql (fst ?w))) = 3"
    using failed_commit_is_kept [OF counter_transactional h b w'] by (simp add: counter_run_def)
  then show ?thesis using w by simp
qed

end
