(* ===== verification/Example_Programs.thy ===== *)
theory Example_Programs
  imports Connector Async_Service Embedding
begin

text \<open>
  The programs of \<open>src/example\<close> that run one query or execute one statement, in their blocking
  and their asynchronous form, and the options they share (\<open>utils.cpp\<close>).  The asynchronous
  programs are callbacks that start the next operation; the theory puts them together with the
  work thread and the \<open>io_service\<close> of \<open>Async_Service\<close> and compares them with the blocking ones.

  A program ends when \<open>main\<close> returns.  What it has written to the standard output is kept, and the
  exception that it reports on the standard error; a failed assertion, an exception that is no
  \<open>system_error\<close> and a read outside an array are \<open>Aborted\<close>, without the output before.
\<close>

section \<open>Options\<close>

record global_options =
  opt_host :: string
  opt_port :: u32
  opt_user :: string
  opt_password :: string
  opt_schema :: string

definition default_options :: global_options where
  "default_options =
     \<lparr>opt_host = ''127.0.0.1'', opt_port = 3306, opt_user = ''amy'', opt_password = ''amy'',
      opt_schema = ''test_amy''\<rparr>"

text \<open>
  \<open>address::from_string\<close> is the parameter \<open>from_string\<close>, the text of the address it parses;
  \<open>None\<close> when it throws.  A port becomes an \<open>unsigned short\<close>.
\<close>

definition tcp_endpoint :: "(string \<Rightarrow> string option) \<Rightarrow> global_options \<Rightarrow> endpoint option" where
  "tcp_endpoint from_string opts =
     (if opt_host opts = [] then Some (Tcp_endpoint ''127.0.0.1'' (ucast (opt_port opts)))
      else map_option (\<lambda>a. Tcp_endpoint a (ucast (opt_port opts))) (from_string (opt_host opts)))"

definition options_auth :: "global_options \<Rightarrow> auth_info" where
  "options_auth opts = auth_info_user_password (opt_user opts) (opt_password opts)"

definition newline :: char where
  "newline = CHR 0x0A"

definition usage :: string where
  "usage =
     ''Available options:'' @ [newline] @
     ''  -h [ --help ]                   Show this help message'' @ [newline] @
     ''  -H [ --host ] arg (=127.0.0.1)  MySQL server host.'' @ [newline] @
     ''  -P [ --port ] arg (=3306)       MySQL server port.'' @ [newline] @
     ''  -u [ --user ] arg (=amy)        Login user.'' @ [newline] @
     ''  -p [ --password ] arg (=amy)    Login password.'' @ [newline] @
     ''  -s [ --schema ] arg (=test_amy) Default schema to use.''"

text \<open>What a function has written to the standard output and to the standard error.\<close>

record console =
  std_out :: string
  std_err :: string

definition silent :: console where
  "silent = \<lparr>std_out = [], std_err = []\<rparr>"

definition not_recognized :: "console \<Rightarrow> console" where
  "not_recognized c =
     \<lparr>std_out = usage @ [newline] @ std_out c,
      std_err = ''Command option not recognized.'' @ [newline] @ std_err c\<rparr>"

text \<open>
  The loop over \<open>getopt_long\<close>, which is a parameter: the list holds what it returns, each option
  with its argument.  The result is what is written and the options, or \<open>None\<close> for the call of
  \<open>exit\<close> after the usage.  An option that is not recognized shows the usage and goes on.  \<open>atoi\<close> is
  \<open>strtol\<close> cut to \<open>int\<close>.
\<close>

fun parse_command_line_options ::
  "(char \<times> string) list \<Rightarrow> global_options \<Rightarrow> console \<times> global_options option" where
  "parse_command_line_options [] opts = (silent, Some opts)"
| "parse_command_line_options ((ch, optarg) # rest) opts =
     (if ch = CHR ''h'' then (silent\<lparr>std_out := usage @ [newline]\<rparr>, None)
      else if ch = CHR ''H'' then parse_command_line_options rest (opts\<lparr>opt_host := optarg\<rparr>)
      else if ch = CHR ''P'' then
        (case strtol (optarg @ [nul]) of
           None \<Rightarrow> (silent, None)
         | Some n \<Rightarrow> parse_command_line_options rest (opts\<lparr>opt_port := ucast n\<rparr>))
      else if ch = CHR ''u'' then parse_command_line_options rest (opts\<lparr>opt_user := optarg\<rparr>)
      else if ch = CHR ''p'' then parse_command_line_options rest (opts\<lparr>opt_password := optarg\<rparr>)
      else if ch = CHR ''s'' then parse_command_line_options rest (opts\<lparr>opt_schema := optarg\<rparr>)
      else (case parse_command_line_options rest opts of (c, r) \<Rightarrow> (not_recognized c, r)))"

section \<open>Output\<close>

definition statement :: string where
  "statement =
     ''SELECT character_set_name, maxlen'' @ [newline] @
     ''FROM information_schema.character_sets'' @ [newline] @
     ''WHERE character_set_name LIKE '' @ [CHR 0x27] @ ''latin%'' @ [CHR 0x27]"

definition u64_text :: "u64 \<Rightarrow> string" where
  "u64_text n = nat_text (unat n)"

definition print_summary ::
  "('m, 'a) mysql_api_scheme \<Rightarrow> 'm implementation \<Rightarrow> result_set \<Rightarrow> string option" where
  "print_summary A s rs =
     (case (rs_affected_rows A (mysql s) rs, rs_field_count A (mysql s) rs) of
        (Inr n, Inr c) \<Rightarrow>
          Some (''Affected rows: '' @ u64_text n @ '', field count: '' @ nat_text (unat c) @
                '', result set size: '' @ u64_text (rs_size A (mysql s) rs s) @ [newline])
      | _ \<Rightarrow> None)"

definition print_line :: "mysql_field list \<Rightarrow> row \<Rightarrow> string option" where
  "print_line infos rw =
     (if length infos < 2 then None
      else case (row_at rw 0, row_at rw 1) of
             (Inr f, Inr g) \<Rightarrow>
               (case (fi_name (infos ! 0), field_as value_cast_string f,
                      fi_name (infos ! 1), field_as value_cast_int64 g) of
                  (Some a, Some x, Some b, Some y) \<Rightarrow>
                    Some (a @ '': '' @ x @ '', '' @ b @ '': '' @ int_text (sint y) @ [newline])
                | _ \<Rightarrow> None)
           | _ \<Rightarrow> None)"

definition print_result ::
  "('m, 'a) mysql_api_scheme \<Rightarrow> 'm implementation \<Rightarrow> result_set \<Rightarrow> string option" where
  "print_result A s rs =
     (case (print_summary A s rs, rs_get_fields_info rs s, rs_rows rs) of
        (Some t, Inr infos, Inr rows) \<Rightarrow>
          map_option (\<lambda>ts. t @ concat ts) (those (map (print_line infos) rows))
      | _ \<Rightarrow> None)"

section \<open>The blocking programs\<close>

text \<open>
  The end of a program: with what it has written, or with what it has written and the exception
  that \<open>main\<close> catches and reports.  The blocking operations throw the \<open>system_error\<close> of the library,
  \<open>check_error\<close> in the callbacks throws the one of \<open>std\<close> (or of Boost): the two have the same code,
  but not the same \<open>what\<close>.
\<close>

datatype thrown = Amy_error system_error | Std_error error_code

datatype exit = Printed string | Reported string thrown | Aborted

fun thrown_code :: "thrown \<Rightarrow> error_code" where
  "thrown_code (Amy_error e) = se_code e"
| "thrown_code (Std_error ec) = ec"

text \<open>\<open>std_what\<close> is the text that \<open>what\<close> of the class of \<open>std\<close> makes for a code.\<close>

definition report_system_error :: "(error_code \<Rightarrow> string) \<Rightarrow> thrown \<Rightarrow> string" where
  "report_system_error std_what e =
     ''System error: '' @ int_text (sint (ec_value (thrown_code e))) @ '' - '' @
     (case e of Amy_error a \<Rightarrow> c_str_of (se_message a) | Std_error ec \<Rightarrow> std_what ec) @ [newline]"

text \<open>The same end, but for the class of the exception: how the asynchronous form ends.\<close>

fun as_async :: "exit \<Rightarrow> exit" where
  "as_async (Reported out (Amy_error e)) = Reported out (Std_error (se_code e))"
| "as_async x = x"


definition blocking_single_query ::
  "('m, 'a) mysql_api_scheme \<Rightarrow> 'm implementation \<Rightarrow> endpoint \<Rightarrow> auth_info \<Rightarrow> string \<Rightarrow> exit option"
where
  "blocking_single_query A s ep auth schema =
     (let S = mysql_service_ops A
      in case connector_connect S s ep auth schema default_flags of
           (s1, Inl e) \<Rightarrow> Some (Reported [] (Amy_error e))
         | (s1, Inr _) \<Rightarrow>
             (case connector_query S s1 statement of
                (s2, Inl e) \<Rightarrow> Some (Reported [] (Amy_error e))
              | (s2, Inr _) \<Rightarrow>
                  (case connector_store_result S s2 of
                     None \<Rightarrow> None
                   | Some (s3, Inl e) \<Rightarrow> Some (Reported [] (Amy_error e))
                   | Some (s3, Inr rs) \<Rightarrow>
                       (case print_result A s3 rs of
                          None \<Rightarrow> Some Aborted
                        | Some t \<Rightarrow> Some (Printed t)))))"

definition affected_line :: "u64 \<Rightarrow> string" where
  "affected_line n = ''Affected rows: '' @ u64_text n @ [newline]"

definition blocking_execute ::
  "('m, 'a) mysql_api_scheme \<Rightarrow> 'm implementation \<Rightarrow> endpoint \<Rightarrow> auth_info \<Rightarrow> string \<Rightarrow> string \<Rightarrow> exit"
where
  "blocking_execute A s ep auth schema input =
     (let S = mysql_service_ops A
      in case connector_connect S s ep auth schema default_flags of
           (s1, Inl e) \<Rightarrow> Reported [] (Amy_error e)
         | (s1, Inr _) \<Rightarrow>
             (case execute S s1 input of
                (s2, Inl e) \<Rightarrow> Reported [] (Amy_error e)
              | (s2, Inr n) \<Rightarrow> Printed (affected_line n)))"

section \<open>The asynchronous programs\<close>

text \<open>
  A program is running with what it has written so far, or has ended.  Every callback first
  checks the error; \<open>check_error\<close> throws out of \<open>io_service::run\<close>, which \<open>main\<close> catches.
\<close>

datatype ('m, 'k) program = Running "('m, 'k) async_service" string | Exited exit

definition check_error ::
  "error_code \<Rightarrow> string \<Rightarrow> ('m, 'k) program \<Rightarrow> ('m, 'k) program" where
  "check_error ec out continue =
     (if failed ec then Exited (Reported out (Std_error ec)) else continue)"

datatype example_handler = Handle_connect | Handle_query | Handle_store_result | Handle_execute

fun single_query_callback ::
  "('m, 'a) mysql_api_scheme \<Rightarrow> example_handler completion \<Rightarrow> ('m, example_handler) async_service \<Rightarrow>
     string \<Rightarrow> ('m, example_handler) program" where
  "single_query_callback A (Completion Handle_connect ec rs) s out =
     check_error ec out (Running (ms_async_query s statement Handle_query) out)"
| "single_query_callback A (Completion Handle_query ec rs) s out =
     check_error ec out (Running (ms_async_store_result s Handle_store_result) out)"
| "single_query_callback A (Completion Handle_store_result ec rs) s out =
     check_error ec out
       (case rs of
          None \<Rightarrow> Exited Aborted
        | Some r \<Rightarrow>
            (case print_result A (conn s) r of
               None \<Rightarrow> Exited Aborted
             | Some t \<Rightarrow> Running s (out @ t)))"
| "single_query_callback A (Completion Handle_execute ec rs) s out = Exited Aborted"

text \<open>
  \<open>async_execute\<close> starts a query with \<open>execute_handler\<close> around the handler of the user; when the
  query has completed, \<open>execute_handler\<close> calls that handler with the error and a number of rows.
\<close>

definition async_execute ::
  "('m, 'k) async_service \<Rightarrow> string \<Rightarrow> 'k \<Rightarrow> ('m, 'k) async_service" where
  "async_execute s stmt k = ms_async_query s stmt k"

fun execute_callback ::
  "('m, 'a) mysql_api_scheme \<Rightarrow> string \<Rightarrow> example_handler completion \<Rightarrow>
     ('m, example_handler) async_service \<Rightarrow> string \<Rightarrow> ('m, example_handler) program" where
  "execute_callback A input (Completion Handle_connect ec rs) s out =
     check_error ec out (Running (async_execute s input Handle_execute) out)"
| "execute_callback A input (Completion Handle_execute ec rs) s out =
     (case execute_handler (mysql_service_ops A) s ec of
        (ec', n) \<Rightarrow> check_error ec' out (Running s (out @ affected_line n)))"
| "execute_callback A input (Completion _ ec rs) s out = Exited Aborted"

text \<open>\<open>main\<close> up to \<open>io_service::run\<close>, the same in all programs but for the flags.\<close>

definition async_main ::
  "('m, 'a) mysql_api_scheme \<Rightarrow> 'm implementation \<Rightarrow> endpoint \<Rightarrow> auth_info \<Rightarrow> string \<Rightarrow> u64 \<Rightarrow>
     ('m, example_handler) program" where
  "async_main A i ep auth schema fl =
     Running (ms_async_connect A (new_service i) ep auth schema fl Handle_connect) []"

text \<open>
  What may happen while \<open>io_service::run\<close> is active: the work thread runs a handler, a callback
  is called, and \<open>run\<close> returns when there is no callback and no handler whose work object keeps
  it alive.
\<close>

inductive program_step ::
  "('m, 'a) mysql_api_scheme \<Rightarrow>
     ('k completion \<Rightarrow> ('m, 'k) async_service \<Rightarrow> string \<Rightarrow> ('m, 'k) program) \<Rightarrow>
     ('m, 'k) program \<Rightarrow> ('m, 'k) program \<Rightarrow> bool" for A react where
  program_work:
    "work_thread s \<Longrightarrow> work_queue s = xs @ w # ys \<Longrightarrow>
     run_item A (s\<lparr>work_queue := xs @ ys\<rparr>) w = Some s' \<Longrightarrow>
     program_step A react (Running s out) (Running s' out)"
| program_callback:
    "io_queue s = xs @ c # ys \<Longrightarrow>
     program_step A react (Running s out) (react c (s\<lparr>io_queue := xs @ ys\<rparr>) out)"
| program_return:
    "work_queue s = [] \<Longrightarrow> io_queue s = [] \<Longrightarrow>
     program_step A react (Running s out) (Exited (Printed out))"

inductive_cases running_stepE: "program_step A react (Running s out) p"
inductive_cases exited_stepE: "program_step A react (Exited x) p"

section \<open>Programs with one thing to do at a time\<close>

text \<open>
  \<open>inevitably R y n p\<close>: whatever steps are taken, \<open>p\<close> comes to \<open>y\<close> after at most \<open>n\<close> of them, and
  there is one to take before.
\<close>

fun inevitably :: "('p \<Rightarrow> 'p \<Rightarrow> bool) \<Rightarrow> 'p \<Rightarrow> nat \<Rightarrow> 'p \<Rightarrow> bool" where
  "inevitably R y 0 p \<longleftrightarrow> p = y"
| "inevitably R y (Suc n) p \<longleftrightarrow> p = y \<or> (\<exists>p'. R p p') \<and> (\<forall>p'. R p p' \<longrightarrow> inevitably R y n p')"

lemma inevitably_there [simp]: "inevitably R y n y"
  by (cases n) simp_all

lemma inevitably_step:
  assumes "R p q" and "\<And>p'. R p p' \<Longrightarrow> inevitably R y n p'"
  shows "inevitably R y (Suc n) p"
  using assms by auto

lemma inevitably_steps:
  assumes "\<And>q. \<not> R y q"
  shows "inevitably R y n p \<Longrightarrow> (R ^^ k) p q \<Longrightarrow> k \<le> n \<and> (q = y \<or> (\<exists>q'. R q q'))"
proof (induction k arbitrary: n p)
  case 0
  then show ?case by (cases n) auto
next
  case (Suc k)
  from Suc.prems(2) obtain p' where p': "R p p'" "(R ^^ k) p' q"
    by (metis relpowp_Suc_E2)
  have "p \<noteq> y" using p'(1) assms by auto
  then obtain m where "n = Suc m" "inevitably R y m p'"
    using Suc.prems(1) p'(1) by (cases n) auto
  with Suc.IH [OF _ p'(2)] show ?case by auto
qed

lemma inevitably_Suc: "inevitably R y n p \<Longrightarrow> inevitably R y (Suc n) p"
proof (induction n arbitrary: p)
  case (Suc n)
  then show ?case by (metis inevitably.simps(2))
qed simp

declare inevitably.simps [simp del]

text \<open>A program that ends with \<open>x\<close>.\<close>

abbreviation leads ::
  "('m, 'a) mysql_api_scheme \<Rightarrow>
     ('k completion \<Rightarrow> ('m, 'k) async_service \<Rightarrow> string \<Rightarrow> ('m, 'k) program) \<Rightarrow>
     exit \<Rightarrow> nat \<Rightarrow> ('m, 'k) program \<Rightarrow> bool" where
  "leads A react x n p \<equiv> inevitably (program_step A react) (Exited x) n p"

lemma leads_steps:
  assumes "leads A react x n p" and "(program_step A react ^^ k) p q"
  shows "k \<le> n \<and> (q = Exited x \<or> (\<exists>q'. program_step A react q q'))"
  by (rule inevitably_steps [OF _ assms]) (auto elim: exited_stepE)

lemma leads_work:
  assumes "work_thread s" and "work_queue s = [w]" and "io_queue s = []"
    and "run_item A (s\<lparr>work_queue := []\<rparr>) w = Some s'"
    and "leads A react x n (Running s' out)"
  shows "leads A react x (Suc n) (Running s out)"
proof -
  have "program_step A react (Running s out) (Running s' out)"
    using program_work [of s "[]" w "[]" A s'] assms(1,2,4) by simp
  then show ?thesis
  proof (rule inevitably_step)
    fix p
    assume "program_step A react (Running s out) p"
    then show "leads A react x n p"
      using assms by (cases rule: running_stepE) (auto simp: append_eq_Cons_conv Cons_eq_append_conv)
  qed
qed

lemma leads_callback:
  assumes "work_queue s = []" and "io_queue s = [c]"
    and "leads A react x n (react c (s\<lparr>io_queue := []\<rparr>) out)"
  shows "leads A react x (Suc n) (Running s out)"
proof -
  have "program_step A react (Running s out) (react c (s\<lparr>io_queue := []\<rparr>) out)"
    using program_callback [of s "[]" c "[]" A react out] assms(2) by simp
  then show ?thesis
  proof (rule inevitably_step)
    fix p
    assume "program_step A react (Running s out) p"
    then show "leads A react x n p"
      using assms by (cases rule: running_stepE) (auto simp: append_eq_Cons_conv Cons_eq_append_conv)
  qed
qed

lemma leads_return:
  assumes "work_queue s = []" and "io_queue s = []"
  shows "leads A react (Printed out) (Suc n) (Running s out)"
proof -
  have "program_step A react (Running s out) (Exited (Printed out))"
    using assms by (rule program_return)
  then show ?thesis
  proof (rule inevitably_step)
    fix p
    assume "program_step A react (Running s out) p"
    then show "leads A react (Printed out) n p"
      using assms by (cases rule: running_stepE) auto
  qed
qed

section \<open>A service around a connection\<close>

definition svc ::
  "'m implementation \<Rightarrow> bool \<Rightarrow> 'k work_item list \<Rightarrow> 'k completion list \<Rightarrow> ('m, 'k) async_service" where
  "svc i th wq q = (new_service i)\<lparr>work_thread := th, work_queue := wq, io_queue := q\<rparr>"

lemma svc_select [simp]:
  "conn (svc i th wq q) = i" "work_io_service (svc i th wq q)" "work_thread (svc i th wq q) = th"
  "work_queue (svc i th wq q) = wq" "io_queue (svc i th wq q) = q"
  by (simp_all add: svc_def new_service_def implementation.truncate_def)

lemma svc_update [simp]:
  "(svc i th wq q)\<lparr>work_queue := wq'\<rparr> = svc i th wq' q"
  "(svc i th wq q)\<lparr>io_queue := q'\<rparr> = svc i th wq q'"
  "(svc i th wq q)\<lparr>work_thread := th'\<rparr> = svc i th' wq q"
  by (simp_all add: svc_def)

lemma with_conn_svc [simp]: "with_conn i' (svc i th wq q) = svc i' th wq q"
  by (simp add: svc_def new_service_def with_conn_def implementation.extend_def)

lemma svc_members [simp]:
  "mysql (svc i th wq q) = mysql i" "ms_is_open (svc i th wq q) = ms_is_open i"
  "cancelation_token (svc i th wq q) = cancelation_token i"
  "expired w (svc i th wq q) = expired w i"
  by (cases w; simp add: svc_def new_service_def ms_is_open_def)+

lemma new_service_svc: "new_service i = svc i False [] []"
  by (simp add: svc_def new_service_def)

lemma post_svc [simp]: "post c (svc i th wq q) = svc i th wq (q @ [c])"
  by (simp add: post_def)

lemma enqueue_svc [simp]:
  "post_work w (start_work_thread (svc i th wq q)) = svc i True (wq @ [w]) q"
  by (simp add: post_work_def start_work_thread_def)

lemma svc_conn_update [simp]:
  "(svc i th wq q)\<lparr>mysql := m\<rparr> = svc (i\<lparr>mysql := m\<rparr>) th wq q"
  "(svc i th wq q)\<lparr>flags := fl\<rparr> = svc (i\<lparr>flags := fl\<rparr>) th wq q"
  "(svc i th wq q)\<lparr>initialized := b\<rparr> = svc (i\<lparr>initialized := b\<rparr>) th wq q"
  "(svc i th wq q)\<lparr>first_result_stored := b\<rparr> = svc (i\<lparr>first_result_stored := b\<rparr>) th wq q"
  by (simp_all add: svc_def new_service_def)

definition around ::
  "'m implementation \<times> error_code \<Rightarrow> bool \<Rightarrow> 'k work_item list \<Rightarrow> 'k completion list \<Rightarrow>
     ('m, 'k) async_service \<times> error_code" where
  "around r th wq q = (svc (fst r) th wq q, snd r)"

lemma open_svc: "ms_open A (svc i th wq q) ec = around (ms_open A i ec) th wq q"
  by (simp add: ms_open_def around_def Let_def split: prod.splits)

lemma connect_svc:
  "ms_connect A (svc i th wq q) ep au db fl ec = around (ms_connect A i ep au db fl ec) th wq q"
  by (simp add: ms_connect_def open_svc around_def Let_def case_prod_unfold)

lemma free_result_svc [simp]: "free_result A (svc i th wq q) = svc (free_result A i) th wq q"
  using with_conn_free_result [of A i "svc i th wq q"] by simp

lemma query_svc: "ms_query A (svc i th wq q) stmt ec = around (ms_query A i stmt ec) th wq q"
  by (simp add: ms_query_def around_def Let_def case_prod_unfold)

lemma store_result_svc:
  "ms_store_result A (svc i th wq q) ec =
     map_option (\<lambda>(i', rs, ec'). (svc i' th wq q, rs, ec')) (ms_store_result A i ec)"
  using with_conn_next_result [of A i "svc i th wq q" ec]
    with_conn_take_result [of A "fst (ms_next_result A i ec)" "svc i th wq q"
      "snd (ms_next_result A i ec)"]
  by (simp add: ms_store_result_def case_prod_unfold Let_def)

text \<open>The three kinds of handler, run in the state in which they were queued.\<close>

lemma run_item_svc:
  assumes "impl_inv i" and "ms_is_open i"
  defines "tok \<equiv> wp_of (cancelation_token i)"
  shows "run_item A (svc i th wq q) (Connect_handler tok ep au db fl k) =
           Some (svc (fst (ms_connect A i ep au db fl no_error)) th wq
             (q @ [Completion k (snd (ms_connect A i ep au db fl no_error)) None]))"
    and "run_item A (svc i th wq q) (Query_handler tok stmt k) =
           Some (svc (fst (ms_query A i stmt no_error)) th wq
             (q @ [Completion k (snd (ms_query A i stmt no_error)) None]))"
    and "run_item A (svc i th wq q) (Store_result_handler tok k) =
           map_option (\<lambda>(i', rs, ec). svc i' th wq (q @ [Completion k ec (Some rs)]))
             (ms_store_result A i no_error)"
  using live_handlers_blocking [of tok "svc i th wq q" A] token_live [OF assms(1)] assms(2)
  by (simp_all add: tok_def connect_svc query_svc store_result_svc around_def option.map_comp
      comp_def case_prod_unfold)

declare run_item.simps [simp del]

text \<open>A handler is run and its callback is called.\<close>

lemma leads_handler:
  assumes "run_item A (svc i True [] []) w = Some s'"
    and "leads A react x n (Running s' out)"
  shows "leads A react x (Suc n) (Running (svc i True [w] []) out)"
  using assms by (intro leads_work) simp_all

section \<open>An asynchronous operation, its handler and its callback\<close>

lemma open_keeps_open:
  "ms_is_open i \<Longrightarrow> ms_is_open (fst (ms_connect A i ep au db fl ec))"
  "ms_is_open i \<Longrightarrow> ms_is_open (fst (ms_query A i stmt ec))"
  by (auto simp: ms_connect_def ms_query_def ms_is_open_def frame_simps Let_def split: prod.splits)

lemma ms_connect_opens:
  assumes "\<not> failed (snd (ms_open A i no_error))"
  shows "ms_connect A i ep au db fl no_error =
           ms_connect A (fst (ms_open A i no_error)) ep au db fl no_error"
    and "ms_is_open (fst (ms_open A i no_error))"
proof -
  show "ms_is_open (fst (ms_open A i no_error))"
    using assms
    by (auto simp: ms_open_def ms_is_open_def mysql_init_def Let_def split: prod.splits if_splits)
  then show "ms_connect A i ep au db fl no_error =
      ms_connect A (fst (ms_open A i no_error)) ep au db fl no_error"
    using assms
    by (auto simp: ms_connect_def mysql_real_connect_def clear_error_def Let_def ms_open_def
        split: prod.splits)
qed

lemma ms_connect_open_failed:
  assumes "\<not> ms_is_open i" and "failed (snd (ms_open A i no_error))"
  shows "ms_connect A i ep au db fl no_error = ms_open A i no_error"
  using assms by (cases "ms_open A i no_error") (simp add: ms_connect_def Let_def)

lemma leads_query:
  assumes "impl_inv i" and "ms_is_open i"
    and "leads A react x n
           (react (Completion k (snd (ms_query A i stmt no_error)) None)
             (svc (fst (ms_query A i stmt no_error)) True [] []) out)"
  shows "leads A react x (Suc (Suc n)) (Running (ms_async_query (svc i th [] []) stmt k) out)"
proof -
  let ?w = "Query_handler (wp_of (cancelation_token i)) stmt k"
  have start: "ms_async_query (svc i th [] []) stmt k = svc i True [?w] []"
    using assms(2) by (simp add: ms_async_query_def)
  show ?thesis
    unfolding start
    by (rule leads_work, simp, simp, simp, simp add: run_item_svc [OF assms(1,2)],
        rule leads_callback) (use assms(3) in simp_all)
qed

lemma leads_store_result:
  assumes "impl_inv i" and "ms_is_open i"
    and "ms_store_result A i no_error = Some (i', rs, ec)"
    and "leads A react x n (react (Completion k ec (Some rs)) (svc i' True [] []) out)"
  shows "leads A react x (Suc (Suc n)) (Running (ms_async_store_result (svc i th [] []) k) out)"
proof -
  let ?w = "Store_result_handler (wp_of (cancelation_token i)) k"
  have start: "ms_async_store_result (svc i th [] []) k = svc i True [?w] []"
    using assms(2) by (simp add: ms_async_store_result_def)
  show ?thesis
    unfolding start
    by (rule leads_work, simp, simp, simp, simp add: run_item_svc [OF assms(1,2)] assms(3),
        rule leads_callback) (use assms(4) in simp_all)
qed

lemma leads_connect_callback:
  assumes "impl_inv i" and "auth_info_copy auth = auth"
    and "\<And>th. (\<not> failed ec \<Longrightarrow> th) \<Longrightarrow>
           leads A react x n (react (Completion Handle_connect ec None) (svc i' th [] []) [])"
    and "ms_connect A i ep auth schema fl no_error = (i', ec)"
  shows "leads A react x (Suc (Suc n)) (async_main A i ep auth schema fl)"
proof -
  define p where "p = (if \<not> ms_is_open i then ms_open A i no_error else (i, no_error))"
  have main: "async_main A i ep auth schema fl =
      Running (if failed (snd p)
               then svc (fst p) False [] [Completion Handle_connect (snd p) None]
               else svc (fst p) True
                 [Connect_handler (wp_of (cancelation_token (fst p))) ep auth schema fl
                    Handle_connect] []) []"
    using assms(2)
    by (auto simp: async_main_def ms_async_connect_def new_service_svc open_svc around_def p_def Let_def)
  have called: "leads A react x (Suc n) (Running (svc i' th [] [Completion Handle_connect ec None]) [])"
    if "\<not> failed ec \<Longrightarrow> th" for th
    by (rule leads_callback) (use assms(3) [OF that] in simp_all)
  show ?thesis
  proof (cases "failed (snd p)")
    case True
    then have "p = (i', ec)"
      using ms_connect_open_failed [of i A] assms(4) by (auto simp: p_def split: if_splits)
    then show ?thesis using True main called [of False, THEN inevitably_Suc] by simp
  next
    case False
    have inv: "impl_inv (fst p)"
      using keepsD(1) [OF keeps_open assms(1), of A no_error] assms(1) by (simp add: p_def)
    have "ms_is_open (fst p)" "ms_connect A (fst p) ep auth schema fl no_error = (i', ec)"
      using ms_connect_opens [of A i] False assms(4) by (auto simp: p_def split: if_splits)
    then have run: "run_item A (svc (fst p) True [] [])
        (Connect_handler (wp_of (cancelation_token (fst p))) ep auth schema fl
           Handle_connect) = Some (svc i' True [] [Completion Handle_connect ec None])"
      by (simp add: run_item_svc [OF inv])
    then show ?thesis using main False leads_handler [OF run called] by simp
  qed
qed

text \<open>A callback that throws the error of a connect that has failed.\<close>

lemma leads_connect:
  assumes "impl_inv i" and "auth_info_copy auth = auth"
    and "\<And>s. failed ec \<Longrightarrow> react (Completion Handle_connect ec None) s [] = Exited x"
    and "\<not> failed ec \<Longrightarrow>
           leads A react x n (react (Completion Handle_connect ec None) (svc i' True [] []) [])"
    and "ms_connect A i ep auth schema fl no_error = (i', ec)"
  shows "leads A react x (Suc (Suc n)) (async_main A i ep auth schema fl)"
proof (rule leads_connect_callback [OF assms(1,2) _ assms(5)])
  fix th
  assume "\<not> failed ec \<Longrightarrow> th"
  then show "leads A react x n (react (Completion Handle_connect ec None) (svc i' th [] []) [])"
    using assms(3,4) by (cases "failed ec") simp_all
qed

lemma connect_result:
  assumes "impl_inv i" and "ms_connect A i ep auth schema fl no_error = (i', ec)" and "\<not> failed ec"
  shows "impl_inv i' \<and> ms_is_open i'"
proof -
  have "impl_inv i'" using keepsD(1) [OF keeps_connect assms(1)] assms(2) by (metis fst_conv)
  moreover have "ms_is_open i'"
  proof (cases "ms_is_open i")
    case True
    then show ?thesis using open_keeps_open(1) assms(2) by (metis fst_conv)
  next
    case False
    then have "\<not> failed (snd (ms_open A i no_error))"
      using ms_connect_open_failed [OF False] assms(2,3) by (metis snd_conv)
    then show ?thesis
      using ms_connect_opens [of A i] open_keeps_open(1) assms(2) by (metis fst_conv)
  qed
  ultimately show ?thesis by blast
qed

lemma query_result:
  assumes "impl_inv i" and "ms_is_open i" and "ms_query A i stmt no_error = (i', ec)"
  shows "impl_inv i' \<and> ms_is_open i'"
  using keepsD(1) [OF keeps_query assms(1), of A stmt no_error] open_keeps_open(2) [OF assms(2), of A stmt no_error]
    assms(3) by simp

section \<open>Properties\<close>

lemma throw_error_cases:
  "throw_error ec t = Inl e \<Longrightarrow> failed ec \<and> se_code e = ec"
  "throw_error ec t = Inr u \<Longrightarrow> \<not> failed ec"
  by (auto simp: throw_error_def system_error_of_def split: if_splits)

lemma connector_forms:
  fixes i :: "'m implementation"
  shows "connector_connect (mysql_service_ops A) i ep au db fl =
           throwing (mysql_service_ops A) (ms_connect A i ep au db fl no_error)"
    and "connector_query (mysql_service_ops A) i stmt =
           throwing (mysql_service_ops A) (ms_query A i stmt no_error)"
  by (simp_all add: connector_connect_def connector_query_def mysql_service_ops_def)

lemma throwing_failed: "failed ec \<Longrightarrow> \<exists>e. throwing S (s, ec) = (s, Inl e) \<and> se_code e = ec"
  by (simp add: throwing_def throw_error_def system_error_of_def)

lemma throwing_ok: "\<not> failed ec \<Longrightarrow> throwing S (s, ec) = (s, Inr ())"
  by (simp add: throwing_def throw_error_def)

text \<open>The rest of the program after the connect, and after the query.\<close>

lemma single_query_store:
  assumes "impl_inv i" and "ms_is_open i"
    and "(case connector_store_result (mysql_service_ops A) i of
            None \<Rightarrow> None
          | Some (s3, Inl e) \<Rightarrow> Some (Reported [] (Amy_error e))
          | Some (s3, Inr rs) \<Rightarrow>
              (case print_result A s3 rs of None \<Rightarrow> Some Aborted | Some t \<Rightarrow> Some (Printed t))) =
         Some x"
  shows "leads A (single_query_callback A) (as_async x) 3
           (Running (ms_async_store_result (svc i True [] []) Handle_store_result) [])"
proof -
  obtain i' rs ec where r: "ms_store_result A i no_error = Some (i', rs, ec)"
    using assms(3) by (auto simp: connector_store_result_def mysql_service_ops_def split: option.splits)
  have stored: "connector_store_result (mysql_service_ops A) i =
      Some (i', case throw_error ec (c_mysql_error A (mysql i')) of Inl e \<Rightarrow> Inl e | Inr _ \<Rightarrow> Inr rs)"
    using r by (simp add: connector_store_result_def mysql_service_ops_def)
  have "leads A (single_query_callback A) (as_async x) (Suc 0)
      (single_query_callback A (Completion Handle_store_result ec (Some rs)) (svc i' True [] []) [])"
  proof (cases "failed ec")
    case True
    then have "as_async x = Reported [] (Std_error ec)"
      using assms(3) stored by (auto simp: throw_error_def system_error_of_def split: if_splits)
    then show ?thesis using True by (simp add: check_error_def)
  next
    case False
    then have p: "(case print_result A i' rs of None \<Rightarrow> Aborted | Some t \<Rightarrow> Printed t) = x"
      using assms(3) stored by (simp add: throw_error_def split: option.splits)
    show ?thesis
    proof (cases "print_result A i' rs")
      case None
      then show ?thesis using False p by (simp add: check_error_def)
    next
      case (Some t)
      then have "x = Printed t" using p by simp
      then show ?thesis
        using False Some leads_return [of "svc i' True [] []" A "single_query_callback A" t 0]
        by (simp add: check_error_def)
    qed
  qed
  from leads_store_result [OF assms(1,2) r this] show ?thesis
    by (simp add: eval_nat_numeral)
qed

lemma single_query_after_connect:
  assumes "impl_inv i" and "ms_is_open i"
    and "(case connector_query (mysql_service_ops A) i statement of
            (s2, Inl e) \<Rightarrow> Some (Reported [] (Amy_error e))
          | (s2, Inr _) \<Rightarrow>
              (case connector_store_result (mysql_service_ops A) s2 of
                 None \<Rightarrow> None
               | Some (s3, Inl e) \<Rightarrow> Some (Reported [] (Amy_error e))
               | Some (s3, Inr rs) \<Rightarrow>
                   (case print_result A s3 rs of
                      None \<Rightarrow> Some Aborted
                    | Some t \<Rightarrow> Some (Printed t)))) = Some x"
  shows "leads A (single_query_callback A) (as_async x) 5
           (Running (ms_async_query (svc i True [] []) statement Handle_query) [])"
proof -
  obtain i' ec where q: "ms_query A i statement no_error = (i', ec)"
    by (cases "ms_query A i statement no_error")
  have "leads A (single_query_callback A) (as_async x) 3
      (single_query_callback A (Completion Handle_query ec None) (svc i' True [] []) [])"
  proof (cases "failed ec")
    case True
    then show ?thesis
      using assms(3) q throwing_failed [OF True, of "mysql_service_ops A" i']
      by (auto simp: connector_forms check_error_def)
  next
    case False
    then show ?thesis
      using assms(3) q throwing_ok [OF False, of "mysql_service_ops A" i']
        single_query_store [of i' A x] query_result [OF assms(1,2) q]
      by (simp add: connector_forms check_error_def)
  qed
  then show ?thesis
    using leads_query [OF assms(1,2), of A "single_query_callback A" "as_async x" 3 Handle_query statement] q
    by (simp add: eval_nat_numeral)
qed

lemma single_query_leads:
  assumes "impl_inv i" and "auth_info_copy auth = auth"
    and "blocking_single_query A i ep auth schema = Some x"
  shows "leads A (single_query_callback A) (as_async x) 7 (async_main A i ep auth schema default_flags)"
proof -
  obtain i' ec where c: "ms_connect A i ep auth schema default_flags no_error = (i', ec)"
    by (cases "ms_connect A i ep auth schema default_flags no_error")
  have failing: "as_async x = Reported [] (Std_error ec)" if "failed ec"
    using assms(3) c throwing_failed [OF that, of "mysql_service_ops A" i']
    by (auto simp: blocking_single_query_def connector_forms Let_def)
  have "leads A (single_query_callback A) (as_async x) 5
      (single_query_callback A (Completion Handle_connect ec None) (svc i' True [] []) [])"
    if "\<not> failed ec"
    using that assms(3) c throwing_ok [OF that, of "mysql_service_ops A" i']
      single_query_after_connect [of i' A x] connect_result [OF assms(1) c that]
    by (simp add: blocking_single_query_def connector_forms check_error_def Let_def)
  then have "leads A (single_query_callback A) (as_async x) (Suc (Suc 5)) (async_main A i ep auth schema default_flags)"
    using leads_connect [OF assms(1,2) _ _ c, where react = "single_query_callback A" and x = "as_async x"
        and n = 5] failing
    by (simp only: single_query_callback.simps check_error_def) simp
  then show ?thesis by (simp add: eval_nat_numeral)
qed

text \<open>
  The asynchronous form of the other program reports the same errors, but after success it
  always prints the number 0.
\<close>

definition without_count :: "exit \<Rightarrow> exit" where
  "without_count x = (case x of Printed t \<Rightarrow> Printed (affected_line 0) | _ \<Rightarrow> as_async x)"

lemma execute_eq:
  assumes "ms_query A i stmt no_error = (i', ec)"
  shows "execute (mysql_service_ops A) i stmt =
           (i', case throw_error ec (c_mysql_error A (mysql i')) of
                  Inl e \<Rightarrow> Inl e
                | Inr _ \<Rightarrow> Inr (if failed ec then 0 else ms_affected_rows A i'))"
  using assms
  by (cases "failed ec") (simp_all add: execute_def execute_ec_def mysql_service_ops_def throw_error_def)

lemma execute_leads:
  assumes "impl_inv i" and "auth_info_copy auth = auth"
    and "blocking_execute A i ep auth schema input = x"
  shows "leads A (execute_callback A input) (without_count x) 5 (async_main A i ep auth schema default_flags)"
proof -
  let ?S = "mysql_service_ops A" and ?R = "execute_callback A input" and ?x = "without_count x"
  obtain i1 ec1 where c: "ms_connect A i ep auth schema default_flags no_error = (i1, ec1)"
    by (cases "ms_connect A i ep auth schema default_flags no_error")
  obtain i2 ec2 where q: "ms_query A i1 input no_error = (i2, ec2)"
    by (cases "ms_query A i1 input no_error")
  have failing: "?x = Reported [] (Std_error ec1)" if "failed ec1"
    using assms(3) c throwing_failed [OF that, of ?S i1]
    by (auto simp: blocking_execute_def connector_forms Let_def without_count_def)
  have "leads A ?R ?x 3 (?R (Completion Handle_connect ec1 None) (svc i1 True [] []) [])"
    if ok: "\<not> failed ec1"
  proof -
    have i1: "impl_inv i1" "ms_is_open i1" using connect_result [OF assms(1) c ok] by simp_all
    have x: "?x = (if failed ec2 then Reported [] (Std_error ec2) else Printed (affected_line 0))"
      using assms(3) c throwing_ok [OF ok, of ?S i1] execute_eq [OF q]
      by (auto simp: blocking_execute_def connector_forms throw_error_def system_error_of_def
          without_count_def Let_def)
    have "leads A ?R ?x (Suc 0) (?R (Completion Handle_execute ec2 None) (svc i2 True [] []) [])"
      using leads_return [of "svc i2 True [] []" A ?R "affected_line 0" 0]
      by (simp add: execute_handler_def check_error_def x)
    then show ?thesis
      using leads_query [OF i1, of A ?R ?x "Suc 0" Handle_execute input "[]"] q ok
      by (simp add: check_error_def async_execute_def eval_nat_numeral)
  qed
  then have "leads A ?R ?x (Suc (Suc 3)) (async_main A i ep auth schema default_flags)"
    using leads_connect [OF assms(1,2) _ _ c, where react = ?R and x = ?x and n = 3] failing
    by (simp only: execute_callback.simps check_error_def) simp
  then show ?thesis by (simp add: eval_nat_numeral)
qed

text \<open>
  The asynchronous program does what the blocking one does.  However the work thread and the
  \<open>io_service\<close> interleave, \<open>async_single_query\<close> never gets stuck, ends after at most seven
  steps, and has then written the same output and reported the same error code, if any, as
  \<open>blocking_single_query\<close>, when that ends, with the same server and the same arguments.
\<close>

theorem async_single_query_equals_blocking:
  assumes "impl_inv i" and "nul_free (auth_user auth)" and "pred_option nul_free (auth_password auth)"
    and "blocking_single_query A i ep auth schema = Some x"
    and "(program_step A (single_query_callback A) ^^ n) (async_main A i ep auth schema default_flags) p"
  shows "n \<le> 7 \<and> (p = Exited (as_async x) \<or> (\<exists>p'. program_step A (single_query_callback A) p p'))"
  using leads_steps [OF single_query_leads [OF assms(1) _ assms(4)] assms(5)]
    auth_info_copy_eq_self_iff assms(2,3) by blast

text \<open>
  \<open>async_execute\<close> loses the number of affected rows: the asynchronous program reports the
  same errors as the blocking one and always ends, but after success it prints 0 in place of
  the number.
\<close>

theorem async_execute_loses_count:
  assumes "impl_inv i" and "nul_free (auth_user auth)" and "pred_option nul_free (auth_password auth)"
    and "(program_step A (execute_callback A input) ^^ n) (async_main A i ep auth schema default_flags) p"
  shows "n \<le> 5 \<and>
         (p = Exited (without_count (blocking_execute A i ep auth schema input)) \<or>
          (\<exists>p'. program_step A (execute_callback A input) p p'))"
  using leads_steps [OF execute_leads [OF assms(1) _ refl] assms(4)]
    auth_info_copy_eq_self_iff assms(2,3) by blast


subsection \<open>A server that answers\<close>

definition sample_client :: "sample_result \<Rightarrow> sample_server implementation" where
  "sample_client r = new_implementation (sample_start [[r]]) fresh_heap"

lemma sample_client_inv: "impl_inv (sample_client r)"
  unfolding sample_client_def by (rule new_implementation_inv [OF fresh_heap_wf])

definition sample_auth :: auth_info where
  "sample_auth = auth_info_user_password ''amy'' ''secret''"

lemma sample_auth_nul_free:
  "nul_free (auth_user sample_auth)" "pred_option nul_free (auth_password sample_auth)"
  by (simp_all add: sample_auth_def auth_info_user_password_def nul_free_def)

lemma sample_single_query:
  "blocking_single_query sample_api (sample_client (Rows [] [])) Null_endpoint sample_auth ''test'' =
     Some (Printed (''Affected rows: 0, field count: 0, result set size: 0'' @ [newline]))"
  by code_simp

lemma sample_execute:
  "blocking_execute sample_api (sample_client (Done 3)) Null_endpoint sample_auth ''test'' ''q'' =
     Printed (affected_line 3)"
  by code_simp

lemma bounded_reaches:
  assumes "\<And>n p. (R ^^ n) a p \<Longrightarrow> n \<le> N \<and> (p = b \<or> (\<exists>q. R p q))"
  shows "\<exists>n. (R ^^ n) a b"
proof (rule ccontr)
  assume never: "\<not> ?thesis"
  have "\<exists>p. (R ^^ n) a p" for n
  proof (induction n)
    case (Suc n)
    then obtain p where p: "(R ^^ n) a p" by blast
    then obtain q where "R p q" using assms [OF p] never by blast
    then show ?case using p by auto
  qed auto
  then obtain p where "(R ^^ Suc N) a p" by blast
  from assms [OF this] show False by simp
qed

theorem async_single_query_equals_blocking_witness:
  "\<exists>n. (program_step sample_api (single_query_callback sample_api) ^^ n)
     (async_main sample_api (sample_client (Rows [] [])) Null_endpoint sample_auth ''test'' default_flags)
     (Exited (Printed (''Affected rows: 0, field count: 0, result set size: 0'' @ [newline])))"
  by (rule bounded_reaches)
     (rule async_single_query_equals_blocking [OF sample_client_inv sample_auth_nul_free
        sample_single_query, unfolded as_async.simps])

theorem async_execute_loses_count_witness:
  "\<exists>n. (program_step sample_api (execute_callback sample_api ''q'') ^^ n)
     (async_main sample_api (sample_client (Done 3)) Null_endpoint sample_auth ''test'' default_flags)
     (Exited (Printed (affected_line 0)))"
proof (rule bounded_reaches)
  fix n p
  assume "(program_step sample_api (execute_callback sample_api ''q'') ^^ n)
    (async_main sample_api (sample_client (Done 3)) Null_endpoint sample_auth ''test'' default_flags) p"
  from async_execute_loses_count [OF sample_client_inv sample_auth_nul_free this]
  show "n \<le> 5 \<and> (p = Exited (Printed (affected_line 0)) \<or>
      (\<exists>q. program_step sample_api (execute_callback sample_api ''q'') p q))"
    by (simp add: sample_execute without_count_def)
qed

end
