(* ===== verification/Example_Results.thy ===== *)
theory Example_Results
  imports Example_Programs
begin

text \<open>
  The programs of \<open>src/example\<close> that only connect, and those that run a statement with any number
  of results: the blocking one walks over the results with \<open>results_iterator\<close>, the asynchronous
  one starts the next \<open>async_store_result\<close> from the callback of the last.
\<close>

section \<open>Connecting\<close>

definition connected_line :: string where
  "connected_line = ''Connected.'' @ [newline]"

definition blocking_connect ::
  "('m, 'a) mysql_api_scheme \<Rightarrow> 'm implementation \<Rightarrow> endpoint \<Rightarrow> auth_info \<Rightarrow> string \<Rightarrow> exit"
where
  "blocking_connect A s ep auth schema =
     (case connector_connect (mysql_service_ops A) s ep auth schema default_flags of
        (s1, Inl e) \<Rightarrow> Reported [] (Amy_error e)
      | (s1, Inr _) \<Rightarrow> Printed connected_line)"

fun connect_callback ::
  "example_handler completion \<Rightarrow> ('m, example_handler) async_service \<Rightarrow> string \<Rightarrow>
     ('m, example_handler) program" where
  "connect_callback (Completion Handle_connect ec rs) s out =
     check_error ec out (Running s (out @ connected_line))"
| "connect_callback (Completion _ ec rs) s out = Exited Aborted"

lemma connect_leads:
  assumes "impl_inv i" and "auth_info_copy auth = auth"
  shows "leads A connect_callback (as_async (blocking_connect A i ep auth schema)) 3
           (async_main A i ep auth schema default_flags)"
proof -
  let ?x = "as_async (blocking_connect A i ep auth schema)"
  obtain i' ec where c: "ms_connect A i ep auth schema default_flags no_error = (i', ec)"
    by (cases "ms_connect A i ep auth schema default_flags no_error")
  have x: "?x = (if failed ec then Reported [] (Std_error ec) else Printed connected_line)"
    using c throwing_failed [of ec "mysql_service_ops A" i'] throwing_ok [of ec "mysql_service_ops A" i']
    by (cases "failed ec") (auto simp: blocking_connect_def connector_forms)
  have "leads A connect_callback ?x (Suc 0)
      (connect_callback (Completion Handle_connect ec None) (svc i' True [] []) [])" if "\<not> failed ec"
    using that leads_return [of "svc i' True [] []" A connect_callback connected_line 0]
    by (simp add: x check_error_def)
  then have "leads A connect_callback ?x (Suc (Suc (Suc 0)))
      (async_main A i ep auth schema default_flags)"
    using leads_connect [OF assms _ _ c, where react = connect_callback and x = ?x and n = "Suc 0"] x
    by (simp only: connect_callback.simps check_error_def) simp
  then show ?thesis by (simp add: eval_nat_numeral)
qed

section \<open>Several results\<close>

text \<open>The body of the lambda of the blocking program and of \<open>handle_store_result\<close>.\<close>

definition print_rows :: "('m, 'a) mysql_api_scheme \<Rightarrow> 'm \<Rightarrow> row list \<Rightarrow> string option" where
  "print_rows A m rows =
     map_option concat
       (those (map (\<lambda>rw. case print_row A m rw of
                           Inl _ \<Rightarrow> None | Inr l \<Rightarrow> Some (l @ [newline])) rows))"

definition print_whole_result ::
  "('m, 'a) mysql_api_scheme \<Rightarrow> 'm implementation \<Rightarrow> result_set \<Rightarrow> string option" where
  "print_whole_result A s rs =
     (case (print_summary A s rs, rs_rows rs) of
        (Some t, Inr rows) \<Rightarrow> map_option ((@) t) (print_rows A (mysql s) rows)
      | _ \<Rightarrow> None)"

text \<open>\<open>std::for_each\<close> from an iterator to the end.\<close>

partial_function (option) for_each_result ::
  "('m, 'a) mysql_api_scheme \<Rightarrow> 'm implementation \<Rightarrow> results_iterator \<Rightarrow> string \<Rightarrow> exit option" where
  "for_each_result A s it out =
     (if it_equal it results_end then Some (Printed out)
      else case print_whole_result A s (it_result it) of
             None \<Rightarrow> Some Aborted
           | Some t \<Rightarrow>
               (case it_increment (mysql_service_ops A) s it of
                  None \<Rightarrow> None
                | Some (s', r) \<Rightarrow>
                    (case r of
                       Inl e \<Rightarrow> Some (Reported (out @ t) (Amy_error e))
                     | Inr it' \<Rightarrow> for_each_result A s' it' (out @ t))))"

definition blocking_multi_query ::
  "('m, 'a) mysql_api_scheme \<Rightarrow> 'm implementation \<Rightarrow> endpoint \<Rightarrow> auth_info \<Rightarrow> string \<Rightarrow> string \<Rightarrow>
     exit option" where
  "blocking_multi_query A s ep auth schema input =
     (let S = mysql_service_ops A
      in case connector_connect S s ep auth schema (client_multi_statements A) of
           (s1, Inl e) \<Rightarrow> Some (Reported [] (Amy_error e))
         | (s1, Inr _) \<Rightarrow>
             (case connector_query S s1 input of
                (s2, Inl e) \<Rightarrow> Some (Reported [] (Amy_error e))
              | (s2, Inr _) \<Rightarrow>
                  (case results_begin S s2 of
                     None \<Rightarrow> None
                   | Some (s3, Inl e) \<Rightarrow> Some (Reported [] (Amy_error e))
                   | Some (s3, Inr first) \<Rightarrow> for_each_result A s3 first [])))"

fun multi_query_callback ::
  "('m, 'a) mysql_api_scheme \<Rightarrow> string \<Rightarrow> example_handler completion \<Rightarrow>
     ('m, example_handler) async_service \<Rightarrow> string \<Rightarrow> ('m, example_handler) program" where
  "multi_query_callback A input (Completion Handle_connect ec rs) s out =
     check_error ec out (Running (ms_async_query s input Handle_query) out)"
| "multi_query_callback A input (Completion Handle_query ec rs) s out =
     check_error ec out (Running (ms_async_store_result s Handle_store_result) out)"
| "multi_query_callback A input (Completion Handle_store_result ec rs) s out =
     check_error ec out
       (case rs of
          None \<Rightarrow> Exited Aborted
        | Some r \<Rightarrow>
            (case print_whole_result A (conn s) r of
               None \<Rightarrow> Exited Aborted
             | Some t \<Rightarrow>
                 Running
                   (if ms_has_more_results A s then ms_async_store_result s Handle_store_result else s)
                   (out @ t)))"
| "multi_query_callback A input (Completion Handle_execute ec rs) s out = Exited Aborted"

lemma has_more_svc [simp]: "ms_has_more_results A (svc i th wq q) = ms_has_more_results A i"
  using with_conn_has_more_results [of A i "svc i th wq q"] by simp

lemma store_result_keeps:
  fixes i :: "'m implementation"
  assumes "impl_inv i" and "ms_is_open i" and "ms_store_result A i ec = Some (i', rs, ec')"
  shows "impl_inv i' \<and> ms_is_open i'"
proof -
  have "ms_store_result A (svc i True [] ([] :: unit completion list)) ec =
      Some (svc i' True [] [], rs, ec')"
    using assms(3) by (simp add: store_result_svc)
  from quiet_store_result [OF this] have "ms_is_open i'"
    using assms(2) by (simp add: quiet_def stays_open_def flip: ms_is_open_def)
  then show ?thesis using keepsD(1) [OF keeps_store_result [OF assms(3)] assms(1)] by simp
qed

lemma it_increment_store:
  assumes "ms_has_more_results A s"
  shows "it_increment (mysql_service_ops A) s it =
           (case ms_store_result A s no_error of
              None \<Rightarrow> None
            | Some (s', rs, ec) \<Rightarrow>
                Some (s', case throw_error ec (c_mysql_error A (mysql s')) of
                            Inl e \<Rightarrow> Inl e | Inr _ \<Rightarrow> Inr (it\<lparr>it_result := rs\<rparr>)))"
  using assms
  by (auto simp: it_increment_def connector_store_result_def mysql_service_ops_def
      split: option.splits sum.splits)

lemma it_increment_end:
  "\<not> ms_has_more_results A s \<Longrightarrow>
   it_increment (mysql_service_ops A) s it = Some (s, Inr (it\<lparr>it_end := True\<rparr>))"
  by (simp add: it_increment_def mysql_service_ops_def)

lemma it_equal_end: "it_equal it results_end \<longleftrightarrow> it_end it"
  by (auto simp: it_equal_def results_end_def)

section \<open>The loop and the callbacks\<close>

text \<open>
  What the loop over the iterator relies on in a program that fetches its results with
  callbacks, over any service.  \<open>called ec rs s out x\<close>: when \<open>handle_store_result\<close> is called with
  \<open>ec\<close> and \<open>rs\<close> in the state \<open>s\<close>, after the output \<open>out\<close>, the program ends with \<open>x\<close>;
  \<open>started s out x\<close>: it does so after it has started \<open>async_store_result\<close>.  \<open>at_rest s i\<close>: no
  operation is pending in \<open>s\<close>, whose connection is \<open>i\<close>.
\<close>

locale result_loop =
  fixes A :: "('m, 'a) mysql_api_scheme"
    and at_rest :: "'s \<Rightarrow> 'm implementation \<Rightarrow> bool"
    and called :: "error_code \<Rightarrow> result_set \<Rightarrow> 's \<Rightarrow> string \<Rightarrow> exit \<Rightarrow> bool"
    and started :: "'s \<Rightarrow> string \<Rightarrow> exit \<Rightarrow> bool"
  assumes stops: "failed ec \<Longrightarrow> called ec rs s out (Reported out (Std_error ec))"
    and aborts: "\<not> failed ec \<Longrightarrow> at_rest s i \<Longrightarrow> print_whole_result A i rs = None \<Longrightarrow>
      called ec rs s out Aborted"
    and returns: "\<not> failed ec \<Longrightarrow> at_rest s i \<Longrightarrow> print_whole_result A i rs = Some t \<Longrightarrow>
      \<not> ms_has_more_results A i \<Longrightarrow> called ec rs s out (Printed (out @ t))"
    and continues: "\<not> failed ec \<Longrightarrow> at_rest s i \<Longrightarrow> print_whole_result A i rs = Some t \<Longrightarrow>
      ms_has_more_results A i \<Longrightarrow> started s (out @ t) x \<Longrightarrow> called ec rs s out x"
    and arrives: "at_rest s i \<Longrightarrow> ms_has_more_results A i \<Longrightarrow>
      ms_store_result A i no_error = Some (i', rs, ec) \<Longrightarrow>
      (\<And>s'. (\<not> failed ec \<Longrightarrow> at_rest s' i') \<Longrightarrow> called ec rs s' out x) \<Longrightarrow> started s out x"
begin

lemma increment_arrives:
  assumes "at_rest s i" and "ms_has_more_results A i"
    and "it_increment (mysql_service_ops A) i it = Some (i', r)"
    and "\<And>e. r = Inl e \<Longrightarrow> x = Reported out (Std_error (se_code e))"
    and "\<And>it' ec s'. r = Inr it' \<Longrightarrow> it_end it' = it_end it \<Longrightarrow> \<not> failed ec \<Longrightarrow> at_rest s' i' \<Longrightarrow>
           called ec (it_result it') s' out x"
  shows "started s out x"
proof -
  obtain rs ec where st: "ms_store_result A i no_error = Some (i', rs, ec)"
    and r: "r = (case throw_error ec (c_mysql_error A (mysql i')) of
                   Inl e \<Rightarrow> Inl e | Inr _ \<Rightarrow> Inr (it\<lparr>it_result := rs\<rparr>))"
    using assms(3) by (auto simp: it_increment_store [OF assms(2)] split: option.splits)
  show ?thesis
  proof (rule arrives [OF assms(1,2) st])
    fix s'
    assume rest: "\<not> failed ec \<Longrightarrow> at_rest s' i'"
    show "called ec rs s' out x"
    proof (cases "failed ec")
      case True
      then have "x = Reported out (Std_error ec)"
        using r assms(4) by (auto simp: throw_error_def system_error_of_def split: if_splits)
      then show ?thesis using stops [OF True] by simp
    next
      case False
      then have "r = Inr (it\<lparr>it_result := rs\<rparr>)" using r by (simp add: throw_error_def)
      then show ?thesis using assms(5) [of "it\<lparr>it_result := rs\<rparr>" ec s'] False rest by simp
    qed
  qed
qed

lemma loop_step:
  assumes IH: "\<And>s it out x. f s it out = Some x \<Longrightarrow>
      (it_end it \<longrightarrow> x = Printed out) \<and>
      (\<forall>s' ec. \<not> it_end it \<longrightarrow> \<not> failed ec \<longrightarrow> at_rest s' s \<longrightarrow> called ec (it_result it) s' out (as_async x))"
    and body: "(case print_whole_result A i (it_result it) of
             None \<Rightarrow> Some Aborted
           | Some t \<Rightarrow>
               (case it_increment (mysql_service_ops A) i it of
                  None \<Rightarrow> None
                | Some (s', Inl e) \<Rightarrow> Some (Reported (out @ t) (Amy_error e))
                | Some (s', Inr it') \<Rightarrow> f s' it' (out @ t))) = Some x"
    and it: "\<not> it_end it" and ec: "\<not> failed ec" and s: "at_rest s i"
  shows "called ec (it_result it) s out (as_async x)"
proof (cases "print_whole_result A i (it_result it)")
  case None
  then show ?thesis using body aborts [OF ec s] by simp
next
  case (Some t)
  then obtain i' r where inc: "it_increment (mysql_service_ops A) i it = Some (i', r)"
    and rest: "(case r of Inl e \<Rightarrow> Some (Reported (out @ t) (Amy_error e))
      | Inr it' \<Rightarrow> f i' it' (out @ t)) = Some x"
    using body by (auto split: option.splits sum.splits)
  show ?thesis
  proof (cases "ms_has_more_results A i")
    case True
    have "started s (out @ t) (as_async x)"
      by (rule increment_arrives [OF s True inc]) (use rest it IH in auto)
    then show ?thesis by (rule continues [OF ec s Some True])
  next
    case False
    then have "f i (it\<lparr>it_end := True\<rparr>) (out @ t) = Some x"
      using inc rest it_increment_end [OF False, of it] by auto
    then have "x = Printed (out @ t)" using IH by fastforce
    then show ?thesis using returns [OF ec s Some False] by simp
  qed
qed

text \<open>From a result set that is there to the end of the loop, and from the first result on.\<close>

lemma loop_called:
  assumes "for_each_result A i it out = Some x" and "\<not> it_end it" and "\<not> failed ec" and "at_rest s i"
  shows "called ec (it_result it) s out (as_async x)"
proof -
  let ?P = "\<lambda>i it out x. (it_end it \<longrightarrow> x = Printed out) \<and>
      (\<forall>s ec. \<not> it_end it \<longrightarrow> \<not> failed ec \<longrightarrow> at_rest s i \<longrightarrow> called ec (it_result it) s out (as_async x))"
  have "B = A \<longrightarrow> ?P i it out x" if "for_each_result B i it out = Some x" for B i it out x
  proof (rule for_each_result.raw_induct [OF _ that, where P = "\<lambda>B i it out x. B = A \<longrightarrow> ?P i it out x"],
      rule impI)
    fix f B i it out x
    assume IH: "\<And>B i it out x. f B i it out = Some x \<Longrightarrow> B = A \<longrightarrow> ?P i it out x"
      and body: "(if it_equal it results_end then Some (Printed out)
        else case print_whole_result B i (it_result it) of
               None \<Rightarrow> Some Aborted
             | Some t \<Rightarrow>
                 (case it_increment (mysql_service_ops B) i it of
                    None \<Rightarrow> None
                  | Some (s', Inl e) \<Rightarrow> Some (Reported (out @ t) (Amy_error e))
                  | Some (s', Inr it') \<Rightarrow> f B s' it' (out @ t))) = Some x"
      and B: "B = A"
    show "?P i it out x"
    proof (cases "it_end it")
      case True
      then show ?thesis using body by (simp add: it_equal_end)
    next
      case False
      have "called ec (it_result it) s out (as_async x)" if "\<not> failed ec" "at_rest s i" for s ec
        by (rule loop_step [of "f A", OF _ _ False that])
           (use IH body [unfolded B] False in \<open>simp_all add: it_equal_end\<close>)
      then show ?thesis using False by blast
    qed
  qed
  with assms show ?thesis by blast
qed

lemma begin_started:
  assumes "at_rest s i" and "ms_is_open i" and "ms_has_more_results A i"
    and "(case results_begin (mysql_service_ops A) i of
            None \<Rightarrow> None
          | Some (s3, Inl e) \<Rightarrow> Some (Reported [] (Amy_error e))
          | Some (s3, Inr first) \<Rightarrow> for_each_result A s3 first []) = Some x"
  shows "started s [] (as_async x)"
proof -
  let ?it = "\<lparr>it_connector = True, it_result = result_set_default, it_end = False\<rparr>"
  have "svc_is_open (mysql_service_ops A) i" using assms(2) by (simp add: mysql_service_ops_def)
  then have b: "results_begin (mysql_service_ops A) i = it_increment (mysql_service_ops A) i ?it"
    by (simp add: results_begin_def)
  then obtain s3 r where inc: "it_increment (mysql_service_ops A) i ?it = Some (s3, r)"
    and rest: "(case r of Inl e \<Rightarrow> Some (Reported [] (Amy_error e)) | Inr it \<Rightarrow> for_each_result A s3 it []) =
      Some x"
    using assms(4) by (auto split: option.splits sum.splits)
  show ?thesis
    by (rule increment_arrives [OF assms(1,3) inc]) (use rest loop_called in auto)
qed

end

text \<open>The program over \<open>mysql_service\<close> is such a program.\<close>

interpretation multi_query_loop: result_loop A
  "\<lambda>s i. s = svc i True [] [] \<and> impl_inv i \<and> ms_is_open i"
  "\<lambda>ec rs s out x. \<exists>n. leads A (multi_query_callback A input) x n
     (multi_query_callback A input (Completion Handle_store_result ec (Some rs)) s out)"
  "\<lambda>s out x. \<exists>n. leads A (multi_query_callback A input) x n
     (Running (ms_async_store_result s Handle_store_result) out)"
  for A :: "('m, 'a) mysql_api_scheme" and input
proof unfold_locales
  fix ec rs out t and s :: "('m, example_handler) async_service" and i :: "'m implementation"
  assume "\<not> failed ec" "s = svc i True [] [] \<and> impl_inv i \<and> ms_is_open i"
    "print_whole_result A i rs = Some t" "\<not> ms_has_more_results A i"
  then show "\<exists>n. leads A (multi_query_callback A input) (Printed (out @ t)) n
      (multi_query_callback A input (Completion Handle_store_result ec (Some rs)) s out)"
    using leads_return [of "svc i True [] []" A _ "out @ t" 0] by (auto simp: check_error_def)
next
  fix s :: "('m, example_handler) async_service" and i i' :: "'m implementation" and rs ec out x
  assume s: "s = svc i True [] [] \<and> impl_inv i \<and> ms_is_open i"
    and st: "ms_store_result A i no_error = Some (i', rs, ec)"
    and c: "\<And>s'. (\<not> failed ec \<Longrightarrow> s' = svc i' True [] [] \<and> impl_inv i' \<and> ms_is_open i') \<Longrightarrow>
      \<exists>n. leads A (multi_query_callback A input) x n
        (multi_query_callback A input (Completion Handle_store_result ec (Some rs)) s' out)"
  have i: "impl_inv i" "ms_is_open i" using s by simp_all
  from c [of "svc i' True [] []"] store_result_keeps [OF i st]
  obtain n where "leads A (multi_query_callback A input) x n
      (multi_query_callback A input (Completion Handle_store_result ec (Some rs)) (svc i' True [] []) out)"
    by blast
  from leads_store_result [OF i st this] s
  show "\<exists>n. leads A (multi_query_callback A input) x n
      (Running (ms_async_store_result s Handle_store_result) out)"
    by blast
qed (auto simp: check_error_def)

lemma multi_flags_enabled:
  assumes "client_multi_statements A \<noteq> 0"
  shows "multi_results_enabled A (client_multi_statements A)"
  using assms by (simp add: multi_results_enabled_iff)

text \<open>After the query the flag that says that the first result has been stored is clear.\<close>

lemma has_more_after_query:
  assumes "ms_is_open i" and "multi_results_enabled A (flags i)"
    and "ms_query A i stmt no_error = (i', ec)"
  shows "ms_has_more_results A i'"
  using assms
  by (auto simp: ms_query_def ms_has_more_results_def ms_is_open_def frame_simps Let_def
      split: prod.splits)

lemma connect_flags:
  assumes "ms_connect A i ep au db fl no_error = (i', ec)" and "\<not> failed ec"
  shows "flags i' = fl"
  using assms by (auto simp: ms_connect_def Let_def split: prod.splits if_splits)

lemma multi_query_leads:
  assumes "impl_inv i" and "auth_info_copy auth = auth" and "client_multi_statements A \<noteq> 0"
    and "blocking_multi_query A i ep auth schema input = Some x"
  shows "\<exists>n. leads A (multi_query_callback A input) (as_async x) n
           (async_main A i ep auth schema (client_multi_statements A))"
proof -
  let ?S = "mysql_service_ops A" and ?R = "multi_query_callback A input"
  obtain i1 ec1 where c: "ms_connect A i ep auth schema (client_multi_statements A) no_error = (i1, ec1)"
    by (cases "ms_connect A i ep auth schema (client_multi_statements A) no_error")
  obtain i2 ec2 where q: "ms_query A i1 input no_error = (i2, ec2)"
    by (cases "ms_query A i1 input no_error")
  have failing: "as_async x = Reported [] (Std_error ec1)" if "failed ec1"
    using assms(4) c throwing_failed [OF that, of ?S i1]
    by (auto simp: blocking_multi_query_def connector_forms Let_def)
  have "\<exists>n. leads A ?R (as_async x) n (?R (Completion Handle_connect ec1 None) (svc i1 True [] []) [])"
    if ok: "\<not> failed ec1"
  proof -
    have i1: "impl_inv i1" "ms_is_open i1" using connect_result [OF assms(1) c ok] by simp_all
    then have i2: "impl_inv i2" "ms_is_open i2" using query_result [OF i1 q] by simp_all
    have more: "ms_has_more_results A i2"
      using has_more_after_query [OF i1(2) _ q] connect_flags [OF c ok]
        multi_flags_enabled [OF assms(3)] by simp
    have "\<exists>n. leads A ?R (as_async x) n (?R (Completion Handle_query ec2 None) (svc i2 True [] []) [])"
    proof (cases "failed ec2")
      case True
      then have "as_async x = Reported [] (Std_error ec2)"
        using assms(4) c q throwing_ok [OF ok, of ?S i1] throwing_failed [OF True, of ?S i2]
        by (auto simp: blocking_multi_query_def connector_forms Let_def)
      then show ?thesis using True by (simp add: check_error_def)
    next
      case False
      then show ?thesis
        using assms(4) c q throwing_ok [OF ok, of ?S i1] throwing_ok [OF False, of ?S i2]
          multi_query_loop.begin_started [OF _ i2(2) more, of "svc i2 True [] []" x input] i2
        by (simp add: blocking_multi_query_def connector_forms check_error_def Let_def)
    qed
    then show ?thesis
      using leads_query [OF i1, of A ?R "as_async x" _ Handle_query input "[]"] q ok
      by (simp add: check_error_def) blast
  qed
  then obtain n where "\<not> failed ec1 \<longrightarrow>
      leads A ?R (as_async x) n (?R (Completion Handle_connect ec1 None) (svc i1 True [] []) [])"
    by blast
  then have "leads A ?R (as_async x) (Suc (Suc n)) (async_main A i ep auth schema (client_multi_statements A))"
    using leads_connect [OF assms(1,2) _ _ c, where react = ?R and x = "as_async x" and n = n] failing
    by (simp only: multi_query_callback.simps check_error_def) simp
  then show ?thesis by blast
qed

section \<open>Properties\<close>

text \<open>
  C11. The asynchronous program for statements with any number of results does what the blocking
  one does: whenever \<open>blocking_multi_query\<close> ends with \<open>x\<close>, there is a bound on the number of
  steps of \<open>async_multi_query\<close>, it never gets stuck, and it ends with \<open>x\<close>, the same output and
  the same error code, if any (thrown as an exception of another class), however its threads
  interleave.
\<close>

theorem async_multi_query_equals_blocking:
  assumes "impl_inv i" and "nul_free (auth_user auth)" and "pred_option nul_free (auth_password auth)"
    and "client_multi_statements A \<noteq> 0"
    and "blocking_multi_query A i ep auth schema input = Some x"
  shows "\<exists>N. \<forall>n p.
           (program_step A (multi_query_callback A input) ^^ n)
             (async_main A i ep auth schema (client_multi_statements A)) p \<longrightarrow>
           n \<le> N \<and> (p = Exited (as_async x) \<or> (\<exists>p'. program_step A (multi_query_callback A input) p p'))"
proof -
  have "auth_info_copy auth = auth" using assms(2,3) auth_info_copy_eq_self_iff by blast
  from multi_query_leads [OF assms(1) this assms(4,5)] obtain N where
    "leads A (multi_query_callback A input) (as_async x) N
       (async_main A i ep auth schema (client_multi_statements A))"
    by blast
  from leads_steps [OF this] show ?thesis by blast
qed

text \<open>A statement with one result.\<close>

lemma multi_query_one_result:
  assumes "ms_connect A i ep auth schema (client_multi_statements A) no_error = (i1, ec1)"
    and "\<not> failed ec1" and "ms_query A i1 input no_error = (i2, ec2)" and "\<not> failed ec2"
    and "ms_is_open i2" and "ms_has_more_results A i2"
    and "ms_store_result A i2 no_error = Some (i3, rs, ec3)" and "\<not> failed ec3"
    and "\<not> ms_has_more_results A i3" and "print_whole_result A i3 rs = Some t"
  shows "blocking_multi_query A i ep auth schema input = Some (Printed t)"
proof -
  let ?S = "mysql_service_ops A"
    and ?it = "\<lparr>it_connector = True, it_result = rs, it_end = False\<rparr>"
  have "connector_connect ?S i ep auth schema (client_multi_statements A) = (i1, Inr ())"
    "connector_query ?S i1 input = (i2, Inr ())"
    using assms(1-4) throwing_ok by (simp_all add: connector_forms)
  moreover have "svc_is_open ?S i2" using assms(5) by (simp add: mysql_service_ops_def)
  then have "results_begin ?S i2 = Some (i3, Inr ?it)"
    using assms(6-8) by (simp add: results_begin_def it_increment_store throw_error_def)
  moreover have "for_each_result A i3 ?it [] = Some (Printed t)"
    using assms(9,10) by (simp add: for_each_result.simps it_increment_end it_equal_end)
  ultimately show ?thesis by (simp add: blocking_multi_query_def)
qed

definition sample_queried :: "sample_server implementation" where
  "sample_queried =
     fst (ms_query sample_api
       (fst (ms_connect sample_api (sample_client (Rows [] [])) Null_endpoint sample_auth ''test''
          (client_multi_statements sample_api) no_error)) ''q'' no_error)"

definition sample_stored :: "sample_server implementation \<times> result_set \<times> error_code" where
  "sample_stored = the (ms_store_result sample_api sample_queried no_error)"

lemma sample_multi_query:
  "blocking_multi_query sample_api (sample_client (Rows [] [])) Null_endpoint sample_auth ''test'' ''q'' =
     Some (Printed (''Affected rows: 0, field count: 0, result set size: 0'' @ [newline]))"
proof -
  let ?c = "ms_connect sample_api (sample_client (Rows [] [])) Null_endpoint sample_auth ''test''
      (client_multi_statements sample_api) no_error"
  let ?q = "ms_query sample_api (fst ?c) ''q'' no_error"
  have ok: "\<not> failed (snd ?c)" "\<not> failed (snd ?q)" "ms_is_open sample_queried"
    "ms_has_more_results sample_api sample_queried" "\<not> failed (snd (snd sample_stored))"
    "\<not> ms_has_more_results sample_api (fst sample_stored)"
    "print_whole_result sample_api (fst sample_stored) (fst (snd sample_stored)) =
       Some (''Affected rows: 0, field count: 0, result set size: 0'' @ [newline])"
    by code_simp+
  have "\<not> Option.is_none (ms_store_result sample_api sample_queried no_error)" by code_simp
  then have st: "ms_store_result sample_api sample_queried no_error =
      Some (fst sample_stored, fst (snd sample_stored), snd (snd sample_stored))"
    by (auto simp: sample_stored_def Option.is_none_def)
  have q: "?q = (sample_queried, snd ?q)" by (simp add: sample_queried_def)
  show ?thesis
    by (rule multi_query_one_result [OF prod.collapse [symmetric] ok(1) q ok(2-4) st ok(5-7)])
qed

theorem async_multi_query_equals_blocking_witness:
  "\<exists>n. (program_step sample_api (multi_query_callback sample_api ''q'') ^^ n)
     (async_main sample_api (sample_client (Rows [] [])) Null_endpoint sample_auth ''test''
        (client_multi_statements sample_api))
     (Exited (Printed (''Affected rows: 0, field count: 0, result set size: 0'' @ [newline])))"
proof -
  have "client_multi_statements sample_api \<noteq> 0" by code_simp
  from async_multi_query_equals_blocking [OF sample_client_inv sample_auth_nul_free this
      sample_multi_query, unfolded as_async.simps]
  obtain N where "\<forall>n p. (program_step sample_api (multi_query_callback sample_api ''q'') ^^ n)
      (async_main sample_api (sample_client (Rows [] [])) Null_endpoint sample_auth ''test''
         (client_multi_statements sample_api)) p \<longrightarrow>
      n \<le> N \<and>
      (p = Exited (Printed (''Affected rows: 0, field count: 0, result set size: 0'' @ [newline])) \<or>
       (\<exists>p'. program_step sample_api (multi_query_callback sample_api ''q'') p p'))"
    ..
  then show ?thesis by (intro bounded_reaches [where N = N]) simp
qed

end
