(* ===== verification/Async_Connector.thy ===== *)
theory Async_Connector
  imports Mariadb_Properties Example_Programs
begin

text \<open>
  The asynchronous members of \<open>basic_connector.hpp\<close> and \<open>async_execute\<close> of \<open>execute.hpp\<close>, over any
  service, and what they rely on: an operation that was started owes its callback once, and a
  closed connection refuses it without calling back at once.
\<close>

section \<open>The asynchronous operations of a connector\<close>

text \<open>
  The asynchronous operations of a service; only \<open>mariadb_service\<close> has the last one, so that the
  member of the connector that forwards to it can be instantiated with that service only.
  \<open>None\<close> is a start that does not return.
\<close>

record ('s, 'k) async_ops =
  as_is_open :: "'s \<Rightarrow> bool"
  as_connect :: "'s \<Rightarrow> endpoint \<Rightarrow> auth_info \<Rightarrow> string \<Rightarrow> u64 \<Rightarrow> 'k \<Rightarrow> 's option"
  as_query :: "'s \<Rightarrow> string \<Rightarrow> 'k \<Rightarrow> 's option"
  as_store_result :: "'s \<Rightarrow> 'k \<Rightarrow> 's option"

record ('s, 'k) async_query_ops = "('s, 'k) async_ops" +
  as_query_result :: "'s \<Rightarrow> string \<Rightarrow> 'k \<Rightarrow> 's option"

definition connector_async_connect ::
  "('s, 'k, 'z) async_ops_scheme \<Rightarrow> 's \<Rightarrow> endpoint \<Rightarrow> auth_info \<Rightarrow> string \<Rightarrow> u64 \<Rightarrow> 'k \<Rightarrow> 's option"
where
  "connector_async_connect S s ep auth database fl k = as_connect S s ep auth database fl k"

definition connector_async_query ::
  "('s, 'k, 'z) async_ops_scheme \<Rightarrow> 's \<Rightarrow> string \<Rightarrow> 'k \<Rightarrow> 's option" where
  "connector_async_query S s stmt k = as_query S s stmt k"

definition connector_async_query_result ::
  "('s, 'k, 'z) async_query_ops_scheme \<Rightarrow> 's \<Rightarrow> string \<Rightarrow> 'k \<Rightarrow> 's option" where
  "connector_async_query_result S s stmt k = as_query_result S s stmt k"

definition connector_async_store_result ::
  "('s, 'k, 'z) async_ops_scheme \<Rightarrow> 's \<Rightarrow> 'k \<Rightarrow> 's option" where
  "connector_async_store_result S s k = as_store_result S s k"

text \<open>
  A handler is one of the user, or the \<open>execute_handler\<close> that \<open>async_execute\<close> makes of one.
\<close>

datatype 'k handler = User_handler 'k | Execute_handler 'k

definition connector_async_execute ::
  "('s, 'k handler, 'z) async_ops_scheme \<Rightarrow> 's \<Rightarrow> string \<Rightarrow> 'k \<Rightarrow> 's option" where
  "connector_async_execute S s stmt k = connector_async_query S s stmt (Execute_handler k)"

definition mysql_async_ops ::
  "('m, 'a) mysql_api_scheme \<Rightarrow> (('m, 'k) async_service, 'k) async_ops" where
  "mysql_async_ops A =
     \<lparr>as_is_open = ms_is_open,
      as_connect = (\<lambda>s ep auth database fl k. Some (ms_async_connect A s ep auth database fl k)),
      as_query = (\<lambda>s stmt k. Some (ms_async_query s stmt k)),
      as_store_result = (\<lambda>s k. Some (ms_async_store_result s k))\<rparr>"

definition mariadb_async_ops ::
  "('m, 'a) mariadb_api_scheme \<Rightarrow> (('m, 'k) mariadb_connection, 'k) async_query_ops" where
  "mariadb_async_ops A =
     \<lparr>as_is_open = mdb_is_open, as_connect = mdb_async_connect A, as_query = mdb_async_query A,
      as_store_result = mdb_async_store_result A, as_query_result = mdb_async_query_result A\<rparr>"

section \<open>Programs that start operations\<close>

datatype 'k request =
    Connect_request endpoint auth_info string u64 'k
  | Query_request string 'k
  | Store_request 'k
  | Execute_request string 'k

fun request_handler :: "'k request \<Rightarrow> 'k handler" where
  "request_handler (Connect_request ep auth database fl k) = User_handler k"
| "request_handler (Query_request stmt k) = User_handler k"
| "request_handler (Store_request k) = User_handler k"
| "request_handler (Execute_request stmt k) = Execute_handler k"

fun start_request ::
  "('s, 'k handler, 'z) async_ops_scheme \<Rightarrow> 's \<Rightarrow> 'k request \<Rightarrow> 's option" where
  "start_request S s (Connect_request ep auth database fl k) =
     connector_async_connect S s ep auth database fl (User_handler k)"
| "start_request S s (Query_request stmt k) = connector_async_query S s stmt (User_handler k)"
| "start_request S s (Store_request k) = connector_async_store_result S s (User_handler k)"
| "start_request S s (Execute_request stmt k) = connector_async_execute S s stmt k"

fun start_requests ::
  "('s, 'k handler, 'z) async_ops_scheme \<Rightarrow> 's \<Rightarrow> 'k request list \<Rightarrow> 's option" where
  "start_requests S s [] = Some s"
| "start_requests S s (r # rs) = Option.bind (start_request S s r) (\<lambda>s'. start_requests S s' rs)"

lemmas connector_async_defs =
  connector_async_connect_def connector_async_query_def connector_async_store_result_def
  connector_async_execute_def connector_async_query_result_def

text \<open>The completion with which a closed connection refuses a request.\<close>

fun refusal :: "'k request \<Rightarrow> 'k handler completion" where
  "refusal (Store_request k) =
     Completion (User_handler k) (misc_error_code Not_initialized) (Some empty_set)"
| "refusal r = Completion (request_handler r) (misc_error_code Not_initialized) None"

fun connects :: "'k request \<Rightarrow> bool" where
  "connects (Connect_request ep auth database fl k) \<longleftrightarrow> True"
| "connects r \<longleftrightarrow> False"

text \<open>Over \<open>mariadb_service\<close> there is one more.\<close>

datatype 'k mariadb_request = Common_request "'k request" | Query_result_request string 'k

fun start_mariadb_request ::
  "('s, 'k handler, 'z) async_query_ops_scheme \<Rightarrow> 's \<Rightarrow> 'k mariadb_request \<Rightarrow> 's option" where
  "start_mariadb_request S s (Common_request r) = start_request S s r"
| "start_mariadb_request S s (Query_result_request stmt k) =
     connector_async_query_result S s stmt (User_handler k)"

fun start_mariadb_requests ::
  "('s, 'k handler, 'z) async_query_ops_scheme \<Rightarrow> 's \<Rightarrow> 'k mariadb_request list \<Rightarrow> 's option" where
  "start_mariadb_requests S s [] = Some s"
| "start_mariadb_requests S s (r # rs) =
     Option.bind (start_mariadb_request S s r) (\<lambda>s'. start_mariadb_requests S s' rs)"

fun mariadb_refusal :: "'k mariadb_request \<Rightarrow> 'k handler completion" where
  "mariadb_refusal (Common_request r) = refusal r"
| "mariadb_refusal (Query_result_request stmt k) =
     Completion (User_handler k) (misc_error_code Not_initialized) (Some empty_set)"

fun mariadb_connects :: "'k mariadb_request \<Rightarrow> bool" where
  "mariadb_connects (Common_request r) \<longleftrightarrow> connects r"
| "mariadb_connects (Query_result_request stmt k) \<longleftrightarrow> False"

section \<open>The interface\<close>

text \<open>
  \<open>owed\<close> are the callbacks that were promised, \<open>good\<close> is the condition under which they are
  counted, and \<open>later\<close> leaves a completion for the \<open>io_service\<close> to deliver.
\<close>

locale callback_service =
  fixes S :: "('s, 'k handler, 'z) async_ops_scheme" and good :: "'s \<Rightarrow> bool"
    and owed :: "'s \<Rightarrow> 'k handler multiset" and later :: "'k handler completion \<Rightarrow> 's \<Rightarrow> 's"
  assumes connect_owes:
      "good s \<Longrightarrow> as_connect S s ep auth database fl k = Some s' \<Longrightarrow>
       good s' \<and> owed s' = add_mset k (owed s)"
    and query_owes:
      "good s \<Longrightarrow> as_query S s stmt k = Some s' \<Longrightarrow> good s' \<and> owed s' = add_mset k (owed s)"
    and store_result_owes:
      "good s \<Longrightarrow> as_store_result S s k = Some s' \<Longrightarrow> good s' \<and> owed s' = add_mset k (owed s)"
    and query_refused:
      "\<not> as_is_open S s \<Longrightarrow>
       as_query S s stmt k = Some (later (Completion k (misc_error_code Not_initialized) None) s)"
    and store_result_refused:
      "\<not> as_is_open S s \<Longrightarrow>
       as_store_result S s k =
         Some (later (Completion k (misc_error_code Not_initialized) (Some empty_set)) s)"
    and later_is_open: "as_is_open S (later c s) = as_is_open S s"
begin

lemma request_owes:
  assumes "good s" and "start_request S s r = Some s'"
  shows "good s' \<and> owed s' = add_mset (request_handler r) (owed s)"
  using assms
  by (cases r)
     (auto simp: connector_async_defs
       dest: connect_owes [OF assms(1)] query_owes [OF assms(1)] store_result_owes [OF assms(1)])

lemma requests_owe:
  assumes "good s" and "start_requests S s rs = Some s'"
  shows "good s' \<and> owed s' = owed s + mset (map request_handler rs)"
  using assms
proof (induction rs arbitrary: s)
  case (Cons r rs)
  then obtain t where t: "start_request S s r = Some t" "start_requests S t rs = Some s'"
    by (auto simp: bind_eq_Some_conv)
  show ?case using Cons.IH [of t] request_owes [OF Cons.prems(1) t(1)] t(2) by simp
qed simp

lemma request_refused:
  assumes "\<not> as_is_open S s" and "\<not> connects r"
  shows "start_request S s r = Some (later (refusal r) s)"
  using assms
  by (cases r) (simp_all add: connector_async_defs query_refused store_result_refused)

lemma requests_refused:
  assumes "\<not> as_is_open S s" and "\<forall>r \<in> set rs. \<not> connects r"
  shows "start_requests S s rs = Some (fold (\<lambda>r. later (refusal r)) rs s)"
  using assms
  by (induction rs arbitrary: s) (simp_all add: request_refused later_is_open)

end

text \<open>
  For \<open>mysql_service\<close> the callbacks owed are those of the queued handlers and completions, as long
  as the service runs.
\<close>

interpretation mysql_callbacks:
  callback_service "mysql_async_ops A :: (('m, 'k handler) async_service, 'k handler) async_ops"
    work_io_service pending post for A
proof unfold_locales
  fix s s' :: "('m, 'k handler) async_service" and ep auth database fl k
  assume "work_io_service s" "as_connect (mysql_async_ops A) s ep auth database fl k = Some s'"
  then show "work_io_service s' \<and> pending s' = add_mset k (pending s)"
    using pending_async_connect [of s A ep auth database fl k] by (auto simp: mysql_async_ops_def)
next
  fix s :: "('m, 'k handler) async_service" and c
  show "as_is_open (mysql_async_ops A) (post c s) = as_is_open (mysql_async_ops A) s"
    by (simp add: mysql_async_ops_def ms_is_open_def post_def)
qed (auto simp: mysql_async_ops_def ms_async_query_def ms_async_store_result_def)

text \<open>
  For \<open>mariadb_service\<close> a callback may already have been invoked when the function that starts the
  operation returns; counted are all of them, if the events the library waits for are supported.
\<close>

lemma async_start_counts:
  assumes "mdb_step A s (Some k) s'" and "mdb_inv s" and "waits_supported A"
  shows "mdb_inv s' \<and> settled s' = add_mset k (settled s)"
  using mdb_run_ok [OF mdb_run_issue [OF mdb_run_start assms(1)]] assms(2,3)
  by (simp add: step_ok_def counts_def)

lemma refused_starts:
  assumes "\<not> mdb_is_open s"
  shows "mdb_async_query A s stmt k =
      Some (post_callback (Completion k (misc_error_code Not_initialized) None) s)"
    and "mdb_async_store_result A s k =
      Some (post_callback (Completion k (misc_error_code Not_initialized) (Some empty_set)) s)"
  using assms by (simp_all add: mdb_async_query_def mdb_async_store_result_def)

interpretation mariadb_callbacks:
  callback_service
    "mariadb_async_ops A :: (('m, 'k handler) mariadb_connection, 'k handler) async_query_ops"
    "\<lambda>s. mdb_inv s \<and> waits_supported A" settled post_callback for A
proof unfold_locales
  fix s :: "('m, 'k handler) mariadb_connection" and c
  show "as_is_open (mariadb_async_ops A) (post_callback c s) = as_is_open (mariadb_async_ops A) s"
    by (simp add: mariadb_async_ops_def mdb_is_open_def post_callback_def)
qed (auto simp: mariadb_async_ops_def refused_starts
      dest: async_start_counts [OF mdb_step_async_connect]
        async_start_counts [OF mdb_step_async_query]
        async_start_counts [OF mdb_step_async_store_result])

section \<open>What both services do\<close>

lemma mysql_requests_start:
  "start_requests (mysql_async_ops A :: (('m, 'k handler) async_service, 'k handler) async_ops) s rs
     \<noteq> None"
proof (induction rs arbitrary: s)
  case (Cons r rs)
  obtain t where "start_request (mysql_async_ops A) s r = Some t"
    by (cases r) (simp_all add: connector_async_defs mysql_async_ops_def)
  then show ?case using Cons.IH [of t] by simp
qed simp

text \<open>
  Whatever a program starts through a connector, in whatever order, each request owes its callback
  once.
\<close>

theorem requests_owe_callbacks:
  fixes s :: "('m, 'k handler) async_service" and t t' :: "('n, 'k handler) mariadb_connection"
  assumes "work_io_service s" and "mdb_inv t" and "waits_supported B"
    and "start_requests (mariadb_async_ops B) t rs = Some t'"
  shows "(\<exists>s'. start_requests (mysql_async_ops A) s rs = Some s' \<and>
               pending s' = pending s + mset (map request_handler rs)) \<and>
         settled t' = settled t + mset (map request_handler rs)"
  using mysql_requests_start [of A s rs] mysql_callbacks.requests_owe [OF assms(1), of A rs]
    mariadb_callbacks.requests_owe [of t B rs t'] assms
  by auto

lemma post_refusals:
  "fold (\<lambda>r. post (refusal r)) rs s = s\<lparr>io_queue := io_queue s @ map refusal rs\<rparr>"
  by (induction rs arbitrary: s) (simp_all add: post_def)

lemma mariadb_request_refused:
  fixes t :: "('n, 'k handler) mariadb_connection"
  assumes "\<not> mdb_is_open t" and "\<not> mariadb_connects q"
  shows "start_mariadb_request (mariadb_async_ops B) t q = Some (post_callback (mariadb_refusal q) t)"
proof (cases q)
  case (Common_request r)
  then show ?thesis
    using mariadb_callbacks.request_refused [of B t r] assms by (simp add: mariadb_async_ops_def)
next
  case (Query_result_request stmt k)
  then show ?thesis
    using assms(1) by (simp add: connector_async_defs mariadb_async_ops_def mdb_async_query_result_def)
qed

lemma mariadb_requests_refused:
  fixes t :: "('n, 'k handler) mariadb_connection"
  assumes "\<not> mdb_is_open t" and "\<forall>q \<in> set qs. \<not> mariadb_connects q"
  shows "start_mariadb_requests (mariadb_async_ops B) t qs =
           Some (t\<lparr>posted := posted t @ map mariadb_refusal qs\<rparr>)"
  using assms
  by (induction qs arbitrary: t)
     (simp_all add: mariadb_request_refused post_callback_def mdb_is_open_def)

text \<open>
  C28. A connection that is not open refuses every asynchronous request but a connect (which would
  open it): queries, statements to execute, results to store and, over \<open>mariadb_service\<close>, queries with
  their result.  In both services each of them gets \<open>not_initialized\<close> (with an empty result set where
  its handler takes one), through the \<open>io_service\<close> and in the order of the requests; nothing else of
  the connection changes, and nothing reaches the library.
\<close>

theorem closed_requests_refused:
  fixes s :: "('m, 'k handler) async_service" and t :: "('n, 'k handler) mariadb_connection"
  assumes "\<not> ms_is_open s" and "\<forall>r \<in> set rs. \<not> connects r"
    and "\<not> mdb_is_open t" and "\<forall>q \<in> set qs. \<not> mariadb_connects q"
  shows "start_requests (mysql_async_ops A) s rs =
           Some (s\<lparr>io_queue := io_queue s @ map refusal rs\<rparr>) \<and>
         start_mariadb_requests (mariadb_async_ops B) t qs =
           Some (t\<lparr>posted := posted t @ map mariadb_refusal qs\<rparr>)"
  using mysql_callbacks.requests_refused [of A s rs] mariadb_requests_refused [OF assms(3,4)] assms(1,2)
  by (simp add: post_refusals mysql_async_ops_def)

definition sample_requests :: "nat request list" where
  "sample_requests = [Query_request ''q'' 1, Store_request 2, Execute_request ''x'' 3]"

definition sample_mariadb_requests :: "nat mariadb_request list" where
  "sample_mariadb_requests = map Common_request sample_requests @ [Query_result_request ''r'' 4]"

theorem closed_requests_refused_witness:
  "start_requests (mysql_async_ops sample_api)
     (new_service (sample_client (Done 0))) sample_requests =
     Some ((new_service (sample_client (Done 0)))\<lparr>io_queue := map refusal sample_requests\<rparr>) \<and>
   start_mariadb_requests (mariadb_async_ops sample_mariadb)
     (new_connection (sample_start []) fresh_heap) sample_mariadb_requests =
     Some ((new_connection (sample_start []) fresh_heap)
       \<lparr>posted := map mariadb_refusal sample_mariadb_requests\<rparr>)"
proof -
  have h: "\<not> ms_is_open (new_service (sample_client (Done 0)) :: (sample_server, nat handler) async_service)"
    "\<forall>r \<in> set sample_requests. \<not> connects r"
    "\<not> mdb_is_open (new_connection (sample_start []) fresh_heap
        :: (sample_server, nat handler) mariadb_connection)"
    "\<forall>q \<in> set sample_mariadb_requests. \<not> mariadb_connects q"
    by code_simp+
  have "io_queue (new_service (sample_client (Done 0)) :: (sample_server, nat handler) async_service) = []"
    "posted (new_connection (sample_start []) fresh_heap
        :: (sample_server, nat handler) mariadb_connection) = []"
    by code_simp+
  with closed_requests_refused [OF h, of sample_api sample_mariadb] show ?thesis by simp
qed

section \<open>Executing a statement\<close>

text \<open>What a completion calls: the error code, and a number of rows for \<open>execute_handler\<close>.\<close>

fun call_handler ::
  "'s service_ops \<Rightarrow> 's \<Rightarrow> 'k handler completion \<Rightarrow> 'k \<times> error_code \<times> u64 option" where
  "call_handler V s (Completion (User_handler k) ec rs) = (k, ec, None)"
| "call_handler V s (Completion (Execute_handler k) ec rs) =
     (case execute_handler V s ec of (ec', n) \<Rightarrow> (k, ec', Some n))"

text \<open>
  C35. \<open>async_execute\<close> over \<open>mariadb_service\<close> does the query as \<open>execute\<close> does and its handler is
  called once, with the error code of \<open>execute\<close>; but the handler of the user is then given 0 where
  \<open>execute\<close> returns the number of affected rows.
\<close>

theorem mariadb_execute_loses_count:
  assumes "impl_inv s" and "mdb_is_open s" and "waits s = []" and "ready s = []"
    and "query_agrees A n (mysql (free_result A s)) stmt"
    and "execute_ec (mariadb_service_ops A) s stmt no_error = (v, rows, ec)"
  shows "ends_as A (connector_async_execute (mariadb_async_ops A) s stmt k) s v
           (Completion (Execute_handler k) ec None) \<and>
         (\<not> failed ec \<longrightarrow>
            rows = mdb_affected_rows A v \<and>
            call_handler (mariadb_service_ops A) v (Completion (Execute_handler k) ec None) =
              (k, ec, Some 0))"
proof -
  have "mdb_query A s stmt no_error = (v, ec)" and
    "\<not> failed ec \<Longrightarrow> rows = mdb_affected_rows A v"
    using assms(6) by (auto simp: execute_ec_def mariadb_service_ops_def split: prod.splits)
  then show ?thesis
    using query_operation_ends [OF assms(1-5), of "Execute_handler k"]
    by (simp add: connector_async_defs mariadb_async_ops_def execute_handler_def)
qed

definition sample_executor :: "(sample_server, nat handler) mariadb_connection" where
  "sample_executor =
     fst (mdb_open sample_mariadb (new_connection (sample_start [[Done 3]]) fresh_heap) no_error)"

theorem mariadb_execute_loses_count_witness:
  "\<exists>v. execute_ec (mariadb_service_ops sample_mariadb) sample_executor ''q'' no_error =
         (v, 3, no_error) \<and>
       ends_as sample_mariadb
         (connector_async_execute (mariadb_async_ops sample_mariadb) sample_executor ''q'' 7)
         sample_executor v (Completion (Execute_handler 7) no_error None) \<and>
       call_handler (mariadb_service_ops sample_mariadb) v
         (Completion (Execute_handler (7 :: nat)) no_error None) = (7, no_error, Some 0)"
proof -
  let ?e = "execute_ec (mariadb_service_ops sample_mariadb) sample_executor ''q'' no_error"
  have "mdb_inv (new_connection (sample_start [[Done 3]]) fresh_heap
      :: (sample_server, nat handler) mariadb_connection)"
    by (rule new_connection_inv) (rule fresh_heap_wf)
  then have inv: "impl_inv sample_executor"
    unfolding sample_executor_def by (intro plain_inv [OF plain_open]) (simp add: mdb_inv_def)
  have h: "mdb_is_open sample_executor" "waits sample_executor = []" "ready sample_executor = []"
    "query_agrees sample_mariadb 3 (mysql (free_result sample_mariadb sample_executor)) ''q''"
    by code_simp+
  have "fst (snd ?e) = 3" "snd (snd ?e) = no_error" by code_simp+
  then have e: "?e = (fst ?e, 3, no_error)" by (metis prod.collapse)
  from mariadb_execute_loses_count [OF inv h e, of 7] e show ?thesis
    by (intro exI [of _ "fst ?e"]) simp
qed

end
