(* ===== verification/Mariadb_Examples.thy ===== *)
theory Mariadb_Examples
  imports Example_Results Mariadb_Properties
begin

text \<open>
  The two programs of \<open>src/example\<close> over \<open>mariadb_service\<close>, put together with the composed
  operations and the \<open>io_service\<close>, and compared with the blocking programs.

  A composed operation that does not have to wait invokes its callback from within the function
  that starts it.  Where the callbacks of these programs start an operation they do nothing
  afterwards, so that such a callback runs next; but until \<open>main\<close> has called \<open>io_service::run\<close>
  it runs outside of the block that catches its exceptions.
\<close>

section \<open>The programs\<close>

text \<open>
  What a callback comes to: it has returned, it has thrown the \<open>system_error\<close> of
  \<open>check_error\<close> after some output, or it has done something the model does not follow, as in \<open>Aborted\<close>.  It is
  \<open>None\<close> when an operation that it starts does not return.
\<close>

datatype 'm reaction =
    Continue "('m, example_handler) mariadb_connection" string
  | Thrown string error_code
  | Lost

definition mdb_check_error ::
  "error_code \<Rightarrow> string \<Rightarrow> 'm reaction option \<Rightarrow> 'm reaction option" where
  "mdb_check_error ec out r = (if failed ec then Some (Thrown out ec) else r)"

definition and_return ::
  "('m, example_handler) mariadb_connection option \<Rightarrow> string \<Rightarrow> 'm reaction option" where
  "and_return x out = map_option (\<lambda>s. Continue s out) x"

fun mdb_single_query_callback ::
  "('m, 'a) mariadb_api_scheme \<Rightarrow> example_handler completion \<Rightarrow>
     ('m, example_handler) mariadb_connection \<Rightarrow> string \<Rightarrow> 'm reaction option" where
  "mdb_single_query_callback A (Completion Handle_connect ec rs) s out =
     mdb_check_error ec out (and_return (mdb_async_query A s statement Handle_query) out)"
| "mdb_single_query_callback A (Completion Handle_query ec rs) s out =
     mdb_check_error ec out (and_return (mdb_async_store_result A s Handle_store_result) out)"
| "mdb_single_query_callback A (Completion Handle_store_result ec rs) s out =
     mdb_check_error ec out
       (case rs of
          None \<Rightarrow> Some Lost
        | Some r \<Rightarrow>
            (case print_result A (conn s) r of
               None \<Rightarrow> Some Lost
             | Some t \<Rightarrow> Some (Continue s (out @ t))))"
| "mdb_single_query_callback A (Completion Handle_execute ec rs) s out = Some Lost"

fun mdb_multi_query_callback ::
  "('m, 'a) mariadb_api_scheme \<Rightarrow> string \<Rightarrow> example_handler completion \<Rightarrow>
     ('m, example_handler) mariadb_connection \<Rightarrow> string \<Rightarrow> 'm reaction option" where
  "mdb_multi_query_callback A input (Completion Handle_connect ec rs) s out =
     mdb_check_error ec out (and_return (mdb_async_query A s input Handle_query) out)"
| "mdb_multi_query_callback A input (Completion Handle_query ec rs) s out =
     mdb_check_error ec out (and_return (mdb_async_store_result A s Handle_store_result) out)"
| "mdb_multi_query_callback A input (Completion Handle_store_result ec rs) s out =
     mdb_check_error ec out
       (case rs of
          None \<Rightarrow> Some Lost
        | Some r \<Rightarrow>
            (case print_whole_result A (conn s) r of
               None \<Rightarrow> Some Lost
             | Some t \<Rightarrow>
                 if mdb_has_more_results A s
                 then and_return (mdb_async_store_result A s Handle_store_result) (out @ t)
                 else Some (Continue s (out @ t))))"
| "mdb_multi_query_callback A input (Completion Handle_execute ec rs) s out = Some Lost"

text \<open>
  A program is still in the call of \<open>async_connect\<close> in \<open>main\<close>, it is in \<open>io_service::run\<close>, or it
  has ended.  The callbacks that an operation has invoked are taken off the connection as they
  run.
\<close>

datatype 'm mdb_program =
    Starting "('m, example_handler) mariadb_connection" string
  | Serving "('m, example_handler) mariadb_connection" string
  | Ended exit

definition mdb_main ::
  "('m, 'a) mariadb_api_scheme \<Rightarrow> ('m, example_handler) mariadb_connection \<Rightarrow> endpoint \<Rightarrow>
     auth_info \<Rightarrow> string \<Rightarrow> u64 \<Rightarrow> 'm mdb_program option" where
  "mdb_main A s ep auth schema fl =
     map_option (\<lambda>s'. Starting s' []) (mdb_async_connect A s ep auth schema fl Handle_connect)"

text \<open>An exception out of \<open>async_connect\<close> is not caught, one out of \<open>run\<close> is reported.\<close>

fun in_main :: "'m reaction \<Rightarrow> 'm mdb_program" where
  "in_main (Continue s out) = Starting s out"
| "in_main (Thrown out ec) = Ended Aborted"
| "in_main Lost = Ended Aborted"

fun in_run :: "'m reaction \<Rightarrow> 'm mdb_program" where
  "in_run (Continue s out) = Serving s out"
| "in_run (Thrown out ec) = Ended (Reported out (Std_error ec))"
| "in_run Lost = Ended Aborted"

inductive mdb_program_step ::
  "('m, 'a) mariadb_api_scheme \<Rightarrow>
     (example_handler completion \<Rightarrow> ('m, example_handler) mariadb_connection \<Rightarrow> string \<Rightarrow>
        'm reaction option) \<Rightarrow>
     'm mdb_program \<Rightarrow> 'm mdb_program \<Rightarrow> bool" for A react where
  mdb_main_callback:
    "invoked s = c # cs \<Longrightarrow> react c (s\<lparr>invoked := cs\<rparr>) out = Some r \<Longrightarrow>
     mdb_program_step A react (Starting s out) (in_main r)"
| mdb_main_run:
    "invoked s = [] \<Longrightarrow> mdb_program_step A react (Starting s out) (Serving s out)"
| mdb_run_callback:
    "invoked s = c # cs \<Longrightarrow> react c (s\<lparr>invoked := cs\<rparr>) out = Some r \<Longrightarrow>
     mdb_program_step A react (Serving s out) (in_run r)"
| mdb_run_event:
    "invoked s = [] \<Longrightarrow> waits s = xs @ w # ys \<Longrightarrow>
     mdb_program_step A react (Serving s out)
       (Serving (s\<lparr>waits := xs @ ys, ready := ready s @ [resume_with A no_error w]\<rparr>) out)"
| mdb_run_op:
    "invoked s = [] \<Longrightarrow> ready s = xs @ r # ys \<Longrightarrow>
     run_op A (s\<lparr>ready := xs @ ys\<rparr>) (rdy_op r) (rdy_code r) (rdy_status r) = Some s' \<Longrightarrow>
     mdb_program_step A react (Serving s out) (Serving s' out)"
| mdb_run_deliver:
    "invoked s = [] \<Longrightarrow> posted s = xs @ c # ys \<Longrightarrow>
     mdb_program_step A react (Serving s out)
       (Serving (invoke_callback c (s\<lparr>posted := xs @ ys\<rparr>)) out)"
| mdb_run_return:
    "invoked s = [] \<Longrightarrow> waits s = [] \<Longrightarrow> ready s = [] \<Longrightarrow> posted s = [] \<Longrightarrow>
     mdb_program_step A react (Serving s out) (Ended (Printed out))"

inductive_cases starting_stepE: "mdb_program_step A react (Starting s out) p"
inductive_cases serving_stepE: "mdb_program_step A react (Serving s out) p"
inductive_cases ended_stepE: "mdb_program_step A react (Ended x) p"

abbreviation mdb_leads ::
  "('m, 'a) mariadb_api_scheme \<Rightarrow>
     (example_handler completion \<Rightarrow> ('m, example_handler) mariadb_connection \<Rightarrow> string \<Rightarrow>
        'm reaction option) \<Rightarrow>
     exit \<Rightarrow> nat \<Rightarrow> 'm mdb_program \<Rightarrow> bool" where
  "mdb_leads A react x n p \<equiv> inevitably (mdb_program_step A react) (Ended x) n p"

lemma mdb_leads_steps:
  assumes "mdb_leads A react x n p" and "(mdb_program_step A react ^^ k) p q"
  shows "k \<le> n \<and> (q = Ended x \<or> (\<exists>q'. mdb_program_step A react q q'))"
  by (rule inevitably_steps [OF _ assms]) (auto elim: ended_stepE)

section \<open>One operation at a time\<close>

text \<open>Nothing is pending and no callback is left.\<close>

definition idle :: "('m, 'k, 'z) connection \<Rightarrow> bool" where
  "idle s \<longleftrightarrow> waits s = [] \<and> ready s = [] \<and> posted s = [] \<and> invoked s = []"

lemma idle_inv: "idle s \<Longrightarrow> impl_inv (conn s) \<Longrightarrow> mdb_inv s \<and> settled s = {#}"
  by (simp add: idle_def mdb_inv_def ops_def settled_def held_def impl_inv_conn)

text \<open>While one operation is under way there is at most one callback.\<close>

definition single :: "('m, 'k, 'z) connection \<Rightarrow> bool" where
  "single s \<longleftrightarrow> mdb_inv s \<and> size (settled s) \<le> 1"

lemma single_step:
  assumes "step_ok A s {#} s'" and "single s"
  shows "single s'"
  using assms size_mset_mono [of "settled s'" "settled s"]
  by (auto simp: single_def step_ok_def counts_def)

lemma single_started:
  assumes "step_ok A s {#k#} s'" and "idle s" and "impl_inv (conn s)"
  shows "single s'"
  using assms idle_inv [OF assms(2,3)] size_mset_mono [of "settled s'" "{#k#}"]
  by (auto simp: single_def step_ok_def counts_def)

lemma single_waiting:
  assumes "single s" and "waits s = [w]"
  shows "posted s = [] \<and> invoked s = []"
  using assms by (auto simp: single_def settled_def held_def ops_def)

lemma single_idle:
  assumes "single s" and "waits s = []" and "ready s = []" and "posted s = []" and "invoked s = [c]"
  shows "idle (s\<lparr>invoked := []\<rparr>)"
  using assms by (simp add: idle_def)

lemma leads_ready:
  assumes "waits s = []" and "ready s = [r]" and "posted s = []" and "invoked s = []"
    and "run_op A (s\<lparr>ready := []\<rparr>) (rdy_op r) (rdy_code r) (rdy_status r) = Some s'"
    and "mdb_leads A react x n (Serving s' out)"
  shows "mdb_leads A react x (Suc n) (Serving s out)"
proof (rule inevitably_step)
  show "mdb_program_step A react (Serving s out) (Serving s' out)"
    using mdb_run_op [of s "[]" r "[]" A s'] assms(2,4,5) by simp
  fix q
  assume "mdb_program_step A react (Serving s out) q"
  then show "mdb_leads A react x n q"
    using assms
    by (cases rule: serving_stepE) (auto simp: Cons_eq_append_conv append_eq_Cons_conv)
qed

lemma leads_wait:
  assumes "waits s = [w]" and "ready s = []" and "posted s = []" and "invoked s = []"
    and "mdb_leads A react x n (Serving (s\<lparr>waits := [], ready := [resume_with A no_error w]\<rparr>) out)"
  shows "mdb_leads A react x (Suc n) (Serving s out)"
proof (rule inevitably_step)
  show "mdb_program_step A react (Serving s out)
      (Serving (s\<lparr>waits := [], ready := [resume_with A no_error w]\<rparr>) out)"
    using mdb_run_event [of s "[]" w "[]" A react out] assms(1,2,4) by simp
  fix q
  assume "mdb_program_step A react (Serving s out) q"
  then show "mdb_leads A react x n q"
    using assms
    by (cases rule: serving_stepE) (auto simp: Cons_eq_append_conv append_eq_Cons_conv)
qed

text \<open>The event of the operation that waits, and the operation.\<close>

lemma event_taken:
  fixes s :: "('m, 'k, 'z) connection"
  assumes "ready s = []"
  shows "(s\<lparr>waits := [], ready := [r]\<rparr>)\<lparr>ready := []\<rparr> = s\<lparr>waits := []\<rparr>"
  using assms by (cases s) simp

lemma leads_event:
  assumes "single s" and "waits s = [(src, p)]" and "ready s = []"
    and "run_op A (s\<lparr>waits := []\<rparr>) p no_error (event_bit A src) = Some s'"
    and "mdb_leads A react x n (Serving s' out)"
  shows "mdb_leads A react x (Suc (Suc n)) (Serving s out)"
proof (rule leads_wait [OF assms(2,3)])
  let ?r = "resume_with A no_error (src, p)"
  show none: "posted s = []" "invoked s = []"
    using single_waiting [OF assms(1,2)] by simp_all
  show "mdb_leads A react x (Suc n) (Serving (s\<lparr>waits := [], ready := [?r]\<rparr>) out)"
    by (rule leads_ready [where r = ?r and s' = s'])
       (use none assms(4,5) in \<open>simp_all only: event_taken [OF assms(3)]\<close>,
        simp_all add: resume_with_def)
qed

lemma single_served:
  assumes "single s" and "waits s = [(src, p)]" and "ready s = []"
    and "run_op A (s\<lparr>waits := []\<rparr>) p no_error (event_bit A src) = Some s'"
  shows "single s'"
proof -
  let ?r = "resume_with A no_error (src, p)"
  let ?s1 = "s\<lparr>waits := [], ready := [?r]\<rparr>"
  have "step_ok A s {#} ?s1"
    using event_step [of s "[]" "(src, p)" "[]" A] assms(2,3) by simp
  moreover have "run_op A (?s1\<lparr>ready := [] @ []\<rparr>) (rdy_op ?r) (rdy_code ?r) (rdy_status ?r) = Some s'"
    unfolding append_Nil event_taken [OF assms(3)] using assms(4) by (simp add: resume_with_def)
  then have "step_ok A ?s1 {#} s'"
    by (rule run_step [rotated]) simp
  ultimately show ?thesis using assms(1) single_step by blast
qed

lemma serve_leads:
  assumes "serve A n t = Some u" and "single t" and "mdb_leads A react x k (Serving u out)"
  shows "\<exists>k'. mdb_leads A react x k' (Serving t out)"
  using assms(1,2)
proof (induction n arbitrary: t)
  case 0
  then show ?case using assms(3) by auto
next
  case (Suc n)
  show ?case
  proof (cases "\<exists>src p. waits t = [(src, p)] \<and> ready t = []")
    case True
    then obtain src p where w: "waits t = [(src, p)]" "ready t = []" by blast
    then obtain t' where t': "run_op A (t\<lparr>waits := []\<rparr>) p no_error (event_bit A src) = Some t'"
        "serve A n t' = Some u"
      using Suc.prems(1) by (auto simp: bind_eq_Some_conv)
    from Suc.IH [OF t'(2) single_served [OF Suc.prems(2) w t'(1)]]
    show ?thesis using leads_event [OF Suc.prems(2) w t'(1)] by blast
  next
    case False
    then have "u = t" using Suc.prems(1) by (auto split: list.splits)
    then show ?thesis using assms(3) by blast
  qed
qed

text \<open>A callback is called in \<open>run\<close>, and the program goes on to end with \<open>x\<close>.\<close>

definition reacts ::
  "('m, 'a) mariadb_api_scheme \<Rightarrow>
     (example_handler completion \<Rightarrow> ('m, example_handler) mariadb_connection \<Rightarrow> string \<Rightarrow>
        'm reaction option) \<Rightarrow> exit \<Rightarrow> 'm reaction option \<Rightarrow> bool" where
  "reacts A react x o_r \<longleftrightarrow> (\<exists>r n. o_r = Some r \<and> mdb_leads A react x n (in_run r))"

lemma leads_called:
  assumes "invoked u = [c]" and "reacts A react x (react c (u\<lparr>invoked := []\<rparr>) out)"
  shows "\<exists>n. mdb_leads A react x n (Serving u out)"
proof -
  obtain r n where r: "react c (u\<lparr>invoked := []\<rparr>) out = Some r" "mdb_leads A react x n (in_run r)"
    using assms(2) by (auto simp: reacts_def)
  have "mdb_leads A react x (Suc n) (Serving u out)"
  proof (rule inevitably_step)
    show "mdb_program_step A react (Serving u out) (in_run r)"
      using mdb_run_callback [of u c "[]" react out r A] assms(1) r(1) by simp
    fix q
    assume "mdb_program_step A react (Serving u out) q"
    then show "mdb_leads A react x n q"
      using assms(1) r by (cases rule: serving_stepE) auto
  qed
  then show ?thesis by blast
qed

lemma leads_main_return:
  assumes "idle s"
  shows "mdb_leads A react (Printed out) (Suc n) (Serving s out)"
proof (rule inevitably_step)
  show "mdb_program_step A react (Serving s out) (Ended (Printed out))"
    using assms by (intro mdb_run_return) (simp_all add: idle_def)
  fix q
  assume "mdb_program_step A react (Serving s out) q"
  then show "mdb_leads A react (Printed out) n q"
    using assms by (cases rule: serving_stepE) (auto simp: idle_def)
qed

lemma leads_main_run:
  assumes "invoked s = []" and "mdb_leads A react x n (Serving s out)"
  shows "mdb_leads A react x (Suc n) (Starting s out)"
proof (rule inevitably_step)
  show "mdb_program_step A react (Starting s out) (Serving s out)"
    using assms(1) by (rule mdb_main_run)
  fix q
  assume "mdb_program_step A react (Starting s out) q"
  then show "mdb_leads A react x n q"
    using assms by (cases rule: starting_stepE) auto
qed

text \<open>An operation that ends as the blocking one, and its callback.\<close>

lemma ends_leads:
  assumes "idle s" and "impl_inv (conn s)" and "step_ok A s {#k#} t"
    and "ends_as A (Some t) s v c"
    and "\<And>s'. (\<not> failed (comp_code c) \<Longrightarrow> idle s' \<and> conn s' = conn v) \<Longrightarrow>
           reacts A react x (react c s' out)"
  shows "\<exists>n. mdb_leads A react x n (Serving t out)"
proof -
  obtain u where "comes_to A (Some t) u" and u: "waits u = []" "ready u = []" "posted u = []"
      "invoked u = [c]" "conn u = conn v \<or> failed (comp_code c)"
    using assms(1,4) by (auto simp: ends_as_def idle_def)
  then obtain n where n: "serve A n t = Some u" by (auto simp: comes_to_def)
  have "reacts A react x (react c (u\<lparr>invoked := []\<rparr>) out)"
    by (rule assms(5)) (use u in \<open>auto simp: idle_def\<close>)
  from leads_called [OF u(4) this] serve_leads [OF n single_started [OF assms(3,1,2)]]
  show ?thesis by blast
qed

section \<open>The blocking operations on the connection of a larger state\<close>

lemma with_conn_query:
  "ms_query A (with_conn i s) stmt ec =
     (case ms_query A i stmt ec of (i', e) \<Rightarrow> (with_conn i' s, e))"
  by (simp add: ms_query_def ms_is_open_def Let_def split: prod.splits)

lemma with_conn_open:
  "ms_open A (with_conn i s) ec = (case ms_open A i ec of (i', e) \<Rightarrow> (with_conn i' s, e))"
  by (simp add: ms_open_def ms_is_open_def Let_def split: prod.splits)

lemma with_conn_connect:
  "ms_connect A (with_conn i s) ep au db fl ec =
     (case ms_connect A i ep au db fl ec of (i', e) \<Rightarrow> (with_conn i' s, e))"
  by (simp add: ms_connect_def with_conn_open ms_is_open_def Let_def case_prod_unfold)

lemma with_conn_store_result:
  "ms_store_result A (with_conn i s) ec =
     map_option (\<lambda>(i', rs, e). (with_conn i' s, rs, e)) (ms_store_result A i ec)"
  by (auto simp: ms_store_result_def with_conn_next_result with_conn_take_result Let_def
      split: prod.splits)

lemma mdb_calls_conn:
  "mdb_query A s stmt ec = (case ms_query A (conn s) stmt ec of (i, e) \<Rightarrow> (with_conn i s, e))"
  "mdb_connect A s ep au db fl ec =
     (case ms_connect A (conn s) ep au db fl ec of (i, e) \<Rightarrow> (with_conn i s, e))"
  "mdb_store_result A s ec =
     map_option (\<lambda>(i, rs, e). (with_conn i s, rs, e)) (ms_store_result A (conn s) ec)"
  "mdb_has_more_results A s = ms_has_more_results A (conn s)"
  "mdb_is_open s = ms_is_open (conn s)"
  using with_conn_query [of A "conn s" s stmt ec] with_conn_connect [of A "conn s" s ep au db fl ec]
    with_conn_store_result [of A "conn s" s ec] with_conn_has_more_results [of A "conn s" s]
  by (simp_all add: mdb_same ms_is_open_def)

section \<open>Operations of the programs\<close>

lemma ends_as_Some: "ends_as A x s v c \<Longrightarrow> \<exists>t. x = Some t"
  by (cases x) (auto simp: ends_as_def comes_to_def)

lemma reacts_return:
  assumes "\<exists>n. mdb_leads A react x n (Serving t out)"
  shows "reacts A react x (and_return (Some t) out)"
  using assms by (simp add: reacts_def and_return_def)

lemma reacts_stops: "failed ec \<Longrightarrow> reacts A react (Reported out (Std_error ec)) (mdb_check_error ec out r)"
  by (simp add: reacts_def mdb_check_error_def)

lemma reacts_query:
  assumes "idle s" and "conn s = i" and "impl_inv i" and "ms_is_open i"
    and "query_agrees A n (mysql (free_result A i)) stmt"
    and "ms_query A i stmt no_error = (i', ec)"
    and "\<And>s'. (\<not> failed ec \<Longrightarrow> idle s' \<and> conn s' = i') \<Longrightarrow>
           reacts A react x (react (Completion k ec None) s' out)"
  shows "reacts A react x (and_return (mdb_async_query A s stmt k) out)"
proof -
  have s: "impl_inv s" "mdb_is_open s" "waits s = []" "ready s = []"
    using assms(1-4) impl_inv_conn [of s] by (auto simp: idle_def mdb_calls_conn)
  have "mysql (free_result A s) = mysql (free_result A i)"
    using assms(2) conn_select(1) [of "free_result A s"] by simp
  then have e: "ends_as A (mdb_async_query A s stmt k) s (with_conn i' s) (Completion k ec None)"
    using query_operation_ends [OF s, of A n stmt k] assms(2,5,6) by (simp add: mdb_calls_conn)
  then obtain t where t: "mdb_async_query A s stmt k = Some t" using ends_as_Some by blast
  have "\<exists>n. mdb_leads A react x n (Serving t out)"
    by (rule ends_leads [OF assms(1) _ fresh_ops_step(1) [OF t] e [unfolded t]])
       (use assms(2,3,7) in auto)
  then show ?thesis unfolding t by (rule reacts_return)
qed

lemma reacts_store_result:
  assumes "idle s" and "conn s = i" and "impl_inv i" and "ms_is_open i"
    and "store_contract A n l s" and "ms_store_result A i no_error = Some (i', rs, ec)"
    and "\<And>s'. (\<not> failed ec \<Longrightarrow> idle s' \<and> conn s' = i') \<Longrightarrow>
           reacts A react x (react (Completion k ec (Some rs)) s' out)"
  shows "reacts A react x (and_return (mdb_async_store_result A s k) out)"
proof -
  have s: "impl_inv s" "mdb_is_open s" "waits s = []" "ready s = []"
    using assms(1-4) impl_inv_conn [of s] by (auto simp: idle_def mdb_calls_conn)
  have e: "ends_as A (mdb_async_store_result A s k) s (with_conn i' s) (Completion k ec (Some rs))"
    by (rule store_operation_ends [OF s assms(5)]) (use assms(2,6) in \<open>simp add: mdb_calls_conn\<close>)
  then obtain t where t: "mdb_async_store_result A s k = Some t" using ends_as_Some by blast
  have "\<exists>n. mdb_leads A react x n (Serving t out)"
    by (rule ends_leads [OF assms(1) _ fresh_ops_step(2) [OF t] e [unfolded t]])
       (use assms(2,3,7) in auto)
  then show ?thesis unfolding t by (rule reacts_return)
qed

section \<open>From \<open>main\<close> to the first callback\<close>

text \<open>What \<open>async_connect\<close> does to the connection before it connects, when that succeeds.\<close>

definition mdb_prepare ::
  "('m, 'a) mariadb_api_scheme \<Rightarrow> ('m, 'k, 'z) connection \<Rightarrow> ('m, 'k, 'z) connection option" where
  "mdb_prepare A s =
     (let (s1, ec) = (if \<not> mdb_is_open s then mdb_open A s no_error else (s, no_error))
      in if failed ec then None
         else let (s2, ec2) = mdb_set_option A s1 (nonblock_default A) no_error
              in if failed ec2 then None else Some s2)"

text \<open>The connect cannot be completed before something arrives from the server.\<close>

definition connect_waits ::
  "('m, 'a) mariadb_api_scheme \<Rightarrow> 'm \<Rightarrow> endpoint \<Rightarrow> auth_info \<Rightarrow> string \<Rightarrow> u64 \<Rightarrow> bool" where
  "connect_waits A m ep auth schema fl \<longleftrightarrow> snd (snd (connect_start A m ep auth schema fl)) \<noteq> 0"

lemma plain_idle: "plain_call s s' \<Longrightarrow> idle s \<Longrightarrow> idle s'"
  by (simp add: plain_call_def same_io_def idle_def)

lemma open_opens:
  assumes "\<not> mdb_is_open s" and "\<not> failed (snd (mdb_open A s no_error))"
  shows "mdb_is_open (fst (mdb_open A s no_error))"
  using ms_connect_opens(2) [of A "conn s"] assms with_conn_open [of A "conn s" s no_error]
  by (simp add: mdb_same ms_is_open_def split: prod.splits)

lemma prepared:
  assumes "mdb_prepare A s = Some s2" and "idle s" and "impl_inv s"
  obtains s1 e where "idle s1" and "impl_inv s1" and "mdb_is_open s1"
    and "mdb_set_option A s1 (nonblock_default A) no_error = (s2, e)" and "\<not> failed e"
    and "mdb_async_connect A s ep auth schema fl k = mdb_async_connect A s1 ep auth schema fl k"
proof -
  define p where "p = (if \<not> mdb_is_open s then mdb_open A s no_error else (s, no_error))"
  have p: "\<not> failed (snd p)" "plain_call s (fst p)" "mdb_is_open (fst p)"
    using assms(1) open_opens [of s A] plain_open [of s A no_error]
    by (auto simp: p_def mdb_prepare_def Let_def split: prod.splits if_splits)
  obtain e where "mdb_set_option A (fst p) (nonblock_default A) no_error = (s2, e)" "\<not> failed e"
    using assms(1) p(1)
    by (auto simp: mdb_prepare_def p_def [symmetric] Let_def split: prod.splits if_splits)
  moreover have "mdb_async_connect A s ep auth schema fl k =
      mdb_async_connect A (fst p) ep auth schema fl k"
    using p(1,3) by (simp add: mdb_async_connect_def [of A s] p_def [symmetric] split_beta)
      (simp add: mdb_async_connect_def split_beta)
  ultimately show thesis
    using that plain_idle [OF p(2) assms(2)] plain_inv [OF p(2) assms(3)] p(3) by blast
qed

lemma connect_waiting:
  assumes "impl_inv s" and "idle s" and "mdb_is_open s"
    and "mdb_set_option A s (nonblock_default A) no_error = (s1, ec1)" and "\<not> failed ec1"
    and "connect_agrees A n (mysql s1) ep (auth_info_copy auth) schema fl"
    and "connect_waits A (mysql s1) ep (auth_info_copy auth) schema fl"
    and "mdb_async_connect A s ep auth schema fl k = Some t"
  shows "\<exists>w. waits t = [w]"
proof -
  have io: "waits s = []" "ready s = []" using assms(2) by (simp_all add: idle_def)
  let ?b = "s1\<lparr>flags := fl\<rparr>" and ?p = "fresh_connect_op s1 k ep (auth_info_copy auth) schema fl"
  note starts = connect_operation_starts [OF assms(1,3) io assms(4,5)]
  obtain m r st where c: "connect_start A (mysql s1) ep (auth_info_copy auth) schema fl = (m, r, st)"
    by (metis prod_cases3)
  have st: "st \<noteq> 0" "r = False" "may_wait A m st"
    using assms(6,7) c by (cases n; auto simp: connect_waits_def connect_agrees_def split: if_splits)+
  obtain q where "connect_ret A ?p ?b (m, r, st) = Some (async_wait_mysql A st q (?b\<lparr>mysql := m\<rparr>))"
    using connect_call.registers [OF starts(2,3) st(3,1)] st(2) by blast
  then have "t = async_wait_mysql A st q (?b\<lparr>mysql := m\<rparr>)"
    using starts(1) [where k = k and ep = ep and auth = auth and database = schema and fl = fl]
      assms(8) c by simp
  from await_idle [OF starts(3) st(3) this] show ?thesis by blast
qed

lemma main_leads:
  assumes "idle s" and "impl_inv s" and "mdb_prepare A s = Some s2"
    and "connect_agrees A n (mysql s2) ep (auth_info_copy auth) schema fl"
    and "connect_waits A (mysql s2) ep (auth_info_copy auth) schema fl"
    and "ms_connect A (conn s2) ep (auth_info_copy auth) schema fl no_error = (i', ec)"
    and "\<And>s'. (\<not> failed ec \<Longrightarrow> idle s' \<and> conn s' = i') \<Longrightarrow>
           reacts A react x (react (Completion Handle_connect ec None) s' [])"
  shows "\<exists>p n. mdb_main A s ep auth schema fl = Some p \<and> mdb_leads A react x n p"
proof -
  obtain s1 e where s1: "idle s1" "impl_inv s1" "mdb_is_open s1"
      "mdb_set_option A s1 (nonblock_default A) no_error = (s2, e)" "\<not> failed e"
      "mdb_async_connect A s ep auth schema fl Handle_connect =
       mdb_async_connect A s1 ep auth schema fl Handle_connect"
    by (rule prepared [OF assms(3,1,2)])
  have io: "waits s1 = []" "ready s1 = []" using s1(1) by (simp_all add: idle_def)
  have e: "ends_as A (mdb_async_connect A s1 ep auth schema fl Handle_connect) s1 (with_conn i' s2)
      (Completion Handle_connect ec None)"
    using connect_operation_ends [OF s1(2,3) io s1(4,5) assms(4), of Handle_connect] assms(6)
    by (simp add: mdb_calls_conn)
  then obtain t where t: "mdb_async_connect A s1 ep auth schema fl Handle_connect = Some t"
    using ends_as_Some by blast
  have c: "impl_inv (conn s1)" using s1(2) impl_inv_conn by blast
  obtain k where k: "mdb_leads A react x k (Serving t [])"
    using ends_leads [OF s1(1) c async_connect_step [OF t] e [unfolded t], of react x "[]"]
      assms(7) by auto
  obtain w where "waits t = [w]"
    using connect_waiting [OF s1(2,1,3-5) assms(4,5) t] by blast
  then have "invoked t = []"
    using single_waiting [OF single_started [OF async_connect_step [OF t] s1(1) c]] by blast
  from leads_main_run [OF this k] show ?thesis
    by (auto simp: mdb_main_def s1(6) t)
qed

section \<open>The program for one query\<close>

lemma query_leaves:
  assumes "ms_is_open i" and "ms_query A i stmt ec = (i', ec')"
  shows "last_result i' = Empty_ptr \<and> \<not> first_result_stored i'"
  using assms by (auto simp: ms_query_def frame_simps Let_def split: prod.splits)

lemma fresh_store_contract:
  assumes "conn s = i" and "last_result i = Empty_ptr" and "\<not> first_result_stored i"
    and "store_agrees A n (mysql i)"
  shows "store_contract A n n s"
  using assms by (auto simp: store_contract_def)

text \<open>Where the non-blocking calls have to agree with the blocking ones for this program.\<close>

definition single_query_contract ::
  "('m, 'a) mariadb_api_scheme \<Rightarrow> nat \<Rightarrow> 'm implementation \<Rightarrow> endpoint \<Rightarrow> auth_info \<Rightarrow> string \<Rightarrow>
     bool" where
  "single_query_contract A n i ep auth schema \<longleftrightarrow>
     (let i1 = fst (ms_connect A i ep auth schema default_flags no_error);
          i2 = fst (ms_query A i1 statement no_error)
      in connect_agrees A n (mysql i) ep auth schema default_flags \<and>
         query_agrees A n (mysql (free_result A i1)) statement \<and> store_agrees A n (mysql i2))"

lemma single_query_result_reacts:
  assumes "\<not> failed ec \<Longrightarrow> idle s \<and> conn s = i"
    and "x = (if failed ec then Reported [] (Std_error ec)
              else case print_result A i rs of None \<Rightarrow> Aborted | Some t \<Rightarrow> Printed t)"
  shows "reacts A (mdb_single_query_callback A) x
           (mdb_single_query_callback A (Completion Handle_store_result ec (Some rs)) s [])"
proof (cases "failed ec")
  case True
  then show ?thesis using assms(2) reacts_stops by simp
next
  case False
  then show ?thesis
    using assms leads_main_return [of s A "mdb_single_query_callback A" _ 0]
    by (cases "print_result A i rs") (auto simp: reacts_def mdb_check_error_def)
qed

lemma single_query_store_reacts:
  assumes "idle s" and "conn s = i" and "impl_inv i" and "ms_is_open i"
    and "store_contract A n l s"
    and "(case connector_store_result (mysql_service_ops A) i of
            None \<Rightarrow> None
          | Some (s3, Inl e) \<Rightarrow> Some (Reported [] (Amy_error e))
          | Some (s3, Inr rs) \<Rightarrow>
              (case print_result A s3 rs of None \<Rightarrow> Some Aborted | Some t \<Rightarrow> Some (Printed t))) =
         Some x"
  shows "reacts A (mdb_single_query_callback A) (as_async x)
           (and_return (mdb_async_store_result A s Handle_store_result) [])"
proof -
  obtain i' rs ec where r: "ms_store_result A i no_error = Some (i', rs, ec)"
    using assms(6) by (auto simp: connector_store_result_def mysql_service_ops_def split: option.splits)
  have "as_async x = (if failed ec then Reported [] (Std_error ec)
      else case print_result A i' rs of None \<Rightarrow> Aborted | Some t \<Rightarrow> Printed t)"
    using assms(6) r
    by (auto simp: connector_store_result_def mysql_service_ops_def throw_error_def
        system_error_of_def split: if_splits option.splits)
  then show ?thesis
    by (intro reacts_store_result [OF assms(1-5) r] single_query_result_reacts) auto
qed

lemma single_query_query_reacts:
  fixes A :: "('m, 'a) mariadb_api_scheme"
  assumes "idle s" and "conn s = i" and "impl_inv i" and "ms_is_open i"
    and "query_agrees A n (mysql (free_result A i)) statement"
    and "store_agrees A n (mysql (fst (ms_query A i statement no_error)))"
    and "(case connector_query (mysql_service_ops A) i statement of
            (s2, Inl e) \<Rightarrow> Some (Reported [] (Amy_error e))
          | (s2, Inr _) \<Rightarrow>
              (case connector_store_result (mysql_service_ops A) s2 of
                 None \<Rightarrow> None
               | Some (s3, Inl e) \<Rightarrow> Some (Reported [] (Amy_error e))
               | Some (s3, Inr rs) \<Rightarrow>
                   (case print_result A s3 rs of
                      None \<Rightarrow> Some Aborted
                    | Some t \<Rightarrow> Some (Printed t)))) = Some x"
  shows "reacts A (mdb_single_query_callback A) (as_async x)
           (and_return (mdb_async_query A s statement Handle_query) [])"
proof -
  obtain i' ec where q: "ms_query A i statement no_error = (i', ec)"
    by (cases "ms_query A i statement no_error")
  show ?thesis
  proof (rule reacts_query [OF assms(1-5) q])
    fix s' :: "('m, example_handler) mariadb_connection"
    assume s': "\<not> failed ec \<Longrightarrow> idle s' \<and> conn s' = i'"
    show "reacts A (mdb_single_query_callback A) (as_async x)
        (mdb_single_query_callback A (Completion Handle_query ec None) s' [])"
    proof (cases "failed ec")
      case True
      then have "as_async x = Reported [] (Std_error ec)"
        using assms(7) q throwing_failed [OF True, of "mysql_service_ops A" i']
        by (auto simp: connector_forms)
      then show ?thesis using True reacts_stops by simp
    next
      case False
      have "store_contract A n n s'"
        using fresh_store_contract [of s' i' A n] s' [OF False] query_leaves [OF assms(4) q]
          assms(6) q by simp
      from single_query_store_reacts [OF _ _ _ _ this, of i' x] show ?thesis
        using assms(7) q throwing_ok [OF False, of "mysql_service_ops A" i'] s' [OF False] False
          query_result [OF assms(3,4) q]
        by (simp add: connector_forms mdb_check_error_def)
    qed
  qed
qed

lemma single_query_main_leads:
  fixes A :: "('m, 'a) mariadb_api_scheme"
  assumes "idle s" and "impl_inv s" and "auth_info_copy auth = auth"
    and "mdb_prepare A s = Some s2"
    and "single_query_contract A n (conn s2) ep auth schema"
    and "connect_waits A (mysql s2) ep auth schema default_flags"
    and "blocking_single_query A (conn s2) ep auth schema = Some x"
  shows "\<exists>p n. mdb_main A s ep auth schema default_flags = Some p \<and>
           mdb_leads A (mdb_single_query_callback A) (as_async x) n p"
proof -
  let ?S = "mysql_service_ops A" and ?i = "conn s2"
  obtain i' ec where c: "ms_connect A ?i ep auth schema default_flags no_error = (i', ec)"
    by (cases "ms_connect A ?i ep auth schema default_flags no_error")
  have agree: "connect_agrees A n (mysql s2) ep auth schema default_flags"
      "query_agrees A n (mysql (free_result A i')) statement"
      "store_agrees A n (mysql (fst (ms_query A i' statement no_error)))"
    using assms(5) c by (simp_all add: single_query_contract_def Let_def)
  have inv: "impl_inv ?i"
    using prepared [OF assms(4,1,2)] plain_set_option plain_inv impl_inv_conn by (metis fst_conv)
  show ?thesis
  proof (rule main_leads [OF assms(1,2,4)])
    show "connect_agrees A n (mysql s2) ep (auth_info_copy auth) schema default_flags"
      and "connect_waits A (mysql s2) ep (auth_info_copy auth) schema default_flags"
      and "ms_connect A (conn s2) ep (auth_info_copy auth) schema default_flags no_error = (i', ec)"
      using agree(1) assms(3,6) c by simp_all
    fix s' :: "('m, example_handler) mariadb_connection"
    assume s': "\<not> failed ec \<Longrightarrow> idle s' \<and> conn s' = i'"
    show "reacts A (mdb_single_query_callback A) (as_async x)
        (mdb_single_query_callback A (Completion Handle_connect ec None) s' [])"
    proof (cases "failed ec")
      case True
      then have "as_async x = Reported [] (Std_error ec)"
        using assms(7) c throwing_failed [OF True, of ?S i']
        by (auto simp: blocking_single_query_def connector_forms Let_def)
      then show ?thesis using True reacts_stops by simp
    next
      case False
      then show ?thesis
        using single_query_query_reacts [OF _ _ _ _ agree(2,3), of s' x] s' [OF False]
          connect_result [OF inv c False] assms(7) c throwing_ok [OF False, of ?S i']
        by (simp add: blocking_single_query_def connector_forms mdb_check_error_def Let_def)
    qed
  qed
qed

section \<open>The program for several results\<close>

text \<open>
  What the library has to agree on for one \<open>store_result\<close> on the connection \<open>i\<close>, and the
  connections on which the program does one: after each number of results.
\<close>

definition store_agreement ::
  "('m, 'a) mariadb_api_scheme \<Rightarrow> nat \<Rightarrow> 'm implementation \<Rightarrow> bool" where
  "store_agreement A n i \<longleftrightarrow>
     (if first_result_stored i
      then let m0 = mysql (free_result A i)
           in ms_has_more_results A (free_result A i) \<longrightarrow>
              next_agrees A n m0 \<and> store_agrees A n (fst (c_mysql_next_result A m0))
      else last_result i = Empty_ptr \<and> store_agrees A n (mysql i))"

lemma store_agreement_contract: "store_agreement A n (conn s) \<Longrightarrow> store_contract A n n s"
  using conn_select(1) [of "free_result A s"]
  by (auto simp: store_agreement_def store_contract_def mdb_calls_conn Let_def)

fun after_results ::
  "('m, 'a) mysql_api_scheme \<Rightarrow> nat \<Rightarrow> 'm implementation \<Rightarrow> 'm implementation option" where
  "after_results A 0 i = Some i"
| "after_results A (Suc k) i =
     (if \<not> ms_has_more_results A i then None
      else case ms_store_result A i no_error of
             None \<Rightarrow> None
           | Some (i', rs, ec) \<Rightarrow> if failed ec then None else after_results A k i')"

definition results_agree ::
  "('m, 'a) mariadb_api_scheme \<Rightarrow> nat \<Rightarrow> 'm implementation \<Rightarrow> bool" where
  "results_agree A n i \<longleftrightarrow> (\<forall>k i'. after_results A k i = Some i' \<longrightarrow> store_agreement A n i')"

lemma results_agree_now: "results_agree A n i \<Longrightarrow> store_agreement A n i"
  by (metis after_results.simps(1) results_agree_def)

lemma results_agree_next:
  assumes "results_agree A n i" and "ms_has_more_results A i"
    and "ms_store_result A i no_error = Some (i', rs, ec)" and "\<not> failed ec"
  shows "results_agree A n i'"
  unfolding results_agree_def
proof (intro allI impI)
  fix k j
  assume "after_results A k i' = Some j"
  then have "after_results A (Suc k) i = Some j" using assms(2-4) by simp
  then show "store_agreement A n j" using assms(1) results_agree_def by blast
qed

definition multi_query_contract ::
  "('m, 'a) mariadb_api_scheme \<Rightarrow> nat \<Rightarrow> 'm implementation \<Rightarrow> endpoint \<Rightarrow> auth_info \<Rightarrow> string \<Rightarrow>
     string \<Rightarrow> bool" where
  "multi_query_contract A n i ep auth schema input \<longleftrightarrow>
     (let fl = client_multi_statements A;
          i1 = fst (ms_connect A i ep auth schema fl no_error);
          i2 = fst (ms_query A i1 input no_error)
      in connect_agrees A n (mysql i) ep auth schema fl \<and>
         query_agrees A n (mysql (free_result A i1)) input \<and> results_agree A n i2)"

text \<open>The loop over the results, as for the other service.\<close>

interpretation mdb_multi_query_loop: result_loop A
  "\<lambda>s i. idle s \<and> conn s = i \<and> impl_inv i \<and> ms_is_open i \<and> results_agree A n i"
  "\<lambda>ec rs s out x. reacts A (mdb_multi_query_callback A input) x
     (mdb_multi_query_callback A input (Completion Handle_store_result ec (Some rs)) s out)"
  "\<lambda>s out x. reacts A (mdb_multi_query_callback A input) x
     (and_return (mdb_async_store_result A s Handle_store_result) out)"
  for A :: "('m, 'a) mariadb_api_scheme" and n input
proof unfold_locales
  fix ec rs out t and s :: "('m, example_handler) mariadb_connection" and i :: "'m implementation"
  assume "\<not> failed ec" "print_whole_result A i rs = Some t" "\<not> ms_has_more_results A i"
    "idle s \<and> conn s = i \<and> impl_inv i \<and> ms_is_open i \<and> results_agree A n i"
  then show "reacts A (mdb_multi_query_callback A input) (Printed (out @ t))
      (mdb_multi_query_callback A input (Completion Handle_store_result ec (Some rs)) s out)"
    using leads_main_return [of s A "mdb_multi_query_callback A input" "out @ t" 0]
    by (auto simp: reacts_def mdb_check_error_def mdb_calls_conn)
next
  fix s :: "('m, example_handler) mariadb_connection" and i i' :: "'m implementation"
    and rs ec out x
  assume s: "idle s \<and> conn s = i \<and> impl_inv i \<and> ms_is_open i \<and> results_agree A n i"
    and more: "ms_has_more_results A i" and st: "ms_store_result A i no_error = Some (i', rs, ec)"
    and c: "\<And>s'. (\<not> failed ec \<Longrightarrow>
        idle s' \<and> conn s' = i' \<and> impl_inv i' \<and> ms_is_open i' \<and> results_agree A n i') \<Longrightarrow>
      reacts A (mdb_multi_query_callback A input) x
        (mdb_multi_query_callback A input (Completion Handle_store_result ec (Some rs)) s' out)"
  have i: "idle s" "conn s = i" "impl_inv i" "ms_is_open i" "store_contract A n n s"
    using s results_agree_now [of A n i] store_agreement_contract [of A n s] by auto
  show "reacts A (mdb_multi_query_callback A input) x
      (and_return (mdb_async_store_result A s Handle_store_result) out)"
    by (rule reacts_store_result [OF i st])
       (use c store_result_keeps [OF i(3,4) st] results_agree_next [OF _ more st] s in blast)
qed (auto simp: reacts_def mdb_check_error_def mdb_calls_conn)

lemma multi_query_main_leads:
  fixes A :: "('m, 'a) mariadb_api_scheme"
  defines "fl \<equiv> client_multi_statements A"
  assumes "idle s" and "impl_inv s" and "auth_info_copy auth = auth" and "fl \<noteq> 0"
    and "mdb_prepare A s = Some s2"
    and "multi_query_contract A n (conn s2) ep auth schema input"
    and "connect_waits A (mysql s2) ep auth schema fl"
    and "blocking_multi_query A (conn s2) ep auth schema input = Some x"
  shows "\<exists>p n. mdb_main A s ep auth schema fl = Some p \<and>
           mdb_leads A (mdb_multi_query_callback A input) (as_async x) n p"
proof -
  let ?S = "mysql_service_ops A" and ?i = "conn s2" and ?R = "mdb_multi_query_callback A input"
  obtain i1 ec1 where c: "ms_connect A ?i ep auth schema fl no_error = (i1, ec1)"
    by (cases "ms_connect A ?i ep auth schema fl no_error")
  obtain i2 ec2 where q: "ms_query A i1 input no_error = (i2, ec2)"
    by (cases "ms_query A i1 input no_error")
  have agree: "connect_agrees A n (mysql s2) ep auth schema fl"
      "query_agrees A n (mysql (free_result A i1)) input" "results_agree A n i2"
    using assms(7) c q by (simp_all add: multi_query_contract_def fl_def Let_def)
  have inv: "impl_inv ?i"
    using prepared [OF assms(6,2,3)] plain_set_option plain_inv impl_inv_conn by (metis fst_conv)
  have queried: "reacts A ?R (as_async x) (?R (Completion Handle_query ec2 None) s' [])"
    if s': "\<not> failed ec2 \<Longrightarrow> idle s' \<and> conn s' = i2" and ok: "\<not> failed ec1" for s'
  proof (cases "failed ec2")
    case True
    then have "as_async x = Reported [] (Std_error ec2)"
      using assms(9) c q throwing_ok [OF ok, of ?S i1] throwing_failed [OF True, of ?S i2]
      by (auto simp: blocking_multi_query_def connector_forms fl_def Let_def)
    then show ?thesis using True reacts_stops by simp
  next
    case False
    have i1: "impl_inv i1" "ms_is_open i1" using connect_result [OF inv c ok] by simp_all
    then have i2: "impl_inv i2" "ms_is_open i2" using query_result [OF i1 q] by simp_all
    have "ms_has_more_results A i2"
      using has_more_after_query [OF i1(2) _ q] connect_flags [OF c ok]
        multi_flags_enabled [of A] assms(5) by (simp add: fl_def)
    from mdb_multi_query_loop.begin_started [OF _ i2(2) this, of s' n x input] show ?thesis
      using assms(9) c q throwing_ok [OF ok, of ?S i1] throwing_ok [OF False, of ?S i2]
        s' [OF False] i2 agree(3) False
      by (simp add: blocking_multi_query_def connector_forms mdb_check_error_def fl_def Let_def)
  qed
  show ?thesis
  proof (rule main_leads [OF assms(2,3,6)])
    show "connect_agrees A n (mysql s2) ep (auth_info_copy auth) schema fl"
      and "connect_waits A (mysql s2) ep (auth_info_copy auth) schema fl"
      and "ms_connect A (conn s2) ep (auth_info_copy auth) schema fl no_error = (i1, ec1)"
      using agree(1) assms(4,8) c by simp_all
    fix s' :: "('m, example_handler) mariadb_connection"
    assume s': "\<not> failed ec1 \<Longrightarrow> idle s' \<and> conn s' = i1"
    show "reacts A ?R (as_async x) (?R (Completion Handle_connect ec1 None) s' [])"
    proof (cases "failed ec1")
      case True
      then have "as_async x = Reported [] (Std_error ec1)"
        using assms(9) c throwing_failed [OF True, of ?S i1]
        by (auto simp: blocking_multi_query_def connector_forms fl_def Let_def)
      then show ?thesis using True reacts_stops by simp
    next
      case False
      have "reacts A ?R (as_async x) (and_return (mdb_async_query A s' input Handle_query) [])"
        using s' [OF False] connect_result [OF inv c False] queried [OF _ False]
        by (intro reacts_query [OF _ _ _ _ agree(2) q]) auto
      then show ?thesis using False by (simp add: mdb_check_error_def)
    qed
  qed
qed

section \<open>A connect that fails at once\<close>

lemma connect_at_once:
  assumes "idle s" and "impl_inv s" and "mdb_prepare A s = Some s2"
    and "connect_agrees A n (mysql s2) ep (auth_info_copy auth) schema fl"
    and "\<not> connect_waits A (mysql s2) ep (auth_info_copy auth) schema fl"
    and "ms_connect A (conn s2) ep (auth_info_copy auth) schema fl no_error = (i', ec)"
  shows "\<exists>t. mdb_async_connect A s ep auth schema fl k = Some t \<and>
           invoked t = [Completion k ec None]"
proof -
  obtain s1 e where s1: "idle s1" "impl_inv s1" "mdb_is_open s1"
      "mdb_set_option A s1 (nonblock_default A) no_error = (s2, e)" "\<not> failed e"
      "mdb_async_connect A s ep auth schema fl k = mdb_async_connect A s1 ep auth schema fl k"
    by (rule prepared [OF assms(3,1,2)])
  have io: "waits s1 = []" "ready s1 = []" "invoked s1 = []"
    using s1(1) by (simp_all add: idle_def)
  note starts = connect_operation_starts [OF s1(2,3) io(1,2) s1(4,5)]
  obtain m r where c: "connect_start A (mysql s2) ep (auth_info_copy auth) schema fl = (m, r, 0)"
      "c_mysql_real_connect A (mysql s2) (ep_host ep) (user (auth_info_copy auth))
         (password (auth_info_copy auth)) (c_str schema) (ep_port ep) (ep_unix_socket ep) fl = (m, r)"
    using assms(4,5)
    by (cases "connect_start A (mysql s2) ep (auth_info_copy auth) schema fl"; cases n)
       (auto simp: connect_waits_def connect_agrees_def)
  have "ms_is_open (conn s2)" using starts(4) by (simp add: mdb_calls_conn)
  then have "ec = error_wrapper_ptr A (\<not> r) m no_error"
    using assms(6) c(2)
    by (simp add: ms_connect_def mysql_real_connect_def clear_error_def)
  moreover have "invoked (s2\<lparr>flags := fl\<rparr>) = []" using starts(6) io(3) by simp
  ultimately show ?thesis
    using starts(1) [where k = k and ep = ep and auth = auth and database = schema and fl = fl] c(1)
    by (simp add: s1(6) connect_ret_def connect_wait_def wait_finish_def call_code_def
        wrap_handle_def invoke_callback_def Let_def)
qed

lemma leads_uncaught:
  assumes "invoked s = [c]" and "react c (s\<lparr>invoked := []\<rparr>) out = Some (Thrown out ec)"
  shows "mdb_leads A react Aborted (Suc 0) (Starting s out)"
proof (rule inevitably_step)
  show "mdb_program_step A react (Starting s out) (in_main (Thrown out ec))"
    using assms by (intro mdb_main_callback) simp_all
  fix q
  assume "mdb_program_step A react (Starting s out) q"
  then show "mdb_leads A react Aborted 0 q"
    using assms by (cases rule: starting_stepE) auto
qed

section \<open>Properties\<close>

text \<open>
  C34. The program for one query over \<open>mariadb_service\<close> does what the blocking program does, when
  the connect has to wait.  The hypotheses: the connection can be opened and takes the non-blocking
  option (\<open>mdb_prepare\<close> succeeds); the first non-blocking call of the connect waits
  (\<open>connect_waits\<close>); the non-blocking calls agree with the blocking ones for the connect, the query
  and its result; and \<open>blocking_single_query\<close>, run on the connection that is prepared like that,
  ends.  Then in every interleaving of events, operations and callbacks the program never gets stuck,
  ends after a bounded number of steps, and has then written the same output and reported the same
  error code, if any.
\<close>

theorem mdb_single_query_equals_blocking:
  assumes "idle s" and "impl_inv s"
    and "nul_free (auth_user auth)" and "pred_option nul_free (auth_password auth)"
    and "mdb_prepare A s = Some s2" and "single_query_contract A b (conn s2) ep auth schema"
    and "connect_waits A (mysql s2) ep auth schema default_flags"
    and "blocking_single_query A (conn s2) ep auth schema = Some x"
  shows "\<exists>p N. mdb_main A s ep auth schema default_flags = Some p \<and>
           (\<forall>n q. (mdb_program_step A (mdb_single_query_callback A) ^^ n) p q \<longrightarrow>
              n \<le> N \<and> (q = Ended (as_async x) \<or> (\<exists>q'. mdb_program_step A (mdb_single_query_callback A) q q')))"
proof -
  have "auth_info_copy auth = auth" using assms(3,4) auth_info_copy_eq_self_iff by blast
  from single_query_main_leads [OF assms(1,2) this assms(5-8)] show ?thesis
    using mdb_leads_steps by meson
qed

definition sample_fresh :: "sample_result \<Rightarrow> (sample_server, example_handler) mariadb_connection" where
  "sample_fresh r = new_connection (sample_start [[r]]) fresh_heap"

definition sample_prepared :: "(sample_server, example_handler) mariadb_connection" where
  "sample_prepared = the (mdb_prepare sample_mariadb (sample_fresh (Rows [] [])))"

lemma sample_fresh_ok: "idle (sample_fresh r)" "impl_inv (sample_fresh r)"
proof -
  have "mdb_inv (sample_fresh r)"
    unfolding sample_fresh_def by (rule new_connection_inv(1) [OF fresh_heap_wf])
  then show "impl_inv (sample_fresh r)" by (simp add: mdb_inv_def)
  show "idle (sample_fresh r)"
    by (simp add: sample_fresh_def idle_def new_connection_defs sp_make_def)
qed

lemma is_some: "\<not> Option.is_none x \<Longrightarrow> x = Some (the x)"
  by (cases x) simp_all

lemma sample_prepared_ok:
  "mdb_prepare sample_mariadb (sample_fresh (Rows [] [])) = Some sample_prepared"
  unfolding sample_prepared_def by (rule is_some) code_simp

theorem mdb_single_query_equals_blocking_witness:
  "\<exists>p n. mdb_main sample_mariadb (sample_fresh (Rows [] [])) Null_endpoint sample_auth ''test''
       default_flags = Some p \<and>
     (mdb_program_step sample_mariadb (mdb_single_query_callback sample_mariadb) ^^ n) p
       (Ended (Printed (''Affected rows: 0, field count: 0, result set size: 0'' @ [newline])))"
proof -
  let ?x = "Printed (''Affected rows: 0, field count: 0, result set size: 0'' @ [newline])"
  have "single_query_contract sample_mariadb 3 (conn sample_prepared) Null_endpoint sample_auth ''test''"
    "connect_waits sample_mariadb (mysql sample_prepared) Null_endpoint sample_auth ''test'' default_flags"
    "blocking_single_query sample_mariadb (conn sample_prepared) Null_endpoint sample_auth ''test'' =
       Some ?x"
    by code_simp+
  from mdb_single_query_equals_blocking [OF sample_fresh_ok sample_auth_nul_free sample_prepared_ok
      this, unfolded as_async.simps]
  obtain p N where "mdb_main sample_mariadb (sample_fresh (Rows [] [])) Null_endpoint sample_auth
        ''test'' default_flags = Some p"
    "\<And>n q. (mdb_program_step sample_mariadb (mdb_single_query_callback sample_mariadb) ^^ n) p q \<Longrightarrow>
      n \<le> N \<and> (q = Ended ?x \<or>
        (\<exists>q'. mdb_program_step sample_mariadb (mdb_single_query_callback sample_mariadb) q q'))"
    by blast
  then show ?thesis using bounded_reaches [of _ p N "Ended ?x"] by blast
qed

text \<open>
  C9. The program for statements with any number of results over \<open>mariadb_service\<close> does what the
  blocking program does, when the connect has to wait.  The hypotheses: the connection can be opened
  and takes the non-blocking option (\<open>mdb_prepare\<close> succeeds); the first non-blocking call of the
  connect waits (\<open>connect_waits\<close>; otherwise a connect that fails ends the program with an uncaught
  exception, see \<open>mdb_connect_failure_uncaught\<close>); the non-blocking calls agree with the blocking ones
  for the connect, the query and after each result; and \<open>blocking_multi_query\<close>, run on the connection
  that is prepared like that, ends.  Then the program never gets stuck, ends after a bounded number
  of steps, and has then written the same output and reported the same error code, if any.
\<close>

theorem mdb_multi_query_equals_blocking:
  assumes "idle s" and "impl_inv s"
    and "nul_free (auth_user auth)" and "pred_option nul_free (auth_password auth)"
    and "client_multi_statements A \<noteq> 0"
    and "mdb_prepare A s = Some s2" and "multi_query_contract A b (conn s2) ep auth schema input"
    and "connect_waits A (mysql s2) ep auth schema (client_multi_statements A)"
    and "blocking_multi_query A (conn s2) ep auth schema input = Some x"
  shows "\<exists>p N. mdb_main A s ep auth schema (client_multi_statements A) = Some p \<and>
           (\<forall>n q. (mdb_program_step A (mdb_multi_query_callback A input) ^^ n) p q \<longrightarrow>
              n \<le> N \<and>
              (q = Ended (as_async x) \<or> (\<exists>q'. mdb_program_step A (mdb_multi_query_callback A input) q q')))"
proof -
  have "auth_info_copy auth = auth" using assms(3,4) auth_info_copy_eq_self_iff by blast
  from multi_query_main_leads [OF assms(1,2) this assms(5-9)] show ?thesis
    using mdb_leads_steps by meson
qed

lemma results_agree_one:
  assumes "store_agreement A n i" and "ms_store_result A i no_error = Some (i', rs, ec)"
    and "store_agreement A n i'" and "\<not> ms_has_more_results A i'"
  shows "results_agree A n i"
  unfolding results_agree_def
proof (intro allI impI)
  fix k j
  assume k: "after_results A k i = Some j"
  show "store_agreement A n j"
  proof (cases k)
    case (Suc l)
    then have "after_results A l i' = Some j" using k assms(2) by (auto split: if_splits)
    then have "j = i'" using assms(4) by (cases l) auto
    then show ?thesis using assms(3) by simp
  qed (use k assms(1) in simp)
qed

definition sample_mdb_connected :: "sample_server implementation \<times> error_code" where
  "sample_mdb_connected =
     ms_connect sample_mariadb (conn sample_prepared) Null_endpoint sample_auth ''test''
       (client_multi_statements sample_mariadb) no_error"

definition sample_mdb_queried :: "sample_server implementation \<times> error_code" where
  "sample_mdb_queried = ms_query sample_mariadb (fst sample_mdb_connected) ''q'' no_error"

definition sample_mdb_stored :: "sample_server implementation \<times> result_set \<times> error_code" where
  "sample_mdb_stored = the (ms_store_result sample_mariadb (fst sample_mdb_queried) no_error)"

lemma sample_mdb_store:
  "ms_store_result sample_mariadb (fst sample_mdb_queried) no_error =
     Some (fst sample_mdb_stored, fst (snd sample_mdb_stored), snd (snd sample_mdb_stored))"
  "\<not> ms_has_more_results sample_mariadb (fst sample_mdb_stored)"
proof -
  have "\<not> Option.is_none (ms_store_result sample_mariadb (fst sample_mdb_queried) no_error)"
    by code_simp
  from is_some [OF this] show "ms_store_result sample_mariadb (fst sample_mdb_queried) no_error =
      Some (fst sample_mdb_stored, fst (snd sample_mdb_stored), snd (snd sample_mdb_stored))"
    by (simp add: sample_mdb_stored_def)
  show "\<not> ms_has_more_results sample_mariadb (fst sample_mdb_stored)" by code_simp
qed

lemma sample_mdb_multi_query:
  "blocking_multi_query sample_mariadb (conn sample_prepared) Null_endpoint sample_auth ''test'' ''q'' =
     Some (Printed (''Affected rows: 0, field count: 0, result set size: 0'' @ [newline]))"
proof -
  let ?c = sample_mdb_connected and ?q = sample_mdb_queried
  have "\<not> failed (snd ?c)" "\<not> failed (snd ?q)" "ms_is_open (fst ?q)"
    "ms_has_more_results sample_mariadb (fst ?q)" "\<not> failed (snd (snd sample_mdb_stored))"
    "print_whole_result sample_mariadb (fst sample_mdb_stored) (fst (snd sample_mdb_stored)) =
       Some (''Affected rows: 0, field count: 0, result set size: 0'' @ [newline])"
    by code_simp+
  note ok = this
  have c: "ms_connect sample_mariadb (conn sample_prepared) Null_endpoint sample_auth ''test''
      (client_multi_statements sample_mariadb) no_error = (fst ?c, snd ?c)"
    and q: "ms_query sample_mariadb (fst ?c) ''q'' no_error = (fst ?q, snd ?q)"
    by (simp_all add: sample_mdb_connected_def sample_mdb_queried_def)
  show ?thesis
    by (rule multi_query_one_result
        [OF c ok(1) q ok(2-4) sample_mdb_store(1) ok(5) sample_mdb_store(2) ok(6)])
qed

lemma sample_multi_contract:
  "multi_query_contract sample_mariadb 3 (conn sample_prepared) Null_endpoint sample_auth ''test'' ''q''"
proof -
  have "store_agreement sample_mariadb 3 (fst sample_mdb_queried)"
    "store_agreement sample_mariadb 3 (fst sample_mdb_stored)"
    by code_simp+
  from results_agree_one [OF this(1) sample_mdb_store(1) this(2) sample_mdb_store(2)]
  have "results_agree sample_mariadb 3 (fst sample_mdb_queried)" .
  moreover have "connect_agrees sample_mariadb 3 (mysql (conn sample_prepared)) Null_endpoint
      sample_auth ''test'' (client_multi_statements sample_mariadb)"
    "query_agrees sample_mariadb 3 (mysql (free_result sample_mariadb (fst sample_mdb_connected)))
      ''q''"
    by code_simp+
  ultimately show ?thesis
    by (simp add: multi_query_contract_def sample_mdb_connected_def sample_mdb_queried_def Let_def)
qed

theorem mdb_multi_query_equals_blocking_witness:
  "\<exists>p n. mdb_main sample_mariadb (sample_fresh (Rows [] [])) Null_endpoint sample_auth ''test''
       (client_multi_statements sample_mariadb) = Some p \<and>
     (mdb_program_step sample_mariadb (mdb_multi_query_callback sample_mariadb ''q'') ^^ n) p
       (Ended (Printed (''Affected rows: 0, field count: 0, result set size: 0'' @ [newline])))"
proof -
  let ?x = "Printed (''Affected rows: 0, field count: 0, result set size: 0'' @ [newline])"
  have "client_multi_statements sample_mariadb \<noteq> 0"
    and w: "connect_waits sample_mariadb (mysql sample_prepared) Null_endpoint sample_auth ''test''
      (client_multi_statements sample_mariadb)"
    by code_simp+
  from mdb_multi_query_equals_blocking [OF sample_fresh_ok sample_auth_nul_free this(1)
      sample_prepared_ok sample_multi_contract w sample_mdb_multi_query, unfolded as_async.simps]
  obtain p N where "mdb_main sample_mariadb (sample_fresh (Rows [] [])) Null_endpoint sample_auth
        ''test'' (client_multi_statements sample_mariadb) = Some p"
    "\<And>n q. (mdb_program_step sample_mariadb (mdb_multi_query_callback sample_mariadb ''q'') ^^ n) p q
      \<Longrightarrow> n \<le> N \<and> (q = Ended ?x \<or>
        (\<exists>q'. mdb_program_step sample_mariadb (mdb_multi_query_callback sample_mariadb ''q'') q q'))"
    by blast
  then show ?thesis using bounded_reaches [of _ p N "Ended ?x"] by blast
qed

text \<open>
  C29. A callback may run before \<open>async_connect\<close> returns.  If the connect fails without having
  to wait, \<open>handle_connect\<close> throws out of \<open>async_connect\<close> in \<open>main\<close>, where nothing catches
  the exception: the program aborts, whereas the blocking one reports the error.
\<close>

theorem mdb_connect_failure_uncaught:
  assumes "idle s" and "impl_inv s"
    and "nul_free (auth_user auth)" and "pred_option nul_free (auth_password auth)"
    and "mdb_prepare A s = Some s2"
    and "connect_agrees A b (mysql s2) ep auth schema default_flags"
    and "\<not> connect_waits A (mysql s2) ep auth schema default_flags"
    and "ms_connect A (conn s2) ep auth schema default_flags no_error = (i', ec)" and "failed ec"
  shows "(\<exists>e. blocking_single_query A (conn s2) ep auth schema = Some (Reported [] (Amy_error e)) \<and>
            se_code e = ec) \<and>
         (\<exists>p. mdb_main A s ep auth schema default_flags = Some p \<and>
            (\<forall>n q. (mdb_program_step A (mdb_single_query_callback A) ^^ n) p q \<longrightarrow>
               n \<le> 1 \<and> (q = Ended Aborted \<or>
                 (\<exists>q'. mdb_program_step A (mdb_single_query_callback A) q q'))))"
proof
  have au: "auth_info_copy auth = auth" using assms(3,4) auth_info_copy_eq_self_iff by blast
  show "\<exists>e. blocking_single_query A (conn s2) ep auth schema = Some (Reported [] (Amy_error e)) \<and>
      se_code e = ec"
    using assms(8) throwing_failed [OF assms(9), of "mysql_service_ops A" i']
    by (auto simp: blocking_single_query_def connector_forms Let_def)
  obtain t where t: "mdb_async_connect A s ep auth schema default_flags Handle_connect = Some t"
      "invoked t = [Completion Handle_connect ec None]"
    using connect_at_once [OF assms(1,2,5), of b ep auth schema default_flags] assms(6-8) au by auto
  have "mdb_leads A (mdb_single_query_callback A) Aborted (Suc 0) (Starting t [])"
    by (rule leads_uncaught [OF t(2)]) (simp add: mdb_check_error_def assms(9))
  from mdb_leads_steps [OF this] t(1)
  show "\<exists>p. mdb_main A s ep auth schema default_flags = Some p \<and>
      (\<forall>n q. (mdb_program_step A (mdb_single_query_callback A) ^^ n) p q \<longrightarrow>
         n \<le> 1 \<and> (q = Ended Aborted \<or>
           (\<exists>q'. mdb_program_step A (mdb_single_query_callback A) q q')))"
    by (simp add: mdb_main_def)
qed

text \<open>A library whose connect is refused at once.\<close>

definition refusing_mariadb :: "sample_server mariadb_api" where
  "refusing_mariadb = sample_mariadb
     \<lparr>c_mysql_real_connect := (\<lambda>m h u pw d port us fl. (m, False)),
      c_mysql_real_connect_start := (\<lambda>r m h u pw d port us fl. (m, False, 0)),
      c_mysql_errno := (\<lambda>m. 2002)\<rparr>"

theorem mdb_connect_failure_uncaught_witness:
  "\<exists>p n. mdb_main refusing_mariadb (sample_fresh (Rows [] [])) Null_endpoint sample_auth ''test''
       default_flags = Some p \<and>
     (mdb_program_step refusing_mariadb (mdb_single_query_callback refusing_mariadb) ^^ n) p
       (Ended Aborted)"
proof -
  let ?A = refusing_mariadb
  define s2 where "s2 = the (mdb_prepare ?A (sample_fresh (Rows [] [])))"
  define c where "c = ms_connect ?A (conn s2) Null_endpoint sample_auth ''test'' default_flags no_error"
  have "\<not> Option.is_none (mdb_prepare ?A (sample_fresh (Rows [] [])))" by code_simp
  from is_some [OF this] have s2: "mdb_prepare ?A (sample_fresh (Rows [] [])) = Some s2"
    by (simp add: s2_def)
  have h: "connect_agrees ?A 0 (mysql s2) Null_endpoint sample_auth ''test'' default_flags"
    "\<not> connect_waits ?A (mysql s2) Null_endpoint sample_auth ''test'' default_flags"
    unfolding s2_def by code_simp+
  have f: "failed (snd c)" unfolding c_def s2_def by code_simp
  have c: "ms_connect ?A (conn s2) Null_endpoint sample_auth ''test'' default_flags no_error =
      (fst c, snd c)" by (simp add: c_def)
  from mdb_connect_failure_uncaught [OF sample_fresh_ok sample_auth_nul_free s2 h c f]
  obtain p where "mdb_main ?A (sample_fresh (Rows [] [])) Null_endpoint sample_auth ''test''
        default_flags = Some p"
    "\<And>n q. (mdb_program_step ?A (mdb_single_query_callback ?A) ^^ n) p q \<Longrightarrow>
      n \<le> 1 \<and> (q = Ended Aborted \<or>
        (\<exists>q'. mdb_program_step ?A (mdb_single_query_callback ?A) q q'))"
    by blast
  then show ?thesis using bounded_reaches [of _ p 1 "Ended Aborted"] by blast
qed

end
