(* ===== verification/Example_Mains.thy ===== *)
theory Example_Mains
  imports Mariadb_Examples
begin

text \<open>
  The functions \<open>main\<close> of the programs of \<open>src/example\<close>, from the command line on, and the rest of
  \<open>example/utils.cpp\<close>: its tables of options and reading the standard input.
\<close>

section \<open>The tables of options\<close>

definition short_options :: string where
  "short_options = ''hH:P:u:P:s:''"

record long_option =
  lo_name :: "string option"
  lo_has_arg :: bool
  lo_val :: char

definition long_option :: "string \<Rightarrow> bool \<Rightarrow> char \<Rightarrow> long_option" where
  "long_option name has_arg val = \<lparr>lo_name = Some name, lo_has_arg = has_arg, lo_val = val\<rparr>"

definition long_options :: "long_option list" where
  "long_options =
     [long_option ''help'' False (CHR ''h''), long_option ''host'' True (CHR ''H''),
      long_option ''port'' True (CHR ''P''), long_option ''user'' True (CHR ''u''),
      long_option ''password'' True (CHR ''p''), long_option ''schema'' True (CHR ''s'')]"

text \<open>
  How \<open>getopt\<close> reads a list of short options: a letter stands for an option, a colon after it
  says that it takes an argument.  The result is \<open>None\<close> for a letter that is not an option.
\<close>

fun short_option :: "string \<Rightarrow> char \<Rightarrow> bool option" where
  "short_option [] ch = None"
| "short_option [c] ch = (if c = ch \<and> ch \<noteq> CHR '':'' then Some False else None)"
| "short_option (c # d # cs) ch =
     (if c = ch \<and> ch \<noteq> CHR '':'' then Some (d = CHR '':'') else short_option (d # cs) ch)"

text \<open>
  Every long option can be given by its letter, with an argument as the table says, but for the
  password: in its place the letter of the port is there twice.
\<close>

lemma password_has_no_letter:
  assumes "lo \<in> set long_options"
  shows "short_option short_options (lo_val lo) =
           (if lo_name lo = Some ''password'' then None else Some (lo_has_arg lo))"
proof -
  have "\<forall>lo \<in> set long_options. short_option short_options (lo_val lo) =
      (if lo_name lo = Some ''password'' then None else Some (lo_has_arg lo))"
    by code_simp
  then show ?thesis using assms by blast
qed

text \<open>
  \<open>getopt_long\<close> goes through the table up to an entry without a name.  There is none: a name that
  does not occur takes it beyond the end, \<open>Inl ()\<close>.
\<close>

fun find_long_option :: "long_option list \<Rightarrow> string \<Rightarrow> unit + long_option option" where
  "find_long_option [] name = Inl ()"
| "find_long_option (lo # los) name =
     (if lo_name lo = None then Inr None
      else if lo_name lo = Some name then Inr (Some lo) else find_long_option los name)"

lemma long_options_not_terminated:
  "find_long_option long_options name = Inl () \<longleftrightarrow>
     name \<notin> {''help'', ''host'', ''port'', ''user'', ''password'', ''schema''}"
  by (auto simp: long_options_def long_option_def)

text \<open>
  The result of \<open>getopt_long\<close> is cut to a \<open>char\<close> before it is compared with \<open>-1\<close>: where \<open>char\<close> is
  unsigned the loop over the options does not end.
\<close>

definition as_char :: "bool \<Rightarrow> i32 \<Rightarrow> int" where
  "as_char char_signed r = (if char_signed then sint (ucast r :: i8) else uint (ucast r :: u8))"

lemma option_loop_end: "as_char True (- 1) = - 1" "as_char False r \<noteq> - 1"
proof -
  show "as_char True (- 1) = - 1" by code_simp
  have "0 \<le> as_char False r" by (simp add: as_char_def)
  then show "as_char False r \<noteq> - 1" by simp
qed

section \<open>Reading the standard input\<close>

record istream =
  is_chars :: string
  is_skipws :: bool

text \<open>\<open>is >> ch\<close>: the next character, after white space if that is to be skipped.\<close>

definition extract_char :: "istream \<Rightarrow> char option \<times> istream" where
  "extract_char s =
     (case (if is_skipws s then dropWhile is_space (is_chars s) else is_chars s) of
        [] \<Rightarrow> (None, s\<lparr>is_chars := []\<rparr>)
      | c # cs \<Rightarrow> (Some c, s\<lparr>is_chars := cs\<rparr>))"

lemma extract_char_shorter:
  "extract_char s = (c, s') \<Longrightarrow>
   length (is_chars s') + (case c of None \<Rightarrow> 0 | Some _ \<Rightarrow> 1) < Suc (length (is_chars s))"
  using length_dropWhile_le [of is_space "is_chars s"]
  by (auto simp: extract_char_def split: if_splits list.splits)

text \<open>The constructor of the string from two \<open>istream_iterator<char>\<close>; \<open>c\<close> is the value of the first.\<close>

function read_chars :: "char option \<Rightarrow> istream \<Rightarrow> string \<times> istream" where
  "read_chars None s = ([], s)"
| "read_chars (Some c) s =
     (case extract_char s of (c', s') \<Rightarrow>
        case read_chars c' s' of (cs, s'') \<Rightarrow> (c # cs, s''))"
  by pat_completeness auto
termination
  by (relation "measure (\<lambda>(c, s). length (is_chars s) + (case c of None \<Rightarrow> 0 | Some _ \<Rightarrow> 1))")
     (auto split: prod.splits dest: extract_char_shorter)

text \<open>
  An iterator may read its first character when it is constructed, or when it is first used
  (\<open>eager\<close>): the standard leaves that open.  The iterators are constructed before the skipping of
  white space is turned off.
\<close>

definition read_from_stdin :: "bool \<Rightarrow> istream \<Rightarrow> string \<times> istream" where
  "read_from_stdin eager s =
     (if eager
      then let (c, s1) = extract_char s;
               (str, s2) = read_chars c (s1\<lparr>is_skipws := False\<rparr>)
           in (str, s2\<lparr>is_skipws := True\<rparr>)
      else let (c, s1) = extract_char (s\<lparr>is_skipws := False\<rparr>);
               (str, s2) = read_chars c s1
           in (str, s2\<lparr>is_skipws := True\<rparr>))"

lemma read_chars_all:
  "\<not> is_skipws s \<Longrightarrow> read_chars (Some c) s = (c # is_chars s, s\<lparr>is_chars := []\<rparr>)"
proof (induction "is_chars s" arbitrary: c s)
  case Nil
  then show ?case by (simp add: extract_char_def)
next
  case (Cons d ds)
  have d: "is_chars s = d # ds" using Cons.hyps(2) by simp
  then have "extract_char s = (Some d, s\<lparr>is_chars := ds\<rparr>)"
    using Cons.prems by (simp add: extract_char_def)
  moreover have "read_chars (Some d) (s\<lparr>is_chars := ds\<rparr>) = (d # ds, s\<lparr>is_chars := []\<rparr>)"
    using Cons.hyps(1) [of "s\<lparr>is_chars := ds\<rparr>" d] Cons.prems by simp
  ultimately show ?case by (simp add: d)
qed

lemma read_after_extract:
  fixes s :: istream
  assumes "extract_char s = (c, s1)"
  shows "read_chars c (s1\<lparr>is_skipws := False\<rparr>) =
           (if is_skipws s then dropWhile is_space (is_chars s) else is_chars s,
            \<lparr>is_chars = [], is_skipws = False\<rparr>)"
proof -
  define l where "l = (if is_skipws s then dropWhile is_space (is_chars s) else is_chars s)"
  have e: "extract_char s = (case l of [] \<Rightarrow> (None, s\<lparr>is_chars := []\<rparr>)
      | c # cs \<Rightarrow> (Some c, s\<lparr>is_chars := cs\<rparr>))"
    by (simp add: extract_char_def l_def)
  have "read_chars c (s1\<lparr>is_skipws := False\<rparr>) = (l, \<lparr>is_chars = [], is_skipws = False\<rparr>)"
  proof (cases l)
    case Nil
    then show ?thesis using e assms by (cases s) auto
  next
    case (Cons d ds)
    then have "c = Some d" "s1 = s\<lparr>is_chars := ds\<rparr>" using e assms by simp_all
    then show ?thesis
      using read_chars_all [of "s\<lparr>is_chars := ds, is_skipws := False\<rparr>" d] Cons by (cases s) simp
  qed
  then show ?thesis by (simp add: l_def)
qed

text \<open>
  What the program reads: all of the input, but without the white space in front of it when the
  iterators are eager.
\<close>

lemma read_from_stdin_text:
  fixes s :: istream
  shows "read_from_stdin eager s =
           (if eager \<and> is_skipws s then dropWhile is_space (is_chars s) else is_chars s,
            \<lparr>is_chars = [], is_skipws = True\<rparr>)"
proof -
  obtain c s1 where e: "extract_char s = (c, s1)" by (cases "extract_char s")
  obtain d s2 where f: "extract_char (s\<lparr>is_skipws := False\<rparr>) = (d, s2)"
    by (cases "extract_char (s\<lparr>is_skipws := False\<rparr>)")
  then have "s2\<lparr>is_skipws := False\<rparr> = s2"
    by (cases s) (auto simp: extract_char_def split: list.splits)
  then show ?thesis
    using read_after_extract [OF e] read_after_extract [OF f] e f
    by (simp add: read_from_stdin_def)
qed

section \<open>From the command line to the program\<close>

text \<open>
  The blocking programs do everything inside a block that catches; an address that cannot be
  parsed is a \<open>system_error\<close> there.  The asynchronous ones compute the address before their
  block.  The first case of both types is the usage, shown and left with \<open>exit\<close>.  What the loop over
  the options has written comes with the rest.
\<close>

datatype finished = Usage_end | Address_reported | Ended_with exit

datatype 'p started = Usage_exit | Uncaught | Entered 'p

definition blocking_main ::
  "(string \<Rightarrow> string option) \<Rightarrow> (char \<times> string) list \<Rightarrow>
     (endpoint \<Rightarrow> auth_info \<Rightarrow> string \<Rightarrow> exit option) \<Rightarrow> (console \<times> finished) option"
where
  "blocking_main from_string args prog =
     (case parse_command_line_options args default_options of
        (c, None) \<Rightarrow> Some (c, Usage_end)
      | (c, Some opts) \<Rightarrow>
          (case tcp_endpoint from_string opts of
             None \<Rightarrow> Some (c, Address_reported)
           | Some ep \<Rightarrow>
               map_option (\<lambda>x. (c, Ended_with x)) (prog ep (options_auth opts) (opt_schema opts))))"

definition start_program ::
  "(string \<Rightarrow> string option) \<Rightarrow> (char \<times> string) list \<Rightarrow>
     (endpoint \<Rightarrow> auth_info \<Rightarrow> string \<Rightarrow> 'p) \<Rightarrow> console \<times> 'p started" where
  "start_program from_string args prog =
     (case parse_command_line_options args default_options of
        (c, None) \<Rightarrow> (c, Usage_exit)
      | (c, Some opts) \<Rightarrow>
          (case tcp_endpoint from_string opts of
             None \<Rightarrow> (c, Uncaught)
           | Some ep \<Rightarrow> (c, Entered (prog ep (options_auth opts) (opt_schema opts)))))"

definition blocking_connect_main ::
  "('m, 'a) mysql_api_scheme \<Rightarrow> (string \<Rightarrow> string option) \<Rightarrow> (char \<times> string) list \<Rightarrow>
     'm implementation \<Rightarrow> (console \<times> finished) option" where
  "blocking_connect_main A from_string args i =
     blocking_main from_string args (\<lambda>ep au schema. Some (blocking_connect A i ep au schema))"

definition blocking_single_query_main ::
  "('m, 'a) mysql_api_scheme \<Rightarrow> (string \<Rightarrow> string option) \<Rightarrow> (char \<times> string) list \<Rightarrow>
     'm implementation \<Rightarrow> (console \<times> finished) option" where
  "blocking_single_query_main A from_string args i =
     blocking_main from_string args (blocking_single_query A i)"

definition blocking_execute_main ::
  "('m, 'a) mysql_api_scheme \<Rightarrow> (string \<Rightarrow> string option) \<Rightarrow> (char \<times> string) list \<Rightarrow> string \<Rightarrow>
     'm implementation \<Rightarrow> (console \<times> finished) option" where
  "blocking_execute_main A from_string args input i =
     blocking_main from_string args (\<lambda>ep au schema. Some (blocking_execute A i ep au schema input))"

definition blocking_multi_query_main ::
  "('m, 'a) mysql_api_scheme \<Rightarrow> (string \<Rightarrow> string option) \<Rightarrow> (char \<times> string) list \<Rightarrow> string \<Rightarrow>
     'm implementation \<Rightarrow> (console \<times> finished) option" where
  "blocking_multi_query_main A from_string args input i =
     blocking_main from_string args (\<lambda>ep au schema. blocking_multi_query A i ep au schema input)"

definition async_connect_main ::
  "('m, 'a) mysql_api_scheme \<Rightarrow> (string \<Rightarrow> string option) \<Rightarrow> (char \<times> string) list \<Rightarrow>
     'm implementation \<Rightarrow> console \<times> ('m, example_handler) program started" where
  "async_connect_main A from_string args i =
     start_program from_string args (\<lambda>ep au schema. async_main A i ep au schema default_flags)"

definition async_single_query_main ::
  "('m, 'a) mysql_api_scheme \<Rightarrow> (string \<Rightarrow> string option) \<Rightarrow> (char \<times> string) list \<Rightarrow>
     'm implementation \<Rightarrow> console \<times> ('m, example_handler) program started" where
  "async_single_query_main A from_string args i =
     start_program from_string args (\<lambda>ep au schema. async_main A i ep au schema default_flags)"

definition async_execute_main ::
  "('m, 'a) mysql_api_scheme \<Rightarrow> (string \<Rightarrow> string option) \<Rightarrow> (char \<times> string) list \<Rightarrow>
     'm implementation \<Rightarrow> console \<times> ('m, example_handler) program started" where
  "async_execute_main A from_string args i =
     start_program from_string args (\<lambda>ep au schema. async_main A i ep au schema default_flags)"

definition async_multi_query_main ::
  "('m, 'a) mysql_api_scheme \<Rightarrow> (string \<Rightarrow> string option) \<Rightarrow> (char \<times> string) list \<Rightarrow>
     'm implementation \<Rightarrow> console \<times> ('m, example_handler) program started" where
  "async_multi_query_main A from_string args i =
     start_program from_string args
       (\<lambda>ep au schema. async_main A i ep au schema (client_multi_statements A))"

definition mariadb_single_query_main ::
  "('m, 'a) mariadb_api_scheme \<Rightarrow> (string \<Rightarrow> string option) \<Rightarrow> (char \<times> string) list \<Rightarrow>
     ('m, example_handler) mariadb_connection \<Rightarrow> console \<times> 'm mdb_program option started" where
  "mariadb_single_query_main A from_string args s =
     start_program from_string args (\<lambda>ep au schema. mdb_main A s ep au schema default_flags)"

definition mariadb_multi_query_main ::
  "('m, 'a) mariadb_api_scheme \<Rightarrow> (string \<Rightarrow> string option) \<Rightarrow> (char \<times> string) list \<Rightarrow>
     ('m, example_handler) mariadb_connection \<Rightarrow> console \<times> 'm mdb_program option started" where
  "mariadb_multi_query_main A from_string args s =
     start_program from_string args
       (\<lambda>ep au schema. mdb_main A s ep au schema (client_multi_statements A))"

section \<open>The two forms of a program\<close>

text \<open>
  \<open>same_end ends r a\<close>: the blocking form has finished with \<open>r\<close>, and the other form, which has got
  as far as \<open>a\<close>, has written the same so far and does the same, but that it does not catch the
  exception for the address.
\<close>

definition same_end ::
  "('p \<Rightarrow> exit \<Rightarrow> bool) \<Rightarrow> console \<times> finished \<Rightarrow> console \<times> 'p started \<Rightarrow> bool" where
  "same_end ends r a \<longleftrightarrow>
     fst a = fst r \<and>
     (case snd a of
        Usage_exit \<Rightarrow> snd r = Usage_end
      | Uncaught \<Rightarrow> snd r = Address_reported
      | Entered p \<Rightarrow> (\<exists>x. snd r = Ended_with x \<and> ends p x))"

lemma parse_option:
  assumes "snd (parse_command_line_options ((ch, a) # args) opts) = Some opts'"
  obtains opts1 where "snd (parse_command_line_options args opts1) = Some opts'"
    and "opt_user opts1 = opt_user opts \<or> opt_user opts1 = a"
    and "opt_password opts1 = opt_password opts \<or> opt_password opts1 = a"
proof -
  have "\<exists>opts1. snd (parse_command_line_options args opts1) = Some opts' \<and>
      (opt_user opts1 = opt_user opts \<or> opt_user opts1 = a) \<and>
      (opt_password opts1 = opt_password opts \<or> opt_password opts1 = a)"
    using assms unfolding parse_command_line_options.simps case_prod_unfold
    by (simp only: split: if_split_asm option.split_asm)
      (simp; fail | rule exI, rule conjI, (assumption | simp; fail), simp; fail)+
  then show thesis using that by blast
qed

lemma options_nul_free:
  assumes "snd (parse_command_line_options args opts) = Some opts'"
    and "\<forall>(c, a) \<in> set args. nul_free a"
    and "nul_free (opt_user opts)" and "nul_free (opt_password opts)"
  shows "nul_free (opt_user opts') \<and> nul_free (opt_password opts')"
  using assms
proof (induction args arbitrary: opts)
  case (Cons x args)
  obtain ch a where x: "x = (ch, a)" by (cases x)
  obtain opts1 where "snd (parse_command_line_options args opts1) = Some opts'"
    "opt_user opts1 = opt_user opts \<or> opt_user opts1 = a"
    "opt_password opts1 = opt_password opts \<or> opt_password opts1 = a"
    by (rule parse_option [OF Cons.prems(1) [unfolded x]])
  moreover have "nul_free a" using Cons.prems(2) x by simp
  ultimately show ?case using Cons.IH [of opts1] Cons.prems(2-4) by auto
qed simp

lemma options_auth_ok:
  assumes "parse_command_line_options args default_options = (c, Some opts)"
    and "\<forall>(c, a) \<in> set args. nul_free a"
  shows "auth_info_copy (options_auth opts) = options_auth opts"
proof -
  have "snd (parse_command_line_options args default_options) = Some opts" by (simp add: assms(1))
  then have "nul_free (opt_user opts) \<and> nul_free (opt_password opts)"
    by (rule options_nul_free [OF _ assms(2)]) (simp_all add: default_options_def nul_free_def)
  then show ?thesis
    by (simp add: auth_info_copy_eq_self_iff options_auth_def auth_info_user_password_def)
qed

lemma mains_agree:
  assumes "\<forall>(c, a) \<in> set args. nul_free a" and "blocking_main from_string args prog = Some r"
    and "\<And>ep auth schema x. auth_info_copy auth = auth \<Longrightarrow> prog ep auth schema = Some x \<Longrightarrow>
           ends (start ep auth schema) x"
  shows "same_end ends r (start_program from_string args start)"
  using assms(2,3) options_auth_ok [OF _ assms(1)]
  by (auto simp: blocking_main_def start_program_def same_end_def split: option.splits prod.splits)

text \<open>A program that always ends, and how.\<close>

definition always_ends :: "('p \<Rightarrow> 'p \<Rightarrow> bool) \<Rightarrow> 'p \<Rightarrow> 'p \<Rightarrow> bool" where
  "always_ends R y p \<longleftrightarrow>
     (\<exists>N. \<forall>n q. (R ^^ n) p q \<longrightarrow> n \<le> N \<and> (q = y \<or> (\<exists>q'. R q q')))"

lemma leads_always_ends:
  assumes "leads A react x n p"
  shows "always_ends (program_step A react) (Exited x) p"
  unfolding always_ends_def using leads_steps [OF assms] by blast

lemma programs_always_end:
  assumes "impl_inv i" and "auth_info_copy auth = auth"
  shows "always_ends (program_step A connect_callback)
           (Exited (as_async (blocking_connect A i ep auth schema)))
           (async_main A i ep auth schema default_flags)"
    and "blocking_single_query A i ep auth schema = Some x \<Longrightarrow>
           always_ends (program_step A (single_query_callback A)) (Exited (as_async x))
             (async_main A i ep auth schema default_flags)"
    and "always_ends (program_step A (execute_callback A input))
           (Exited (without_count (blocking_execute A i ep auth schema input)))
           (async_main A i ep auth schema default_flags)"
    and "client_multi_statements A \<noteq> 0 \<Longrightarrow> blocking_multi_query A i ep auth schema input = Some x \<Longrightarrow>
           always_ends (program_step A (multi_query_callback A input)) (Exited (as_async x))
             (async_main A i ep auth schema (client_multi_statements A))"
proof -
  show "always_ends (program_step A connect_callback)
      (Exited (as_async (blocking_connect A i ep auth schema)))
      (async_main A i ep auth schema default_flags)"
    by (rule leads_always_ends [OF connect_leads [OF assms]])
  show "always_ends (program_step A (execute_callback A input))
      (Exited (without_count (blocking_execute A i ep auth schema input)))
      (async_main A i ep auth schema default_flags)"
    by (rule leads_always_ends [OF execute_leads [OF assms refl]])
  show "always_ends (program_step A (single_query_callback A)) (Exited (as_async x))
      (async_main A i ep auth schema default_flags)"
    if "blocking_single_query A i ep auth schema = Some x"
    by (rule leads_always_ends [OF single_query_leads [OF assms that]])
  show "always_ends (program_step A (multi_query_callback A input)) (Exited (as_async x))
      (async_main A i ep auth schema (client_multi_statements A))"
    if h: "client_multi_statements A \<noteq> 0" "blocking_multi_query A i ep auth schema input = Some x"
  proof -
    obtain n where "leads A (multi_query_callback A input) (as_async x) n
        (async_main A i ep auth schema (client_multi_statements A))"
      using multi_query_leads [OF assms h] by blast
    then show ?thesis by (rule leads_always_ends)
  qed
qed

section \<open>Properties\<close>

text \<open>
  C24. From the command line to the end, the blocking and the asynchronous form of each of the four
  pairs of programs over \<open>mysql_service\<close> do the same: both write the same while they read the options,
  and both leave with the usage, or both end, whatever the interleaving, with the same standard
  output and the same error code, if any.  They differ in three ways: the asynchronous form reports
  the text of another class of exception for that code (\<open>as_async\<close>, \<open>report_system_error\<close>);
  \<open>async_execute\<close> prints no count (\<open>without_count\<close>); and an address that cannot be parsed is reported
  by the blocking form and not caught by the asynchronous one.  The two programs over
  \<open>mariadb_service\<close> are the subject of \<open>Mariadb_Examples\<close>.
\<close>

theorem example_mains_agree:
  assumes "impl_inv i" and "\<forall>(c, a) \<in> set args. nul_free a" and "client_multi_statements A \<noteq> 0"
  shows "(\<forall>r. blocking_connect_main A from_string args i = Some r \<longrightarrow>
            same_end (\<lambda>p x. always_ends (program_step A connect_callback) (Exited (as_async x)) p) r
              (async_connect_main A from_string args i)) \<and>
         (\<forall>r. blocking_single_query_main A from_string args i = Some r \<longrightarrow>
            same_end (\<lambda>p x. always_ends (program_step A (single_query_callback A)) (Exited (as_async x)) p) r
              (async_single_query_main A from_string args i)) \<and>
         (\<forall>r. blocking_execute_main A from_string args input i = Some r \<longrightarrow>
            same_end (\<lambda>p x. always_ends (program_step A (execute_callback A input))
                (Exited (without_count x)) p) r
              (async_execute_main A from_string args i)) \<and>
         (\<forall>r. blocking_multi_query_main A from_string args input i = Some r \<longrightarrow>
            same_end (\<lambda>p x. always_ends (program_step A (multi_query_callback A input)) (Exited (as_async x)) p) r
              (async_multi_query_main A from_string args i))"
  unfolding blocking_connect_main_def blocking_single_query_main_def blocking_execute_main_def
    blocking_multi_query_main_def async_connect_main_def async_single_query_main_def
    async_execute_main_def async_multi_query_main_def
proof (intro conjI allI impI)
  fix r
  let ?block = "blocking_main from_string args"
  show "same_end (\<lambda>p x. always_ends (program_step A connect_callback) (Exited (as_async x)) p) r
      (start_program from_string args (\<lambda>ep au schema. async_main A i ep au schema default_flags))"
    if "?block (\<lambda>ep au schema. Some (blocking_connect A i ep au schema)) = Some r"
    by (rule mains_agree [OF assms(2) that]) (use programs_always_end(1) [OF assms(1)] in auto)
  show "same_end (\<lambda>p x. always_ends (program_step A (single_query_callback A)) (Exited (as_async x)) p) r
      (start_program from_string args (\<lambda>ep au schema. async_main A i ep au schema default_flags))"
    if "?block (blocking_single_query A i) = Some r"
    by (rule mains_agree [OF assms(2) that]) (rule programs_always_end(2) [OF assms(1)])
  show "same_end (\<lambda>p x. always_ends (program_step A (execute_callback A input))
        (Exited (without_count x)) p) r
      (start_program from_string args (\<lambda>ep au schema. async_main A i ep au schema default_flags))"
    if "?block (\<lambda>ep au schema. Some (blocking_execute A i ep au schema input)) = Some r"
    by (rule mains_agree [OF assms(2) that]) (use programs_always_end(3) [OF assms(1)] in auto)
  show "same_end (\<lambda>p x. always_ends (program_step A (multi_query_callback A input)) (Exited (as_async x)) p) r
      (start_program from_string args
         (\<lambda>ep au schema. async_main A i ep au schema (client_multi_statements A)))"
    if "?block (\<lambda>ep au schema. blocking_multi_query A i ep au schema input) = Some r"
    by (rule mains_agree [OF assms(2) that]) (rule programs_always_end(4) [OF assms(1) _ assms(3)])
qed

lemma same_end_entered:
  assumes "same_end ends (c, Ended_with x) a"
  shows "\<exists>p. a = (c, Entered p) \<and> ends p x"
  using assms by (cases a; cases "snd a") (auto simp: same_end_def)

text \<open>An option that is not recognized comes before the name of the user.\<close>

theorem example_mains_agree_witness:
  "\<exists>p. async_single_query_main sample_api Some [(CHR ''?'', []), (CHR ''u'', ''joe'')]
         (sample_client (Rows [] [])) =
       (\<lparr>std_out = usage @ [newline], std_err = ''Command option not recognized.'' @ [newline]\<rparr>,
        Entered p) \<and>
     always_ends (program_step sample_api (single_query_callback sample_api))
       (Exited (Printed (''Affected rows: 0, field count: 0, result set size: 0'' @ [newline]))) p"
proof -
  let ?args = "[(CHR ''?'', []), (CHR ''u'', ''joe'')]" and ?i = "sample_client (Rows [] [])"
  let ?c = "\<lparr>std_out = usage @ [newline], std_err = ''Command option not recognized.'' @ [newline]\<rparr>"
  have "blocking_single_query_main sample_api Some ?args ?i =
      Some (?c, Ended_with (Printed
        (''Affected rows: 0, field count: 0, result set size: 0'' @ [newline])))"
    and f: "client_multi_statements sample_api \<noteq> 0"
    by code_simp+
  moreover have a: "\<forall>(c, a) \<in> set ?args. nul_free a" by (simp add: nul_free_def)
  ultimately have "same_end (\<lambda>p x. always_ends
        (program_step sample_api (single_query_callback sample_api)) (Exited (as_async x)) p)
      (?c, Ended_with (Printed (''Affected rows: 0, field count: 0, result set size: 0'' @ [newline])))
      (async_single_query_main sample_api Some ?args ?i)"
    using example_mains_agree [OF sample_client_inv a f, of Some] by blast
  from same_end_entered [OF this] show ?thesis by simp
qed

text \<open>A connect that fails: the same code, and two texts.\<close>

lemma report_texts_differ:
  "report_system_error std_what (Amy_error e) = report_system_error std_what (Std_error (se_code e)) \<longleftrightarrow>
     c_str_of (se_message e) = std_what (se_code e)"
  by (simp add: report_system_error_def)

text \<open>An address that cannot be parsed, in the programs over either service.\<close>

lemma bad_address:
  assumes "parse_command_line_options args default_options = (c, Some opts)"
    and "opt_host opts \<noteq> []" and "from_string (opt_host opts) = None"
  shows "blocking_single_query_main A from_string args i = Some (c, Address_reported)"
    and "async_single_query_main A from_string args i = (c, Uncaught)"
    and "mariadb_single_query_main B from_string args s = (c, Uncaught)"
    and "mariadb_multi_query_main B from_string args s = (c, Uncaught)"
  using assms
  by (simp_all add: blocking_single_query_main_def blocking_main_def tcp_endpoint_def
      async_single_query_main_def start_program_def mariadb_single_query_main_def
      mariadb_multi_query_main_def)

end
