(* ===== verification/Unit_Tests.thy ===== *)
theory Unit_Tests
  imports Mariadb_Examples
begin

text \<open>
  The unit tests of the repository (\<open>src/test\<close>), over any client library: which of them pass, and
  what the others need of the library.
\<close>

section \<open>The arguments of a connection\<close>

text \<open>\<open>strcmp\<close> of two strings that are not null, and the checks of \<open>auth_info_test.cpp\<close>.\<close>

definition strcmp_equal :: "char_ptr \<Rightarrow> char_ptr \<Rightarrow> bool" where
  "strcmp_equal p q = (map_option c_str_of p = map_option c_str_of q)"

definition auth_info_test :: "bool list" where
  "auth_info_test =
     [strcmp_equal (c_str '''') (user auth_info_default),
      password auth_info_default = None,
      strcmp_equal (c_str ''user'') (user (auth_info_user ''user'')),
      strcmp_equal (c_str ''user'') (user (auth_info_user_password ''user'' ''secret'')),
      strcmp_equal (c_str ''secret'') (password (auth_info_user_password ''user'' ''secret'')),
      strcmp_equal (c_str ''secret'') (password (set_password ''secret'' auth_info_default)),
      password (clear_password (set_password ''secret'' auth_info_default)) = None]"

lemma auth_info_test_passes: "list_all id auth_info_test"
  by code_simp

section \<open>Opening, closing and connecting\<close>

datatype verdict = Passed | Failed_check | Threw error_code

definition check :: "bool \<Rightarrow> verdict" where
  "check b = (if b then Passed else Failed_check)"

definition should_be_opened :: "('m, 'a) mysql_api_scheme \<Rightarrow> 'm implementation \<Rightarrow> verdict" where
  "should_be_opened A s =
     (let S = mysql_service_ops A
      in case connector_open S s of
           (s1, Inl e) \<Rightarrow> Threw (se_code e)
         | (s1, Inr _) \<Rightarrow> check (connector_is_open S s1))"

definition should_be_closed :: "('m, 'a) mysql_api_scheme \<Rightarrow> 'm implementation \<Rightarrow> verdict" where
  "should_be_closed A s =
     (let S = mysql_service_ops A
      in case connector_open S s of
           (s1, Inl e) \<Rightarrow> Threw (se_code e)
         | (s1, Inr _) \<Rightarrow>
             check (connector_is_open S s1 \<and> \<not> connector_is_open S (connector_close S s1)))"

definition test_auth :: auth_info where
  "test_auth = auth_info_user_password ''amy'' ''amy''"

definition should_connect :: "('m, 'a) mysql_api_scheme \<Rightarrow> 'm implementation \<Rightarrow> verdict" where
  "should_connect A s =
     (case connector_connect (mysql_service_ops A) s Null_endpoint test_auth ''test_amy''
             default_flags of
        (s1, Inl e) \<Rightarrow> Threw (se_code e)
      | (s1, Inr _) \<Rightarrow> Passed)"

text \<open>On a connection that is not open these depend on \<open>mysql_init\<close> and \<open>mysql_real_connect\<close> only.\<close>

lemma open_tests:
  assumes "\<not> ms_is_open s"
  shows "should_be_opened A s =
           (if failed (snd (ms_open A s no_error)) then Threw (snd (ms_open A s no_error)) else Passed)"
    and "should_be_closed A s = should_be_opened A s"
proof -
  obtain t ec where o: "ms_open A s no_error = (t, ec)" by fastforce
  have t: "\<not> failed ec \<Longrightarrow> ms_is_open t" using ms_connect_opens(2) [of A s] o by simp
  have c: "\<not> ms_is_open (ms_close A t)"
    by (simp add: ms_close_def close_implementation_def ms_is_open_def frame_simps Let_def)
  let ?S = "mysql_service_ops A"
  have forms: "connector_open ?S s = throwing ?S (t, ec)" "connector_is_open ?S t = ms_is_open t"
    "connector_is_open ?S (connector_close ?S t) = ms_is_open (ms_close A t)"
    using o by (simp_all add: connector_open_def connector_is_open_def connector_close_def
        mysql_service_ops_def)
  show "should_be_opened A s =
      (if failed (snd (ms_open A s no_error)) then Threw (snd (ms_open A s no_error)) else Passed)"
    "should_be_closed A s = should_be_opened A s"
    using o t c forms throwing_failed [of ec ?S t] throwing_ok [of ec ?S t]
    by (cases "failed ec"; auto simp: should_be_opened_def should_be_closed_def check_def Let_def)+
qed

lemma connect_test:
  "should_connect A s =
     (let ec = snd (ms_connect A s Null_endpoint test_auth ''test_amy'' default_flags no_error)
      in if failed ec then Threw ec else Passed)"
proof -
  obtain t ec where "ms_connect A s Null_endpoint test_auth ''test_amy'' default_flags no_error = (t, ec)"
    by fastforce
  then show ?thesis
    using throwing_failed [of ec "mysql_service_ops A" t] throwing_ok [of ec "mysql_service_ops A" t]
    by (auto simp: should_connect_def connector_forms)
qed

section \<open>Connecting asynchronously\<close>

text \<open>
  The handler of both tests sets the flag \<open>handler_invoked\<close>, whatever its error; the programs are
  those of the examples, with the flag instead of an output: it is set when the text is \<open>mark\<close>.
\<close>

definition mark :: string where
  "mark = ''handler_invoked''"

definition handle_test_connect ::
  "example_handler completion \<Rightarrow> ('m, example_handler) async_service \<Rightarrow> string \<Rightarrow>
     ('m, example_handler) program" where
  "handle_test_connect c s out = Running s mark"

definition mdb_handle_test_connect ::
  "example_handler completion \<Rightarrow> ('m, example_handler) mariadb_connection \<Rightarrow> string \<Rightarrow>
     'm reaction option" where
  "mdb_handle_test_connect c s out = Some (Continue s mark)"

definition async_connect_test ::
  "('m, 'a) mysql_api_scheme \<Rightarrow> 'm implementation \<Rightarrow> ('m, example_handler) program" where
  "async_connect_test A i = async_main A i Null_endpoint test_auth ''test_amy'' default_flags"

definition maria_async_connect_test ::
  "('m, 'a) mariadb_api_scheme \<Rightarrow> ('m, example_handler) mariadb_connection \<Rightarrow> 'm mdb_program option"
where
  "maria_async_connect_test A s = mdb_main A s Null_endpoint test_auth ''test_amy'' default_flags"

lemma test_auth_copy: "auth_info_copy test_auth = test_auth"
  by code_simp

lemma async_connect_test_leads:
  assumes "impl_inv i"
  shows "leads A handle_test_connect (Printed mark) 3 (async_connect_test A i)"
proof -
  obtain i' ec where c: "ms_connect A i Null_endpoint test_auth ''test_amy'' default_flags no_error = (i', ec)"
    by fastforce
  have "leads A handle_test_connect (Printed mark) (Suc (Suc (Suc 0))) (async_connect_test A i)"
    unfolding async_connect_test_def
    by (rule leads_connect_callback [OF assms test_auth_copy _ c])
       (simp add: handle_test_connect_def leads_return)
  then show ?thesis by (simp add: eval_nat_numeral)
qed

text \<open>A connection with one operation under way that has called back has nothing else to do.\<close>

lemma single_called_back:
  assumes "single t" and "invoked t \<noteq> []"
  obtains c where "invoked t = [c]" and "idle (t\<lparr>invoked := []\<rparr>)"
  using assms by (cases "invoked t") (auto simp: single_def settled_def held_def ops_def idle_def)

lemma mark_returns:
  assumes "idle t"
  shows "reacts A react (Printed mark) (Some (Continue t mark))"
  using leads_main_return [OF assms, of A react mark 0] by (auto simp: reacts_def)

lemma test_leads_main:
  assumes "single t" and "\<exists>n. mdb_leads A mdb_handle_test_connect (Printed mark) n (Serving t [])"
  shows "\<exists>n. mdb_leads A mdb_handle_test_connect (Printed mark) n (Starting t [])"
proof (cases "invoked t = []")
  case True
  then show ?thesis using assms(2) leads_main_run by blast
next
  case False
  then obtain c where c: "invoked t = [c]" "idle (t\<lparr>invoked := []\<rparr>)"
    by (rule single_called_back [OF assms(1)])
  have r: "mdb_leads A mdb_handle_test_connect (Printed mark) 2 (Starting (t\<lparr>invoked := []\<rparr>) mark)"
    using leads_main_run [OF _ leads_main_return [OF c(2), of A mdb_handle_test_connect mark 0]]
    by (simp add: eval_nat_numeral)
  have "mdb_leads A mdb_handle_test_connect (Printed mark) (Suc 2) (Starting t [])"
  proof (rule inevitably_step)
    show "mdb_program_step A mdb_handle_test_connect (Starting t [])
        (in_main (Continue (t\<lparr>invoked := []\<rparr>) mark))"
      by (rule mdb_main_callback) (simp_all add: c(1) mdb_handle_test_connect_def)
    fix q
    assume "mdb_program_step A mdb_handle_test_connect (Starting t []) q"
    then show "mdb_leads A mdb_handle_test_connect (Printed mark) 2 q"
      using c(1) r by (cases rule: starting_stepE) (auto simp: mdb_handle_test_connect_def)
  qed
  then show ?thesis by blast
qed

lemma maria_async_connect_test_leads:
  assumes "idle s" and "impl_inv s" and "mdb_prepare A s = Some s2"
    and "connect_agrees A b (mysql s2) Null_endpoint test_auth ''test_amy'' default_flags"
  shows "\<exists>t n. maria_async_connect_test A s = Some (Starting t []) \<and>
           (invoked t = [] \<longleftrightarrow>
              connect_waits A (mysql s2) Null_endpoint test_auth ''test_amy'' default_flags) \<and>
           mdb_leads A mdb_handle_test_connect (Printed mark) n (Starting t [])"
proof -
  let ?start = "\<lambda>s. mdb_async_connect A s Null_endpoint test_auth ''test_amy'' default_flags Handle_connect"
  let ?waits = "connect_waits A (mysql s2) Null_endpoint test_auth ''test_amy'' default_flags"
  obtain s1 e where s1: "idle s1" "impl_inv s1" "mdb_is_open s1"
      "mdb_set_option A s1 (nonblock_default A) no_error = (s2, e)" "\<not> failed e" "?start s = ?start s1"
    by (rule prepared [OF assms(3,1,2)])
  have io: "waits s1 = []" "ready s1 = []" "posted s1 = []" "invoked s1 = []"
    using s1(1) by (simp_all add: idle_def)
  have agrees: "connect_agrees A b (mysql s2) Null_endpoint (auth_info_copy test_auth) ''test_amy''
      default_flags"
    using assms(4) by (simp add: test_auth_copy)
  obtain v c where e: "ends_as A (?start s1) s1 v c"
    using connect_operation_ends [OF s1(2,3) io(1,2) s1(4,5) agrees] by blast
  then obtain t where t: "?start s1 = Some t" using ends_as_Some by blast
  have inv: "impl_inv (conn s1)" using s1(2) impl_inv_conn by blast
  have single: "single t" by (rule single_started [OF async_connect_step [OF t] s1(1) inv])
  obtain n u where n: "serve A n t = Some u" and u: "invoked u = [c]" "idle (u\<lparr>invoked := []\<rparr>)"
    using e t io by (auto simp: ends_as_def comes_to_def idle_def)
  have "reacts A mdb_handle_test_connect (Printed mark)
      (mdb_handle_test_connect c (u\<lparr>invoked := []\<rparr>) [])"
    using mark_returns [OF u(2)] by (simp add: mdb_handle_test_connect_def)
  from leads_called [OF u(1) this] serve_leads [OF n single]
  have "\<exists>n. mdb_leads A mdb_handle_test_connect (Printed mark) n (Serving t [])" by blast
  note leads = test_leads_main [OF single this]
  have "invoked t = []" if "?waits"
    using connect_waiting [OF s1(2,1,3-5) agrees _ t] that single_waiting [OF single]
    by (auto simp: test_auth_copy)
  moreover have "invoked t \<noteq> []" if "\<not> ?waits"
  proof -
    obtain i' ec where "ms_connect A (conn s2) Null_endpoint (auth_info_copy test_auth) ''test_amy''
        default_flags no_error = (i', ec)" by fastforce
    from connect_at_once [OF assms(1-3) agrees _ this, of Handle_connect] show ?thesis
      using that t s1(6) by (simp add: test_auth_copy)
  qed
  ultimately have "invoked t = [] \<longleftrightarrow> ?waits" by blast
  moreover have "maria_async_connect_test A s = Some (Starting t [])"
    using s1(6) t by (simp add: maria_async_connect_test_def mdb_main_def)
  ultimately show ?thesis using leads by blast
qed

section \<open>Property\<close>

text \<open>
  C30. The tests of \<open>async_connect\<close>.  Over \<open>mysql_service\<close> the handler has been invoked when
  \<open>io_service::run\<close> returns, in every interleaving and whether or not the connect succeeds.  Over
  \<open>mariadb_service\<close> this holds too, if the non-blocking connect ends at all; but the test also
  checks that the handler has not been invoked when \<open>async_connect\<close> returns, which holds if and
  only if the library has to wait for the server.
\<close>

theorem async_connect_tests:
  assumes "impl_inv i" and "idle s" and "impl_inv s" and "mdb_prepare A s = Some s2"
    and "connect_agrees A b (mysql s2) Null_endpoint test_auth ''test_amy'' default_flags"
  shows "(\<forall>n q. (program_step A handle_test_connect ^^ n) (async_connect_test A i) q \<longrightarrow>
            n \<le> 3 \<and> (q = Exited (Printed mark) \<or> (\<exists>q'. program_step A handle_test_connect q q'))) \<and>
         (\<exists>t N. maria_async_connect_test A s = Some (Starting t []) \<and>
            (invoked t = [] \<longleftrightarrow>
               connect_waits A (mysql s2) Null_endpoint test_auth ''test_amy'' default_flags) \<and>
            (\<forall>n q. (mdb_program_step A mdb_handle_test_connect ^^ n) (Starting t []) q \<longrightarrow>
               n \<le> N \<and> (q = Ended (Printed mark) \<or>
                 (\<exists>q'. mdb_program_step A mdb_handle_test_connect q q'))))"
  using leads_steps [OF async_connect_test_leads [OF assms(1), of A]]
    maria_async_connect_test_leads [OF assms(2-5)] mdb_leads_steps by meson

text \<open>The library that refuses at once, and one that waits.\<close>

theorem async_connect_tests_witness:
  "(\<exists>t. maria_async_connect_test refusing_mariadb (sample_fresh (Rows [] [])) = Some (Starting t []) \<and>
      invoked t \<noteq> []) \<and>
   (\<exists>t. maria_async_connect_test sample_mariadb (sample_fresh (Rows [] [])) = Some (Starting t []) \<and>
      invoked t = [])"
proof
  let ?A = refusing_mariadb
  define s2 where "s2 = the (mdb_prepare ?A (sample_fresh (Rows [] [])))"
  have "\<not> Option.is_none (mdb_prepare ?A (sample_fresh (Rows [] [])))" by code_simp
  from is_some [OF this] have s2: "mdb_prepare ?A (sample_fresh (Rows [] [])) = Some s2"
    by (simp add: s2_def)
  have "connect_agrees ?A 0 (mysql s2) Null_endpoint test_auth ''test_amy'' default_flags"
    "\<not> connect_waits ?A (mysql s2) Null_endpoint test_auth ''test_amy'' default_flags"
    unfolding s2_def by code_simp+
  then show "\<exists>t. maria_async_connect_test ?A (sample_fresh (Rows [] [])) = Some (Starting t []) \<and>
      invoked t \<noteq> []"
    using async_connect_tests [OF sample_client_inv sample_fresh_ok s2] by blast
next
  let ?A = sample_mariadb
  have "connect_agrees ?A 3 (mysql sample_prepared) Null_endpoint test_auth ''test_amy'' default_flags"
    "connect_waits ?A (mysql sample_prepared) Null_endpoint test_auth ''test_amy'' default_flags"
    by code_simp+
  then show "\<exists>t. maria_async_connect_test ?A (sample_fresh (Rows [] [])) = Some (Starting t []) \<and>
      invoked t = []"
    using async_connect_tests [OF sample_client_inv sample_fresh_ok sample_prepared_ok] by blast
qed

end
