(* ===== verification/Spec2Isabelle.thy ===== *)
theory Spec2Isabelle
  imports Prelude Shared_Ptr Errors Client_Lib Connection_Args Connection_Options Value_Cast
    Sample_Library Result_Set Result_Sharing Mysql_Service Embedding Async_Service Work_Thread
    Connector_Pool Library_Protocol Connector Result_Stream Library_Init Mariadb_Ops
    Mariadb_Service Mariadb_Async Mariadb_Runs Mariadb_Refinement Mariadb_Properties
    Mariadb_Executors Mariadb_Destruction Mariadb_Protocol Transactions Example_Programs
    Example_Results Async_Connector Mariadb_Examples Example_Mains Unit_Tests
begin

text \<open>
  A verification development for Amy, a C++ client library for MySQL on top of Asio.  The
  code is a header-only library below \<open>src/include/amy\<close>; all file names here are relative to
  that directory, but for those that start with \<open>example\<close>, which is \<open>src/example\<close>.

  \<^bold>\<open>The program.\<close>  A \<open>basic_connector<Service>\<close> holds the state of one connection, the
  \<open>implementation\<close> of its service: the handle of the client library, the client flags, two
  Booleans, a shared pointer that owns the last stored result, and a token whose weak
  references tell pending operations that they were canceled.  There are two services.
  \<open>mysql_service\<close> runs the blocking calls of the client library on a private thread to
  implement the asynchronous operations; \<open>mariadb_service\<close> drives the non-blocking calls of the
  MariaDB client with composed operations that wait for the socket or a timer.  A
  \<open>result_set\<close> copies rows and field descriptions out of the library and observes the
  result it came from through a weak pointer; values are converted to SQL types on access.
  Statements, transactions and an iterator over several results are templates over a
  connector.

  \<^bold>\<open>Theories and sources.\<close>

    \<^item> \<open>Prelude\<close>: machine types, C strings, collections of rewrite rules.
    \<^item> \<open>Shared_Ptr\<close>: control blocks of shared and weak pointers.  The states of the components
      extend the record \<open>cpp_heap\<close>, so that expiry is a function of the state.
    \<^item> \<open>Errors\<close>: \<open>error.hpp\<close>, \<open>system_error.hpp\<close>, \<open>detail/throw_error.hpp\<close>.
    \<^item> \<open>Client_Lib\<close>: \<open>detail/mysql_ops.hpp\<close>.  The functions of the client library are the fields
      of the record \<open>mysql_api\<close>, a parameter of every definition that uses them; its state is
      the type variable \<open>'m\<close>.  \<open>Sample_Library\<close> is an instance for witnesses only.
    \<^item> \<open>Connection_Args\<close>: \<open>auth_info.hpp\<close>, \<open>endpoint_traits.hpp\<close>, \<open>detail/mysql_option.hpp\<close>.
    \<^item> \<open>Connection_Options\<close>: the tables of \<open>options.hpp\<close>, \<open>client_flags.hpp\<close> and
      \<open>detail/mysql_types.hpp\<close>.
    \<^item> \<open>Value_Cast\<close>: \<open>detail/value_cast.hpp\<close>, \<open>sql_types.hpp\<close>.
    \<^item> \<open>Result_Set\<close>: \<open>field.hpp\<close>, \<open>field_info.hpp\<close>, \<open>row.hpp\<close>, \<open>result_set.hpp\<close>.  Fetching loops
      as long as the library returns rows, hence \<open>partial_function\<close>: \<open>None\<close> is a fetch that
      does not return.
    \<^item> \<open>Result_Sharing\<close>: the same class as objects, whose rows live in vectors that copies share.
    \<^item> \<open>Mysql_Service\<close>: the connection and the blocking operations of
      \<open>impl/mysql_service.ipp\<close>, as functions \<open>ms_\<dots>\<close> of the record \<open>implementation\<close>.
    \<^item> \<open>Async_Service\<close>: its work thread, the three asynchronous operations and their handlers,
      as a step relation \<open>async_step\<close> with events.
    \<^item> \<open>Embedding\<close>: a connection as part of a larger state; lemmas only.
    \<^item> \<open>Work_Thread\<close>: the statements of the handlers one by one, \<open>work_step\<close>, with the thread of
      the user in between.
    \<^item> \<open>Connector_Pool\<close>: any number of connectors on one service, \<open>pool_step\<close>, and what their
      destruction does.
    \<^item> \<open>Library_Protocol\<close>: the client library with accounts of its handle, its results and the calls
      that must not be made; what the accounts say after every run of the service.
    \<^item> \<open>Connector\<close>: \<open>basic_connector.hpp\<close>, \<open>execute.hpp\<close>, \<open>detail/execute_handler.hpp\<close>,
      \<open>basic_scoped_transaction.hpp\<close>, \<open>basic_results_iterator.hpp\<close>, over a record of the
      operations of a service.
    \<^item> \<open>Result_Stream\<close>: what a query and a walk of the iterator show of the results that the
      library delivers.
    \<^item> \<open>Transactions\<close>: the database behind a connection, and what scoped transactions do to it.
    \<^item> \<open>Library_Init\<close>: \<open>detail/mysql_lib_init.hpp\<close>.
    \<^item> \<open>Mariadb_Ops\<close>: \<open>detail/mariadb_ops.hpp\<close>, with the non-blocking calls as the fields of
      \<open>mariadb_api\<close>, which extends \<open>mysql_api\<close>.
    \<^item> \<open>Mariadb_Service\<close>, \<open>Mariadb_Async\<close>: \<open>impl/mariadb_service.ipp\<close>.  The first has the
      connection with its descriptor, timer, waits and callbacks, the blocking operations
      \<open>mdb_\<dots>\<close> and \<open>async_wait_mysql\<close>; the second the four handler classes, whose switches and
      loops are written case by case, and the steps of a connection, \<open>mdb_step\<close>.
    \<^item> \<open>Mariadb_Runs\<close>, \<open>Mariadb_Refinement\<close>, \<open>Mariadb_Properties\<close>: proofs about them.
    \<^item> \<open>Mariadb_Executors\<close>: the hooks of the handler classes for allocators and executors, and runs
      in which every piece of code has an executor, \<open>placed_run\<close>.
    \<^item> \<open>Mariadb_Destruction\<close>: the end of a connector over \<open>mariadb_service\<close> with operations
      outstanding, and what the \<open>io_service\<close> does for it afterwards, \<open>drain_step\<close>.
    \<^item> \<open>Mariadb_Protocol\<close>: the accounts of \<open>Library_Protocol\<close> for the non-blocking calls.
    \<^item> \<open>Async_Connector\<close>: the asynchronous members of \<open>basic_connector.hpp\<close> and \<open>async_execute\<close>
      over a record of the asynchronous operations of a service.
    \<^item> \<open>Example_Programs\<close>, \<open>Example_Results\<close>: the blocking and asynchronous programs of
      \<open>example\<close> over \<open>mysql_service\<close>, \<open>program_step\<close>.  \<open>Mariadb_Examples\<close>: those over
      \<open>mariadb_service\<close>, \<open>mdb_program_step\<close>, whose callbacks may run before \<open>main\<close> has got to
      \<open>io_service::run\<close>.  \<open>Example_Mains\<close>: their functions \<open>main\<close> from the command line on, and
      \<open>example/utils.cpp\<close>.
    \<^item> \<open>Unit_Tests\<close>: the tests of \<open>src/test\<close>.
\<close>

text \<open>
  \<^bold>\<open>What the lemmas show.\<close>

  The connection is the sole owner of its result and its token, every operation preserves
  this (\<open>impl_inv\<close>), and with it that result sets expire exactly when the result is dropped.  With
  \<open>Library_Protocol\<close> it follows, for runs statement by statement in which the user leaves the
  connection alone while a handler runs, that results are freed once and not fetched from
  afterwards, that nothing leaks, and which operations act on a handle that is not initialised;
  \<open>Mariadb_Protocol\<close> shows the same of the composed operations.  The accounts leave out the
  routines that only read the handle, \<open>mysql_errno\<close>, \<open>mysql_error\<close>, \<open>mysql_affected_rows\<close> and
  the like, some of which the code calls without asking whether it is open.
  In every interleaving of user calls, handlers and deliveries each callback of
  \<open>mysql_service\<close> is delivered once, or dropped when the service is shut down while its handler is
  in the work queue; handlers of a canceled or closed connection abort
  without touching the library, and live ones do what the blocking operation does
  (\<open>Async_Service\<close>).  \<open>Work_Thread\<close> says when a handler may be taken as one step: when the user
  leaves the connection alone while it runs; and what happens otherwise, as nothing in the code
  prevents.  \<open>Connector_Pool\<close> extends the account of the callbacks to connectors that share the
  service and may be destroyed while their operations are pending.  The same is shown for
  \<open>mariadb_service\<close>, where the steps in between are visible: \<open>mdb_inv\<close> relates every operation that waits or is ready to the connection, the
  callbacks are counted as multisets (\<open>settled\<close>), and each of the four composed operations is
  simulated by the blocking one (\<open>Mariadb_Refinement\<close>).  Fetching a result copies all rows,
  columns and descriptions, or reports the error; a query followed by a walk of the iterator
  shows exactly the results of the statement.  Whatever a program does with result sets, their
  rows stay well typed (\<open>Result_Sharing\<close>).  The components come together in the example programs:
  in every interleaving the asynchronous ones end with the output and the error code of the blocking
  ones, over both services.  They differ in the text that they report for the code, since they throw
  exceptions of another class; in the number of rows, which \<open>async_execute\<close> loses; and where an
  exception is thrown that \<open>main\<close> does not catch: an address that cannot be parsed
  (\<open>example_mains_agree\<close>), and over \<open>mariadb_service\<close> a connect that fails without a wait
  (\<open>mdb_connect_failure_uncaught\<close>; the equivalences there assume that the connect waits).  \<open>inevitably\<close> bounds
  the steps they take, seven for one query and some number for each statement whose blocking form
  ends.  A connection over \<open>mariadb_service\<close> that is destroyed with operations outstanding works
  them off in as many steps, all aborted (\<open>Mariadb_Destruction\<close>).  Scoped transactions
  are atomic over both services; if the library refuses the rollback of the destructor, just the
  statements that had succeeded are kept, and with the commit that takes an error code a block
  is not atomic (\<open>Transactions\<close>).  Callbacks of \<open>mariadb_service\<close> run on their own executor or
  inside the function that started their operation (\<open>Mariadb_Executors\<close>); the latter is what one
  of the unit tests rules out (\<open>Unit_Tests\<close>).  Further theorems are about the conversions, the texts
  of errors and the arguments of a connection.

  \<^bold>\<open>Interfaces.\<close>  The locale \<open>guarded_service\<close> (\<open>Connector\<close>) states what the templates rely on in
  a service, and \<open>callback_service\<close> (\<open>Async_Connector\<close>) what the asynchronous members do: an
  operation that was started owes its callback once, and a closed connection refuses it through
  the \<open>io_service\<close>.  Both are interpreted for both services, and so is \<open>transactional_service\<close>
  (\<open>Transactions\<close>), which extends \<open>guarded_service\<close> by the effect of the operations on a
  database.  The locale \<open>result_loop\<close>
  (\<open>Example_Results\<close>) compares a loop over results with callbacks that start one another, and is
  interpreted for the programs over both services.  The locale \<open>waiting_call\<close>
  (\<open>Mariadb_Refinement\<close>) states what one non-blocking call inside a composed operation does; its
  theorem \<open>settled_call\<close> carries the call through all its waits, and it is interpreted for the
  six calls of the four operations.

  \<^bold>\<open>Hypotheses and bounds.\<close>  The client library, Asio's clock and the server are parameters.
  \<open>settles A cont r n call\<close> says that a non-blocking call completes after at most \<open>n\<close> waits,
  each for an event that the service knows, on a valid socket, without an error recorded in
  the handle; \<open>query_agrees\<close>, \<open>store_agrees\<close>, \<open>next_agrees\<close> and \<open>connect_agrees\<close> say that it then
  comes to what the blocking call does, as the manual of the library documents.  \<open>n\<close> is
  arbitrary.  \<open>transactional\<close> says the same of the effect of statements, \<open>commit\<close>, \<open>rollback\<close> and
  \<open>autocommit\<close> on the data: each has its effect or fails without any.  \<open>waits_supported\<close> excludes
  waits for an exceptional condition alone, for which the service registers nothing, and waits to read
  or write without a socket, where assigning the descriptor throws (\<open>assign_throws\<close>); in both cases
  the operation is lost with its callback.  A step of the MariaDB service that completes an event is
  enabled whenever something waits; theorems about results use the schedule \<open>serve\<close>, which is
  one of the runs (\<open>serve_run\<close>).  The loops of the handlers terminate by the measures
  \<open>store_rank\<close> and \<open>query_rank\<close>.

  \<^bold>\<open>Not modelled.\<close>  Threads inside one call of the library or inside \<open>result_set::assign\<close>, which
  are single statements in \<open>Work_Thread\<close>; memory models weaker than sequential consistency.
  Floating point, the parsers of \<open>boost::posix_time\<close> and of addresses, which are parameters, and the
  Windows variant of one conversion.  Of \<open>getopt_long\<close> there is its result, a list of options, and
  its search in the table of long options; of an uncaught exception, that the program aborts.
  Work guards, which only keep \<open>io_service::run\<close> from returning; the build files.
\<close>

end
